theory Spec2Isabelle
  imports Complex_Main "HOL-Library.Multiset"
begin

section \<open>Python values used by the route optimizer\<close>

text \<open>
  Exceptions of the Python source are values: a function that can raise returns
  \<open>error + 'a\<close>, with \<open>Inl\<close> the exception that propagates.
\<close>

datatype error = IndexError | KeyError | ValueError | ServiceError

text \<open>
  \<open>xs[i]\<close> on a Python list: a negative index counts from the end, an index out of
  range raises IndexError.
\<close>

definition py_index :: "'a list \<Rightarrow> int \<Rightarrow> error + 'a" where
  "py_index xs i =
     (if 0 \<le> i \<and> i < int (length xs) then Inr (xs ! nat i)
      else if i < 0 \<and> - int (length xs) \<le> i then Inr (xs ! nat (int (length xs) + i))
      else Inl IndexError)"

text \<open>\<open>distance_matrix[a][b]\<close>: the row is read first, then the column.\<close>

definition matrix_get :: "'d list list \<Rightarrow> int \<Rightarrow> int \<Rightarrow> error + 'd" where
  "matrix_get distance_matrix a b =
     (case py_index distance_matrix a of
        Inl e \<Rightarrow> Inl e
      | Inr row \<Rightarrow> py_index row b)"

text \<open>\<open>list(range(n))\<close>.\<close>

definition py_range :: "nat \<Rightarrow> int list" where
  "py_range n = map int [0..<n]"

section \<open>The primary engine (route_optimizer.py)\<close>

subsection \<open>calculate_route_distance\<close>

text \<open>
  The loop \<open>for i in range(len(route) - 1): total_distance +=
  distance_matrix[route[i]][route[i + 1]]\<close> walks the consecutive pairs of the route
  from the left, adding each edge to the running total. Distances are Python floats;
  the model keeps them in any type with \<open>0\<close>, \<open>+\<close> and a linear order, and no law
  of arithmetic is assumed of \<open>+\<close>.
\<close>

fun route_distance_loop :: "'d::plus \<Rightarrow> int list \<Rightarrow> 'd list list \<Rightarrow> error + 'd" where
  "route_distance_loop total_distance (a # b # rest) distance_matrix =
     (case matrix_get distance_matrix a b of
        Inl e \<Rightarrow> Inl e
      | Inr d \<Rightarrow> route_distance_loop (total_distance + d) (b # rest) distance_matrix)"
| "route_distance_loop total_distance [a] distance_matrix = Inr total_distance"
| "route_distance_loop total_distance [] distance_matrix = Inr total_distance"

definition calculate_route_distance :: "int list \<Rightarrow> ('d::{plus,zero}) list list \<Rightarrow> error + 'd" where
  "calculate_route_distance route distance_matrix =
     (if length route \<le> 1 then Inr 0
      else route_distance_loop 0 route distance_matrix)"

subsection \<open>two_opt\<close>

text \<open>\<open>route[:i] + route[i:j][::-1] + route[j:]\<close> for \<open>0 \<le> i\<close> and \<open>0 \<le> j\<close>.\<close>

definition reverse_segment :: "'a list \<Rightarrow> nat \<Rightarrow> nat \<Rightarrow> 'a list" where
  "reverse_segment route i j = take i route @ rev (drop i (take j route)) @ drop j route"

text \<open>
  The inner loop \<open>for j in range(i + 1, len(route))\<close>: the adjacent pair is skipped,
  the first strictly shorter candidate is returned (the \<open>break\<close>), and an exception of
  \<open>calculate_route_distance\<close> propagates.
\<close>

fun two_opt_scan_j ::
  "nat \<Rightarrow> nat list \<Rightarrow> int list \<Rightarrow> ('d::{plus,zero,linorder}) list list \<Rightarrow> 'd
     \<Rightarrow> error + (int list \<times> 'd) option" where
  "two_opt_scan_j i [] route distance_matrix best_distance = Inr None"
| "two_opt_scan_j i (j # js) route distance_matrix best_distance =
     (if j - i = 1 then two_opt_scan_j i js route distance_matrix best_distance
      else
        (let new_route = reverse_segment route i j in
         case calculate_route_distance new_route distance_matrix of
           Inl e \<Rightarrow> Inl e
         | Inr new_distance \<Rightarrow>
             if new_distance < best_distance then Inr (Some (new_route, new_distance))
             else two_opt_scan_j i js route distance_matrix best_distance))"

text \<open>
  The outer loop \<open>for i in range(1, len(route) - 2)\<close>, left as soon as the inner
  loop has accepted a candidate.
\<close>

fun two_opt_scan_i ::
  "nat list \<Rightarrow> int list \<Rightarrow> ('d::{plus,zero,linorder}) list list \<Rightarrow> 'd
     \<Rightarrow> error + (int list \<times> 'd) option" where
  "two_opt_scan_i [] route distance_matrix best_distance = Inr None"
| "two_opt_scan_i (i # is) route distance_matrix best_distance =
     (case two_opt_scan_j i [i + 1..<length route] route distance_matrix best_distance of
        Inl e \<Rightarrow> Inl e
      | Inr (Some accepted) \<Rightarrow> Inr (Some accepted)
      | Inr None \<Rightarrow> two_opt_scan_i is route distance_matrix best_distance)"

definition two_opt_scan ::
  "int list \<Rightarrow> ('d::{plus,zero,linorder}) list list \<Rightarrow> 'd \<Rightarrow> error + (int list \<times> 'd) option" where
  "two_opt_scan route distance_matrix best_distance =
     two_opt_scan_i [1..<length route - 2] route distance_matrix best_distance"

text \<open>
  The loop \<open>while iterations < max_iterations\<close>, with the local variables of the
  source as arguments. It returns \<open>best_route\<close>, \<open>improved\<close> and the number of
  iterations, which the source logs.
\<close>

function two_opt_loop ::
  "int \<Rightarrow> int \<Rightarrow> int list \<Rightarrow> int list \<Rightarrow> ('d::{plus,zero,linorder}) \<Rightarrow> bool \<Rightarrow> 'd list list
     \<Rightarrow> error + (int list \<times> bool \<times> int)" where
  "two_opt_loop max_iterations iterations route best_route best_distance improved distance_matrix =
     (if iterations < max_iterations then
        (case two_opt_scan route distance_matrix best_distance of
           Inl e \<Rightarrow> Inl e
         | Inr None \<Rightarrow> Inr (best_route, improved, iterations)
         | Inr (Some (new_route, new_distance)) \<Rightarrow>
             two_opt_loop max_iterations (iterations + 1) new_route new_route new_distance True
               distance_matrix)
      else Inr (best_route, improved, iterations))"
  by pat_completeness auto
termination
  by (relation "measure (\<lambda>(max_iterations, iterations, _). nat (max_iterations - iterations))") auto

definition two_opt ::
  "int list \<Rightarrow> ('d::{plus,zero,linorder}) list list \<Rightarrow> int \<Rightarrow> error + (int list \<times> bool)" where
  "two_opt route distance_matrix max_iterations =
     (if length route \<le> 3 then Inr (route, False)
      else
        (case calculate_route_distance route distance_matrix of
           Inl e \<Rightarrow> Inl e
         | Inr best_distance \<Rightarrow>
             (case two_opt_loop max_iterations 0 route route best_distance False distance_matrix of
                Inl e \<Rightarrow> Inl e
              | Inr (best_route, improved, iterations) \<Rightarrow> Inr (best_route, improved))))"

subsection \<open>nearest_neighbor\<close>

text \<open>
  \<open>min(unvisited, key=...)\<close>: the key of every element is computed in iteration
  order, and an element replaces the current best only when its key is strictly
  smaller, so the first element with the least key is returned. The set is given as
  the list of its elements in iteration order.
\<close>

fun py_min_loop :: "('a \<Rightarrow> error + 'k::linorder) \<Rightarrow> 'a \<Rightarrow> 'k \<Rightarrow> 'a list \<Rightarrow> error + 'a" where
  "py_min_loop key best best_key [] = Inr best"
| "py_min_loop key best best_key (y # ys) =
     (case key y of
        Inl e \<Rightarrow> Inl e
      | Inr key_y \<Rightarrow>
          if key_y < best_key then py_min_loop key y key_y ys
          else py_min_loop key best best_key ys)"

fun py_min_key :: "('a \<Rightarrow> error + 'k::linorder) \<Rightarrow> 'a list \<Rightarrow> error + 'a" where
  "py_min_key key [] = Inl ValueError"
| "py_min_key key (x # xs) =
     (case key x of
        Inl e \<Rightarrow> Inl e
      | Inr key_x \<Rightarrow> py_min_loop key x key_x xs)"

text \<open>\<open>unvisited.remove(x)\<close>: KeyError when \<open>x\<close> is not in the set.\<close>

definition set_remove :: "int list \<Rightarrow> int \<Rightarrow> error + int list" where
  "set_remove unvisited x =
     (if x \<in> set unvisited then Inr (remove1 x unvisited) else Inl KeyError)"

text \<open>
  The loop \<open>while unvisited\<close>. The set \<open>unvisited\<close> is built by \<open>set(range(n))\<close>;
  CPython stores a small non-negative int in the slot of its own value, and iterates over
  the slots in order, so the set is iterated in ascending order, also after removals.
  The model keeps \<open>unvisited\<close> as the ascending list of its elements.
\<close>

function nearest_neighbor_loop ::
  "('d::linorder) list list \<Rightarrow> int list \<Rightarrow> int list \<Rightarrow> int \<Rightarrow> error + int list" where
  "nearest_neighbor_loop distance_matrix unvisited route current =
     (if unvisited = [] then Inr route
      else
        (case py_min_key (\<lambda>x. matrix_get distance_matrix current x) unvisited of
           Inl e \<Rightarrow> Inl e
         | Inr nearest \<Rightarrow>
             (case set_remove unvisited nearest of
                Inl e \<Rightarrow> Inl e
              | Inr unvisited' \<Rightarrow>
                  nearest_neighbor_loop distance_matrix unvisited' (route @ [nearest]) nearest)))"
  by pat_completeness auto
termination
  by (relation "measure (\<lambda>(distance_matrix, unvisited, route, current). length unvisited)")
     (auto simp: set_remove_def length_remove1 split: if_splits intro!: diff_less)

definition nearest_neighbor :: "('d::linorder) list list \<Rightarrow> int \<Rightarrow> error + int list" where
  "nearest_neighbor distance_matrix start_index =
     (let n = length distance_matrix in
      if n \<le> 1 then Inr (py_range n)
      else
        (case set_remove (py_range n) start_index of
           Inl e \<Rightarrow> Inl e
         | Inr unvisited \<Rightarrow>
             nearest_neighbor_loop distance_matrix unvisited [start_index] start_index))"

section \<open>The embedded variant (api/index.py)\<close>

text \<open>
  A stop of the embedded variant, with the keys of the dictionary the request handler
  builds. \<open>coordinates\<close> holds \<open>lat\<close> and \<open>lng\<close>.
\<close>

record stop_with_coords =
  sc_stop_number :: nat
  sc_customer :: string
  sc_street :: string
  sc_postal_code :: string
  sc_city :: string
  sc_lat :: real
  sc_lng :: real

text \<open>
  The dictionary \<open>distances\<close>, filled for every ordered pair \<open>i \<noteq> j\<close> in the order of
  the two nested loops. \<open>haversine_distance\<close> is floating-point trigonometry and is a
  parameter of the model: any function of the four coordinates, which may raise.
\<close>

fun fill_distances ::
  "(real \<Rightarrow> real \<Rightarrow> real \<Rightarrow> real \<Rightarrow> error + 'd) \<Rightarrow> stop_with_coords list \<Rightarrow> (nat \<times> nat) list
     \<Rightarrow> ((nat \<times> nat) \<rightharpoonup> 'd) \<Rightarrow> error + ((nat \<times> nat) \<rightharpoonup> 'd)" where
  "fill_distances haversine_distance stops [] distances = Inr distances"
| "fill_distances haversine_distance stops ((i, j) # pairs) distances =
     (if i \<noteq> j then
        (case haversine_distance (sc_lat (stops ! i)) (sc_lng (stops ! i))
                (sc_lat (stops ! j)) (sc_lng (stops ! j)) of
           Inl e \<Rightarrow> Inl e
         | Inr d \<Rightarrow> fill_distances haversine_distance stops pairs (distances((i, j) \<mapsto> d)))
      else fill_distances haversine_distance stops pairs distances)"

definition index_pairs :: "nat \<Rightarrow> (nat \<times> nat) list" where
  "index_pairs n = concat (map (\<lambda>i. map (\<lambda>j. (i, j)) [0..<n]) [0..<n])"

text \<open>
  The closure \<open>calculate_route_distance\<close> of \<open>optimize_route_2opt\<close>: one edge for every
  position of the route, the last one from the last stop back to the first. A missing
  key of \<open>distances\<close> raises KeyError.
\<close>

fun embedded_distance_loop ::
  "nat list \<Rightarrow> 'd::plus \<Rightarrow> ((nat \<times> nat) \<rightharpoonup> 'd) \<Rightarrow> nat list \<Rightarrow> error + 'd" where
  "embedded_distance_loop [] total_distance distances route_order = Inr total_distance"
| "embedded_distance_loop (i # is) total_distance distances route_order =
     (let current = route_order ! i;
          next_stop = route_order ! ((i + 1) mod length route_order)
      in case distances (current, next_stop) of
           None \<Rightarrow> Inl KeyError
         | Some d \<Rightarrow> embedded_distance_loop is (total_distance + d) distances route_order)"

definition calculate_route_distance_embedded ::
  "((nat \<times> nat) \<rightharpoonup> 'd::{plus,zero}) \<Rightarrow> nat list \<Rightarrow> error + 'd" where
  "calculate_route_distance_embedded distances route_order =
     embedded_distance_loop [0..<length route_order] 0 distances route_order"

text \<open>
  One pass of the embedded search: both loops run to their end, and every strictly
  shorter candidate replaces the current route on the spot.
  \<open>new_route[i:j+1] = reversed(new_route[i:j+1])\<close> reverses the positions \<open>i..j\<close>.
\<close>

fun embedded_pass_j ::
  "nat \<Rightarrow> nat list \<Rightarrow> ((nat \<times> nat) \<rightharpoonup> 'd::{plus,zero,linorder}) \<Rightarrow> nat list \<times> 'd \<times> bool
     \<Rightarrow> error + (nat list \<times> 'd \<times> bool)" where
  "embedded_pass_j i [] distances (current_route, current_distance, improved) =
     Inr (current_route, current_distance, improved)"
| "embedded_pass_j i (j # js) distances (current_route, current_distance, improved) =
     (let new_route = reverse_segment current_route i (j + 1) in
      case calculate_route_distance_embedded distances new_route of
        Inl e \<Rightarrow> Inl e
      | Inr new_distance \<Rightarrow>
          if new_distance < current_distance
          then embedded_pass_j i js distances (new_route, new_distance, True)
          else embedded_pass_j i js distances (current_route, current_distance, improved))"

fun embedded_pass_i ::
  "nat list \<Rightarrow> nat \<Rightarrow> ((nat \<times> nat) \<rightharpoonup> 'd::{plus,zero,linorder}) \<Rightarrow> nat list \<times> 'd \<times> bool
     \<Rightarrow> error + (nat list \<times> 'd \<times> bool)" where
  "embedded_pass_i [] n distances state = Inr state"
| "embedded_pass_i (i # is) n distances state =
     (case embedded_pass_j i [i + 1..<n] distances state of
        Inl e \<Rightarrow> Inl e
      | Inr state' \<Rightarrow> embedded_pass_i is n distances state')"

text \<open>
  The loop \<open>while improved and iterations < max_iterations\<close> with
  \<open>max_iterations = 50\<close>. It returns the route, its distance and the number of
  iterations, which the source logs.
\<close>

function embedded_loop ::
  "nat \<Rightarrow> ((nat \<times> nat) \<rightharpoonup> 'd::{plus,zero,linorder}) \<Rightarrow> bool \<Rightarrow> int \<Rightarrow> nat list \<Rightarrow> 'd
     \<Rightarrow> error + (nat list \<times> 'd \<times> int)" where
  "embedded_loop n distances improved iterations current_route current_distance =
     (let max_iterations = 50 in
      if improved \<and> iterations < max_iterations then
        (case embedded_pass_i [1..<n - 1] n distances (current_route, current_distance, False) of
           Inl e \<Rightarrow> Inl e
         | Inr (current_route', current_distance', improved') \<Rightarrow>
             embedded_loop n distances improved' (iterations + 1) current_route' current_distance')
      else Inr (current_route, current_distance, iterations))"
  by pat_completeness auto
termination
  by (relation "measure (\<lambda>(n, distances, improved, iterations, _). nat (50 - iterations))") auto

text \<open>\<open>[stops_with_coords[i] for i in current_route]\<close>.\<close>

fun select_stops :: "'a list \<Rightarrow> nat list \<Rightarrow> error + 'a list" where
  "select_stops stops [] = Inr []"
| "select_stops stops (i # is) =
     (if i < length stops then
        (case select_stops stops is of
           Inl e \<Rightarrow> Inl e
         | Inr rest \<Rightarrow> Inr (stops ! i # rest))
      else Inl IndexError)"

text \<open>
  \<open>optimize_route_2opt\<close> returns the reordered stops, the distance saved and the
  distance of the final route.
\<close>

definition optimize_route_2opt ::
  "(real \<Rightarrow> real \<Rightarrow> real \<Rightarrow> real \<Rightarrow> error + 'd::{plus,minus,zero,linorder}) \<Rightarrow> stop_with_coords list
     \<Rightarrow> error + (stop_with_coords list \<times> 'd \<times> 'd)" where
  "optimize_route_2opt haversine_distance stops_with_coords =
     (let n = length stops_with_coords in
      if n < 3 then Inr (stops_with_coords, 0, 0)
      else
        (case fill_distances haversine_distance stops_with_coords (index_pairs n) Map.empty of
           Inl e \<Rightarrow> Inl e
         | Inr distances \<Rightarrow>
             (case calculate_route_distance_embedded distances [0..<n] of
                Inl e \<Rightarrow> Inl e
              | Inr original_distance \<Rightarrow>
                  if original_distance = 0 then Inr (stops_with_coords, 0, 0)
                  else
                    (case embedded_loop n distances True 0 [0..<n] original_distance of
                       Inl e \<Rightarrow> Inl e
                     | Inr (current_route, current_distance, iterations) \<Rightarrow>
                         (case select_stops stops_with_coords current_route of
                            Inl e \<Rightarrow> Inl e
                          | Inr optimized_stops \<Rightarrow>
                              Inr (optimized_stops, original_distance - current_distance,
                                   current_distance))))))"

section \<open>The optimizer and its surroundings\<close>

subsection \<open>Strings\<close>

text \<open>
  A Python string is a sequence of Unicode code points. The addresses of the stops,
  whose characters the code inspects, are lists of code points; \<open>codepoints\<close> writes a
  literal of the source that way. The names that the code only compares with a literal
  or hands on (the algorithm, its label, a route identifier) are HOL strings.
\<close>

type_synonym unicode = "nat list"

definition codepoints :: "string \<Rightarrow> unicode" where
  "codepoints s = map of_char s"

text \<open>
  \<open>str.strip()\<close> removes from both ends the characters that \<open>str.isspace\<close> accepts:
  the tabulator to the carriage return, the four separators U+001C to U+001F, the
  space, U+0085, U+00A0, U+1680, U+2000 to U+200A, U+2028, U+2029, U+202F, U+205F and
  U+3000.
\<close>

definition is_space :: "nat \<Rightarrow> bool" where
  "is_space c \<longleftrightarrow>
     c \<in> {9, 10, 11, 12, 13, 28, 29, 30, 31, 32, 133, 160, 5760, 8232, 8233, 8239, 8287, 12288}
     \<or> (8192 \<le> c \<and> c \<le> 8202)"

definition py_strip :: "unicode \<Rightarrow> unicode" where
  "py_strip s = rev (dropWhile is_space (rev (dropWhile is_space s)))"

text \<open>\<open>sep.join(parts)\<close>.\<close>

fun py_join :: "'a list \<Rightarrow> 'a list list \<Rightarrow> 'a list" where
  "py_join sep [] = []"
| "py_join sep [p] = p"
| "py_join sep (p # q # ps) = p @ sep @ py_join sep (q # ps)"

subsection \<open>Numbers\<close>

text \<open>
  Coordinates, distances and times are Python floats; the model computes with the real
  numbers they stand for. \<open>round(x, ndigits)\<close> rounds to the nearest multiple of
  \<open>10 ^ ndigits\<close>, a tie to the even one.
\<close>

type_synonym coord = "real \<times> real"

definition round_half_even :: "real \<Rightarrow> int" where
  "round_half_even y =
     (let f = \<lfloor>y\<rfloor>; r = y - of_int f
      in if r < 1 / 2 then f else if 1 / 2 < r then f + 1 else if even f then f else f + 1)"

definition py_round :: "real \<Rightarrow> nat \<Rightarrow> real" where
  "py_round x ndigits = of_int (round_half_even (x * 10 ^ ndigits)) / 10 ^ ndigits"

text \<open>\<open>math.atan2(y, x)\<close> and \<open>math.radians(x)\<close>.\<close>

definition py_atan2 :: "real \<Rightarrow> real \<Rightarrow> real" where
  "py_atan2 y x =
     (if 0 < x then arctan (y / x)
      else if x < 0 \<and> 0 \<le> y then arctan (y / x) + pi
      else if x < 0 then arctan (y / x) - pi
      else if 0 < y then pi / 2
      else if y < 0 then - pi / 2
      else 0)"

definition radians :: "real \<Rightarrow> real" where
  "radians x = x * pi / 180"

subsection \<open>What lies outside the program\<close>

text \<open>The answers of the geocoding service and of the routing provider.\<close>

datatype geocode_reply = Located real real | NoMatch | GeocoderError

datatype directions_reply =
    Directions real real "string option"
  | NoFeatures
  | DirectionsError

datatype json_reply = JsonValue | JsonNull | JsonError

text \<open>
  The services: the geocoder (an answer for every address), the routing provider (an
  answer for every time of call and pair of coordinates; the three numbers of
  \<open>Directions\<close> are the distance in metres, the duration in seconds and the geometry),
  \<open>json.loads\<close> on a stored geometry, and whether the two databases can be opened. An
  error of a database is caught inside the cache classes: a read then returns None and
  a write is dropped.

  The Unicode database of the interpreter: \<open>str.lower()\<close> on a string that is not
  pure ASCII, and the value of a decimal digit beyond ASCII (a number from 0 to 9).

  The float arithmetic: the model computes with real numbers, and only where the
  rounding of the floats decides whether an exception is raised does it take the
  rounding from outside: \<open>haversine_rounding\<close> is the difference between the float that
  \<open>calculate_air_distance\<close> computes for its term \<open>a\<close> and the real value of that
  term.
\<close>

record world =
  geocode :: "unicode \<Rightarrow> geocode_reply"
  directions :: "real \<Rightarrow> coord \<Rightarrow> coord \<Rightarrow> directions_reply"
  json_loads :: "string \<Rightarrow> json_reply"
  geocoding_db_ok :: bool
  routing_db_ok :: bool
  unicode_lower :: "unicode \<Rightarrow> unicode"
  unicode_decimal :: "nat \<Rightarrow> nat option"
  haversine_rounding :: "real \<Rightarrow> real \<Rightarrow> real \<Rightarrow> real \<Rightarrow> real"

subsection \<open>str.lower and int\<close>

text \<open>
  \<open>str.lower()\<close>: on a string of ASCII the capital letters A to Z are mapped, and
  nothing else; any other string is mapped by the Unicode database.
\<close>

definition ascii_lower :: "nat \<Rightarrow> nat" where
  "ascii_lower c = (if 65 \<le> c \<and> c \<le> 90 then c + 32 else c)"

definition py_lower :: "world \<Rightarrow> unicode \<Rightarrow> unicode" where
  "py_lower w s = (if list_all (\<lambda>c. c < 128) s then map ascii_lower s else unicode_lower w s)"

text \<open>
  \<open>int(s)\<close> on a string. A character beyond ASCII is first replaced: white space by
  a space, a decimal digit by the ASCII digit of its value, and any other character
  makes the string invalid. Then the tabulator to the carriage return and the space are
  dropped at both ends, one sign may come first, and single underscores may stand
  between digits. Anything else raises ValueError.
\<close>

definition to_ascii :: "world \<Rightarrow> nat \<Rightarrow> nat option" where
  "to_ascii w c =
     (if c < 128 then Some c
      else if is_space c then Some 32
      else (case unicode_decimal w c of
              Some d \<Rightarrow> if d < 10 then Some (48 + d) else None
            | None \<Rightarrow> None))"

definition is_c_space :: "nat \<Rightarrow> bool" where
  "is_c_space c \<longleftrightarrow> c \<in> {9, 10, 11, 12, 13, 32}"

definition is_digit :: "nat \<Rightarrow> bool" where
  "is_digit c \<longleftrightarrow> 48 \<le> c \<and> c \<le> 57"

fun parse_digits :: "nat list \<Rightarrow> bool \<Rightarrow> nat \<Rightarrow> nat option" where
  "parse_digits [] after_digit acc = (if after_digit then Some acc else None)"
| "parse_digits (c # cs) after_digit acc =
     (if is_digit c then parse_digits cs True (10 * acc + (c - 48))
      else if c = 95 \<and> after_digit then parse_digits cs False acc
      else None)"

definition py_int :: "world \<Rightarrow> unicode \<Rightarrow> error + int" where
  "py_int w s =
     (case those (map (to_ascii w) s) of
        None \<Rightarrow> Inl ValueError
      | Some ascii \<Rightarrow>
          (case rev (dropWhile is_c_space (rev (dropWhile is_c_space ascii))) of
             [] \<Rightarrow> Inl ValueError
           | c # cs \<Rightarrow>
               if c = 45 then
                 (case parse_digits cs False 0 of
                    None \<Rightarrow> Inl ValueError | Some v \<Rightarrow> Inr (- int v))
               else if c = 43 then
                 (case parse_digits cs False 0 of
                    None \<Rightarrow> Inl ValueError | Some v \<Rightarrow> Inr (int v))
               else
                 (case parse_digits (c # cs) False 0 of
                    None \<Rightarrow> Inl ValueError | Some v \<Rightarrow> Inr (int v))))"

subsection \<open>calculate_air_distance\<close>

text \<open>
  The haversine formula. \<open>math.sqrt\<close> raises ValueError on a negative argument: over
  the real numbers \<open>a\<close> lies between 0 and 1, but the float computed for it can exceed 1
  by a rounding error when the two points are antipodal or nearly so.
\<close>

definition calculate_air_distance :: "world \<Rightarrow> real \<Rightarrow> real \<Rightarrow> real \<Rightarrow> real \<Rightarrow> error + real" where
  "calculate_air_distance w lat1 lon1 lat2 lon2 =
     (let R = 6371;
          lat1_rad = radians lat1; lon1_rad = radians lon1;
          lat2_rad = radians lat2; lon2_rad = radians lon2;
          dlat = lat2_rad - lat1_rad; dlon = lon2_rad - lon1_rad;
          a = (sin (dlat / 2))\<^sup>2 + cos lat1_rad * cos lat2_rad * (sin (dlon / 2))\<^sup>2
                + haversine_rounding w lat1 lon1 lat2 lon2
      in if a < 0 \<or> 1 - a < 0 then Inl ValueError
         else Inr (R * (2 * py_atan2 (sqrt a) (sqrt (1 - a)))))"

subsection \<open>The state of a RouteOptimizer\<close>

text \<open>A row of the table \<open>geocoding_cache\<close>, and a row of the table \<open>routing_cache\<close>.\<close>

record geocode_entry =
  ge_latitude :: real
  ge_longitude :: real
  ge_success_count :: nat

record route_entry =
  re_distance_km :: real
  re_duration_minutes :: real
  re_geometry :: "string option"
  re_created_at :: real
  re_last_used :: real

text \<open>
  The key of a routing cache row is the MD5 hash of the four coordinates printed with six
  decimals (\<open>:.6f\<close>); the model keeps what is printed of each: the sign and the rounded
  number. The key of a geocoding cache row is the hash of the address in lower case,
  stripped; the model keeps that string. \<open>encode()\<close> raises on a string with a
  surrogate (U+D800 to U+DFFF), which has no hash.
\<close>

type_synonym route_key = "(bool \<times> int) \<times> (bool \<times> int) \<times> (bool \<times> int) \<times> (bool \<times> int)"

definition six_decimals :: "real \<Rightarrow> bool \<times> int" where
  "six_decimals x = (x < 0, round_half_even (x * 10 ^ 6))"

definition hash_route :: "coord \<Rightarrow> coord \<Rightarrow> route_key" where
  "hash_route from_coords to_coords =
     (six_decimals (fst from_coords), six_decimals (snd from_coords),
      six_decimals (fst to_coords), six_decimals (snd to_coords))"

definition encodable :: "unicode \<Rightarrow> bool" where
  "encodable s \<longleftrightarrow> list_all (\<lambda>c. \<not> (55296 \<le> c \<and> c \<le> 57343)) s"

definition hash_address :: "world \<Rightarrow> unicode \<Rightarrow> unicode option" where
  "hash_address w address =
     (let normal = py_strip (py_lower w address)
      in if encodable normal then Some normal else None)"

text \<open>
  The attributes of a \<open>RouteOptimizer\<close>, the databases of its two persistent caches,
  the clock that \<open>time.time()\<close> reads, and the times at which the routing provider was
  called (kept for the statements; the source does not store them).
\<close>

record optimizer =
  session_cache :: "unicode \<rightharpoonup> coord"
  geocoding_cache :: "unicode \<rightharpoonup> geocode_entry"
  routing_cache :: "route_key \<rightharpoonup> route_entry"
  ors_client :: bool
  last_api_call :: real
  api_calls_this_minute :: int
  minute_start :: int
  clock :: real
  api_log :: "real list"

text \<open>\<open>RouteOptimizer.__init__\<close>, with the databases and the clock as they are found.\<close>

definition new_optimizer ::
  "bool \<Rightarrow> (unicode \<rightharpoonup> geocode_entry) \<Rightarrow> (route_key \<rightharpoonup> route_entry) \<Rightarrow> real \<Rightarrow> optimizer" where
  "new_optimizer client geocoding_rows routing_rows now =
     \<lparr>session_cache = Map.empty, geocoding_cache = geocoding_rows, routing_cache = routing_rows,
      ors_client = client, last_api_call = 0, api_calls_this_minute = 0, minute_start = 0,
      clock = now, api_log = []\<rparr>"

subsection \<open>GeocodingCache and RoutingCache\<close>

text \<open>
  Every method of the two classes catches its exceptions: of the hash, and of the
  database.
\<close>

definition geocoding_get_coordinates ::
  "world \<Rightarrow> unicode \<Rightarrow> optimizer \<Rightarrow> coord option \<times> optimizer" where
  "geocoding_get_coordinates w address st =
     (case hash_address w address of
        None \<Rightarrow> (None, st)
      | Some address_hash \<Rightarrow>
          if \<not> geocoding_db_ok w then (None, st)
          else
            (case geocoding_cache st address_hash of
               None \<Rightarrow> (None, st)
             | Some row \<Rightarrow>
                 (Some (ge_latitude row, ge_longitude row),
                  st\<lparr>geocoding_cache := (geocoding_cache st)
                        (address_hash \<mapsto> row\<lparr>ge_success_count := ge_success_count row + 1\<rparr>)\<rparr>)))"

definition geocoding_store_coordinates ::
  "world \<Rightarrow> unicode \<Rightarrow> real \<Rightarrow> real \<Rightarrow> optimizer \<Rightarrow> optimizer" where
  "geocoding_store_coordinates w address lat lng st =
     (case hash_address w address of
        None \<Rightarrow> st
      | Some address_hash \<Rightarrow>
          if \<not> geocoding_db_ok w then st
          else st\<lparr>geocoding_cache := (geocoding_cache st)
                     (address_hash \<mapsto>
                        \<lparr>ge_latitude = lat, ge_longitude = lng, ge_success_count = 1\<rparr>)\<rparr>)"

definition get_route ::
  "world \<Rightarrow> coord \<Rightarrow> coord \<Rightarrow> optimizer \<Rightarrow> route_entry option \<times> optimizer" where
  "get_route w from_coords to_coords st =
     (if \<not> routing_db_ok w then (None, st)
      else
        (case routing_cache st (hash_route from_coords to_coords) of
           None \<Rightarrow> (None, st)
         | Some row \<Rightarrow>
             (Some row,
              st\<lparr>routing_cache := (routing_cache st)
                    (hash_route from_coords to_coords \<mapsto> row\<lparr>re_last_used := clock st\<rparr>)\<rparr>)))"

definition store_route ::
  "world \<Rightarrow> coord \<Rightarrow> coord \<Rightarrow> real \<Rightarrow> real \<Rightarrow> string option \<Rightarrow> optimizer \<Rightarrow> optimizer" where
  "store_route w from_coords to_coords distance_km duration_minutes geometry st =
     (if \<not> routing_db_ok w then st
      else st\<lparr>routing_cache := (routing_cache st)
                 (hash_route from_coords to_coords \<mapsto>
                    \<lparr>re_distance_km = distance_km, re_duration_minutes = duration_minutes,
                     re_geometry = geometry, re_created_at = clock st,
                     re_last_used = clock st\<rparr>)\<rparr>)"

subsection \<open>A stop\<close>

text \<open>
  The dictionary of a stop as \<open>optimize_multiple_routes\<close> builds it, and the key
  \<open>_coordinates\<close> that \<open>create_distance_matrix\<close> adds (None while the key is absent).
\<close>

record stop =
  stop_postal_code :: unicode
  stop_city :: unicode
  stop_street :: unicode
  stop_customer :: unicode
  stop_original_index :: int
  stop_coordinates :: "coord option"

subsection \<open>get_coordinates_from_postal\<close>

definition postal_coordinates :: "unicode \<rightharpoonup> coord" where
  "postal_coordinates = map_of
     [(codepoints ''80'', (48.1351, 11.5820)), (codepoints ''81'', (48.1200, 11.5800)),
      (codepoints ''82'', (48.0500, 11.4500)), (codepoints ''85'', (48.2500, 11.7500)),
      (codepoints ''30'', (52.3759, 9.7320)), (codepoints ''48'', (51.9607, 7.6261)),
      (codepoints ''49'', (52.4069, 7.8687)), (codepoints ''86'', (48.3000, 10.9000)),
      (codepoints ''91'', (49.4521, 11.0767)), (codepoints ''60'', (50.1109, 8.6821)),
      (codepoints ''22'', (53.5511, 9.9937)), (codepoints ''01'', (51.0504, 13.7373))]"

definition default_coordinates :: coord where
  "default_coordinates = (48.1351, 11.5820)"

text \<open>The body of the \<open>try\<close> block: \<open>int(postal[2:5])\<close> may raise ValueError.\<close>

definition postal_lookup :: "world \<Rightarrow> unicode \<Rightarrow> error + coord" where
  "postal_lookup w postal_code =
     (let postal = py_strip postal_code in
      if 2 \<le> length postal then
        (case postal_coordinates (take 2 postal) of
           Some base_coords \<Rightarrow>
             if 5 \<le> length postal then
               (case py_int w (drop 2 (take 5 postal)) of
                  Inl e \<Rightarrow> Inl e
                | Inr digits \<Rightarrow>
                    (let variation = real_of_int digits / 10000
                     in Inr (fst base_coords + (variation - 0.05),
                             snd base_coords + (variation - 0.05))))
             else Inr base_coords
         | None \<Rightarrow> Inr default_coordinates)
      else Inr default_coordinates)"

text \<open>\<open>except Exception\<close> returns the default coordinates.\<close>

definition get_coordinates_from_postal :: "world \<Rightarrow> unicode \<Rightarrow> unicode \<Rightarrow> error + coord" where
  "get_coordinates_from_postal w postal_code city =
     (case postal_lookup w postal_code of
        Inr coords \<Rightarrow> Inr coords
      | Inl e \<Rightarrow> Inr default_coordinates)"

subsection \<open>geocode_address\<close>

definition full_address_of :: "world \<Rightarrow> unicode \<Rightarrow> unicode \<Rightarrow> unicode \<Rightarrow> unicode" where
  "full_address_of w street postal_code city =
     (let address_parts =
            (if street \<noteq> [] \<and> py_strip street \<noteq> [] \<and>
                py_lower w (py_strip street) \<noteq> codepoints ''nan''
             then [py_strip street] else []) @
            (if postal_code \<noteq> [] \<and> py_strip postal_code \<noteq> [] then [py_strip postal_code] else []) @
            (if city \<noteq> [] \<and> py_strip city \<noteq> [] \<and>
                py_lower w (py_strip city) \<noteq> codepoints ''nan''
             then [py_strip city] else [])
      in py_join (codepoints '', '') address_parts @ codepoints '', Germany'')"

text \<open>The address of the second attempt: \<open>f"{postal_code} {city}, Germany"\<close>.\<close>

definition fallback_address_of :: "unicode \<Rightarrow> unicode \<Rightarrow> unicode" where
  "fallback_address_of postal_code city =
     postal_code @ codepoints '' '' @ city @ codepoints '', Germany''"

text \<open>
  The body of the \<open>try\<close> block of \<open>geocode_address\<close>: it returns the coordinates
  found, None when both attempts found nothing, or the exception of the geocoder.
\<close>

definition geocode_attempts ::
  "world \<Rightarrow> unicode \<Rightarrow> unicode \<Rightarrow> unicode \<Rightarrow> optimizer \<Rightarrow> (error + coord option) \<times> optimizer" where
  "geocode_attempts w full_address postal_code city st =
     (case geocode w full_address of
        GeocoderError \<Rightarrow> (Inl ServiceError, st)
      | Located lat lng \<Rightarrow>
          (Inr (Some (lat, lng)),
           geocoding_store_coordinates w full_address lat lng
             (st\<lparr>session_cache := (session_cache st)(full_address \<mapsto> (lat, lng))\<rparr>))
      | NoMatch \<Rightarrow>
          if postal_code \<noteq> [] \<and> city \<noteq> [] then
            (let fallback_address = fallback_address_of postal_code city in
             case geocoding_get_coordinates w fallback_address st of
               (Some cached_fallback, st1) \<Rightarrow>
                 (Inr (Some cached_fallback),
                  st1\<lparr>session_cache := (session_cache st1)(full_address \<mapsto> cached_fallback)\<rparr>)
             | (None, st1) \<Rightarrow>
                 (case geocode w fallback_address of
                    GeocoderError \<Rightarrow> (Inl ServiceError, st1)
                  | Located lat lng \<Rightarrow>
                      (Inr (Some (lat, lng)),
                       geocoding_store_coordinates w fallback_address lat lng
                         (geocoding_store_coordinates w full_address lat lng
                            (st1\<lparr>session_cache := (session_cache st1)(full_address \<mapsto> (lat, lng))\<rparr>)))
                  | NoMatch \<Rightarrow> (Inr None, st1)))
          else (Inr None, st))"

definition geocode_address ::
  "world \<Rightarrow> unicode \<Rightarrow> unicode \<Rightarrow> unicode \<Rightarrow> optimizer \<Rightarrow> (error + coord) \<times> optimizer" where
  "geocode_address w street postal_code city st =
     (let full_address = full_address_of w street postal_code city in
      case session_cache st full_address of
        Some coords \<Rightarrow> (Inr coords, st)
      | None \<Rightarrow>
          (case geocoding_get_coordinates w full_address st of
             (Some cached_coords, st1) \<Rightarrow>
               (Inr cached_coords,
                st1\<lparr>session_cache := (session_cache st1)(full_address \<mapsto> cached_coords)\<rparr>)
           | (None, st1) \<Rightarrow>
               (case geocode_attempts w full_address postal_code city st1 of
                  (Inr (Some coords), st2) \<Rightarrow> (Inr coords, st2)
                | (Inr None, st2) \<Rightarrow> (get_coordinates_from_postal w postal_code city, st2)
                | (Inl e, st2) \<Rightarrow> (get_coordinates_from_postal w postal_code city, st2))))"

definition get_coordinates :: "world \<Rightarrow> stop \<Rightarrow> optimizer \<Rightarrow> (error + coord) \<times> optimizer" where
  "get_coordinates w stop_data st =
     geocode_address w (stop_street stop_data) (stop_postal_code stop_data) (stop_city stop_data) st"

subsection \<open>calculate_road_distance and calculate_distance\<close>

text \<open>
  The three steps of the rate limiter. The counter of the current minute is reset when
  the minute of the clock is not \<open>minute_start\<close>. Before a call, \<open>time.sleep\<close> moves
  the clock until 1.6 seconds have passed since \<open>last_api_call\<close> (the clock has not
  moved since \<open>current_time\<close> was read). Then the call is counted, and recorded in
  \<open>api_log\<close> at the time \<open>last_api_call\<close> is set.
\<close>

definition reset_minute_counter :: "optimizer \<Rightarrow> optimizer" where
  "reset_minute_counter st =
     (let current_time = clock st; current_minute = \<lfloor>current_time / 60\<rfloor>
      in if current_minute \<noteq> minute_start st
         then st\<lparr>minute_start := current_minute, api_calls_this_minute := 0\<rparr>
         else st)"

definition sleep_for_spacing :: "optimizer \<Rightarrow> optimizer" where
  "sleep_for_spacing st =
     (let current_time = clock st; time_since_last_call = current_time - last_api_call st
      in if time_since_last_call < 1.6
         then st\<lparr>clock := clock st + (1.6 - time_since_last_call)\<rparr>
         else st)"

definition count_api_call :: "optimizer \<Rightarrow> optimizer" where
  "count_api_call st =
     st\<lparr>last_api_call := clock st, api_calls_this_minute := api_calls_this_minute st + 1,
        api_log := api_log st @ [clock st]\<rparr>"

text \<open>
  \<open>calculate_road_distance\<close>: the cache, the rate limiter, the call. An exception of
  the provider, or of reading its answer, is caught and gives None.
\<close>

definition calculate_road_distance ::
  "world \<Rightarrow> coord \<Rightarrow> coord \<Rightarrow> optimizer \<Rightarrow> real option \<times> optimizer" where
  "calculate_road_distance w from_coords to_coords st =
     (case get_route w from_coords to_coords st of
        (Some cached_route, st1) \<Rightarrow> (Some (re_distance_km cached_route), st1)
      | (None, st1) \<Rightarrow>
          if \<not> ors_client st1 then (None, st1)
          else
            (let st2 = reset_minute_counter st1
             in if 35 \<le> api_calls_this_minute st2 then (None, st2)
                else
                  (let st3 = count_api_call (sleep_for_spacing st2)
                   in case directions w (clock st3) from_coords to_coords of
                        Directions metres seconds geometry \<Rightarrow>
                          (let distance_km = metres / 1000; duration_minutes = seconds / 60
                           in (Some distance_km,
                               store_route w from_coords to_coords distance_km duration_minutes
                                 geometry st3))
                      | NoFeatures \<Rightarrow> (None, st3)
                      | DirectionsError \<Rightarrow> (None, st3))))"

definition calculate_distance ::
  "world \<Rightarrow> real \<Rightarrow> real \<Rightarrow> real \<Rightarrow> real \<Rightarrow> optimizer \<Rightarrow> (error + real) \<times> optimizer" where
  "calculate_distance w lat1 lon1 lat2 lon2 st =
     (if ors_client st then
        (case calculate_road_distance w (lat1, lon1) (lat2, lon2) st of
           (Some road_distance, st1) \<Rightarrow> (Inr road_distance, st1)
         | (None, st1) \<Rightarrow> (calculate_air_distance w lat1 lon1 lat2 lon2, st1))
      else (calculate_air_distance w lat1 lon1 lat2 lon2, st))"

text \<open>
  A run of the rate limiter: calls of \<open>calculate_road_distance\<close>, each after a delay
  during which the clock moves on.
\<close>

fun road_distance_calls ::
  "world \<Rightarrow> (real \<times> coord \<times> coord) list \<Rightarrow> optimizer \<Rightarrow> optimizer" where
  "road_distance_calls w [] st = st"
| "road_distance_calls w ((delay, from_coords, to_coords) # calls) st =
     road_distance_calls w calls
       (snd (calculate_road_distance w from_coords to_coords (st\<lparr>clock := clock st + delay\<rparr>)))"

text \<open>The calls of the provider within the window of 60 seconds that starts at \<open>t\<close>.\<close>

definition calls_in_window :: "real \<Rightarrow> optimizer \<Rightarrow> nat" where
  "calls_in_window t st = length (filter (\<lambda>x. t \<le> x \<and> x < t + 60) (api_log st))"

subsection \<open>create_distance_matrix\<close>

text \<open>
  The first loop of \<open>create_distance_matrix\<close>: the look-up that tells whether the
  address was cached (it counts as a use of the row), then \<open>get_coordinates\<close>, whose
  result is stored in the stop under \<open>_coordinates\<close>. The counters that are only logged
  are left out.
\<close>

fun geocode_stops :: "world \<Rightarrow> stop list \<Rightarrow> optimizer \<Rightarrow> (error + stop list) \<times> optimizer" where
  "geocode_stops w [] st = (Inr [], st)"
| "geocode_stops w (stop_data # stops) st =
     (let address_parts = [stop_street stop_data, stop_postal_code stop_data, stop_city stop_data];
          full_address =
            py_join (codepoints '', '')
              (filter (\<lambda>part. part \<noteq> [] \<and> py_strip part \<noteq> []) address_parts)
              @ codepoints '', Germany''
      in case geocoding_get_coordinates w full_address st of
           (was_cached, st1) \<Rightarrow>
             (case get_coordinates w stop_data st1 of
                (Inl e, st2) \<Rightarrow> (Inl e, st2)
              | (Inr coords, st2) \<Rightarrow>
                  (case geocode_stops w stops st2 of
                     (Inl e, st3) \<Rightarrow> (Inl e, st3)
                   | (Inr rest, st3) \<Rightarrow>
                       (Inr (stop_data\<lparr>stop_coordinates := Some coords\<rparr> # rest), st3))))"

text \<open>
  The loops over \<open>i\<close> and \<open>j\<close>. With a routing client the cache is read once for the
  statistics before \<open>calculate_distance\<close> is called. A stop without \<open>_coordinates\<close>
  raises KeyError; an exception of \<open>calculate_distance\<close> propagates.
\<close>

fun distance_row ::
  "world \<Rightarrow> stop list \<Rightarrow> nat \<Rightarrow> nat list \<Rightarrow> real list list \<Rightarrow> optimizer
     \<Rightarrow> (error + real list list) \<times> optimizer" where
  "distance_row w stops i [] matrix st = (Inr matrix, st)"
| "distance_row w stops i (j # js) matrix st =
     (if i \<noteq> j then
        (case stop_coordinates (stops ! i) of
           None \<Rightarrow> (Inl KeyError, st)
         | Some coords_i \<Rightarrow>
             (case stop_coordinates (stops ! j) of
                None \<Rightarrow> (Inl KeyError, st)
              | Some coords_j \<Rightarrow>
                  (let st1 = (if ors_client st then snd (get_route w coords_i coords_j st) else st)
                   in case calculate_distance w (fst coords_i) (snd coords_i)
                             (fst coords_j) (snd coords_j) st1 of
                        (Inl e, st2) \<Rightarrow> (Inl e, st2)
                      | (Inr distance, st2) \<Rightarrow>
                          distance_row w stops i js
                            (matrix[i := (matrix ! i)[j := distance]]) st2)))
      else distance_row w stops i js matrix st)"

fun distance_rows ::
  "world \<Rightarrow> stop list \<Rightarrow> nat list \<Rightarrow> nat \<Rightarrow> real list list \<Rightarrow> optimizer
     \<Rightarrow> (error + real list list) \<times> optimizer" where
  "distance_rows w stops [] n matrix st = (Inr matrix, st)"
| "distance_rows w stops (i # is) n matrix st =
     (case distance_row w stops i [0..<n] matrix st of
        (Inl e, st1) \<Rightarrow> (Inl e, st1)
      | (Inr matrix1, st1) \<Rightarrow> distance_rows w stops is n matrix1 st1)"

text \<open>
  \<open>create_distance_matrix\<close> returns the matrix; the model returns with it the stops as
  the function leaves them, with their coordinates.
\<close>

definition create_distance_matrix ::
  "world \<Rightarrow> stop list \<Rightarrow> optimizer \<Rightarrow> (error + real list list \<times> stop list) \<times> optimizer" where
  "create_distance_matrix w stops st =
     (let n = length stops; matrix = replicate n (replicate n 0)
      in case geocode_stops w stops st of
           (Inl e, st1) \<Rightarrow> (Inl e, st1)
         | (Inr located_stops, st1) \<Rightarrow>
             (case distance_rows w located_stops [0..<n] n matrix st1 of
                (Inl e, st2) \<Rightarrow> (Inl e, st2)
              | (Inr distance_matrix, st2) \<Rightarrow> (Inr (distance_matrix, located_stops), st2)))"

subsection \<open>get_route_segments\<close>

datatype geometry = RoadGeometry string | LineString coord coord

record segment =
  seg_from_customer :: unicode
  seg_from_coordinates :: coord
  seg_from_stop_number :: nat
  seg_to_customer :: unicode
  seg_to_coordinates :: coord
  seg_to_stop_number :: nat
  seg_distance_km :: real
  seg_geometry :: "geometry option"
  seg_type :: string

text \<open>
  One segment for every pair of consecutive positions of the route. A cached row with a
  geometry that \<open>json.loads\<close> reads gives a road segment; an exception of \<open>json.loads\<close>
  is caught. A segment still without geometry gets the air distance, whose exception
  propagates.
\<close>

fun route_segments_loop ::
  "world \<Rightarrow> stop list \<Rightarrow> int list \<Rightarrow> nat list \<Rightarrow> optimizer
     \<Rightarrow> (error + segment list) \<times> optimizer" where
  "route_segments_loop w stops route_order [] st = (Inr [], st)"
| "route_segments_loop w stops route_order (i # is) st =
     (case py_index stops (route_order ! i) of
        Inl e \<Rightarrow> (Inl e, st)
      | Inr from_stop \<Rightarrow>
     (case py_index stops (route_order ! (i + 1)) of
        Inl e \<Rightarrow> (Inl e, st)
      | Inr to_stop \<Rightarrow>
     (case stop_coordinates from_stop of
        None \<Rightarrow> (Inl KeyError, st)
      | Some from_coords \<Rightarrow>
     (case stop_coordinates to_stop of
        None \<Rightarrow> (Inl KeyError, st)
      | Some to_coords \<Rightarrow>
     (case get_route w from_coords to_coords st of
        (cached_route, st1) \<Rightarrow>
          (let segment0 =
                 \<lparr>seg_from_customer = stop_customer from_stop, seg_from_coordinates = from_coords,
                  seg_from_stop_number = i + 1,
                  seg_to_customer = stop_customer to_stop, seg_to_coordinates = to_coords,
                  seg_to_stop_number = i + 2,
                  seg_distance_km = 0, seg_geometry = None, seg_type = ''air''\<rparr>;
               segment1 =
                 (case cached_route of
                    None \<Rightarrow> segment0
                  | Some row \<Rightarrow>
                      (case re_geometry row of
                         None \<Rightarrow> segment0
                       | Some text \<Rightarrow>
                           if text = [] then segment0
                           else
                             (case json_loads w text of
                                JsonError \<Rightarrow> segment0
                              | JsonNull \<Rightarrow>
                                  segment0\<lparr>seg_distance_km := re_distance_km row,
                                           seg_type := ''road''\<rparr>
                              | JsonValue \<Rightarrow>
                                  segment0\<lparr>seg_geometry := Some (RoadGeometry text),
                                           seg_distance_km := re_distance_km row,
                                           seg_type := ''road''\<rparr>)))
           in case (if seg_geometry segment1 = None
                    then (case calculate_air_distance w (fst from_coords) (snd from_coords)
                                 (fst to_coords) (snd to_coords) of
                            Inl e \<Rightarrow> Inl e
                          | Inr air \<Rightarrow>
                              Inr (segment1\<lparr>seg_distance_km := air,
                                     seg_geometry := Some (LineString from_coords to_coords)\<rparr>))
                    else Inr segment1) of
                Inl e \<Rightarrow> (Inl e, st1)
              | Inr segment2 \<Rightarrow>
                  (case route_segments_loop w stops route_order is st1 of
                     (Inl e, st2) \<Rightarrow> (Inl e, st2)
                   | (Inr segments, st2) \<Rightarrow> (Inr (segment2 # segments), st2))))))))"

definition get_route_segments ::
  "world \<Rightarrow> stop list \<Rightarrow> int list \<Rightarrow> optimizer \<Rightarrow> (error + segment list) \<times> optimizer" where
  "get_route_segments w stops route_order st =
     (if length route_order \<le> 1 then (Inr [], st)
      else route_segments_loop w stops route_order [0..<length route_order - 1] st)"

subsection \<open>optimize_route\<close>

record route_result =
  r_route_id :: "string option"
  r_stops :: "stop list option"
  r_original_order :: "int list"
  r_optimized_order :: "int list"
  r_original_distance :: real
  r_optimized_distance :: real
  r_distance_saved :: real
  r_improvement_pct :: real
  r_algorithm_used :: string
  r_processing_time :: real
  r_stops_count :: nat
  r_original_segments :: "segment list option"
  r_optimized_segments :: "segment list option"

text \<open>
  The chain \<open>if algorithm == ...\<close>: the order found and the label of the algorithm.
  \<open>two_opt\<close> runs with its default of 1000 iterations. An unknown name raises
  ValueError.
\<close>

definition apply_algorithm ::
  "string \<Rightarrow> int list \<Rightarrow> real list list \<Rightarrow> error + (int list \<times> string)" where
  "apply_algorithm algorithm original_order distance_matrix =
     (if algorithm = ''nearest_neighbor'' then
        (case nearest_neighbor distance_matrix 0 of
           Inl e \<Rightarrow> Inl e
         | Inr optimized_order \<Rightarrow> Inr (optimized_order, ''Nearest Neighbor''))
      else if algorithm = ''2_opt'' then
        (case two_opt original_order distance_matrix 1000 of
           Inl e \<Rightarrow> Inl e
         | Inr (optimized_order, improved) \<Rightarrow> Inr (optimized_order, ''2-Opt''))
      else if algorithm = ''both'' then
        (case nearest_neighbor distance_matrix 0 of
           Inl e \<Rightarrow> Inl e
         | Inr nn_order \<Rightarrow>
             (case two_opt nn_order distance_matrix 1000 of
                Inl e \<Rightarrow> Inl e
              | Inr (optimized_order, improved) \<Rightarrow>
                  Inr (optimized_order, ''Nearest Neighbor + 2-Opt'')))
      else Inl ValueError)"

text \<open>
  \<open>optimize_route\<close> returns its result, and leaves to its caller the stops with the
  coordinates that \<open>create_distance_matrix\<close> has put into them: \<open>optimize_route_stops\<close>
  is the body of the function and returns both.
\<close>

definition optimize_route_stops ::
  "world \<Rightarrow> stop list \<Rightarrow> string \<Rightarrow> optimizer
     \<Rightarrow> (error + route_result \<times> stop list) \<times> optimizer" where
  "optimize_route_stops w stops algorithm st =
     (let start_time = clock st in
      if length stops \<le> 1 then
        (Inr (\<lparr>r_route_id = None, r_stops = None,
              r_original_order = (if stops \<noteq> [] then [0] else []),
              r_optimized_order = (if stops \<noteq> [] then [0] else []),
              r_original_distance = 0, r_optimized_distance = 0, r_distance_saved = 0,
              r_improvement_pct = 0, r_algorithm_used = algorithm,
              r_processing_time = clock st - start_time, r_stops_count = length stops,
              r_original_segments = None, r_optimized_segments = None\<rparr>, stops), st)
      else
        (case create_distance_matrix w stops st of
           (Inl e, st1) \<Rightarrow> (Inl e, st1)
         | (Inr (distance_matrix, located_stops), st1) \<Rightarrow>
        (let original_order = py_range (length stops) in
         case calculate_route_distance original_order distance_matrix of
           Inl e \<Rightarrow> (Inl e, st1)
         | Inr original_distance \<Rightarrow>
        (case apply_algorithm algorithm original_order distance_matrix of
           Inl e \<Rightarrow> (Inl e, st1)
         | Inr (optimized_order, algorithm_used) \<Rightarrow>
        (case calculate_route_distance optimized_order distance_matrix of
           Inl e \<Rightarrow> (Inl e, st1)
         | Inr optimized_distance \<Rightarrow>
        (let distance_saved = original_distance - optimized_distance;
             improvement_pct =
               (if 0 < original_distance then distance_saved / original_distance * 100 else 0);
             processing_time = clock st1 - start_time
         in case get_route_segments w located_stops original_order st1 of
              (Inl e, st2) \<Rightarrow> (Inl e, st2)
            | (Inr original_segments, st2) \<Rightarrow>
           (case get_route_segments w located_stops optimized_order st2 of
              (Inl e, st3) \<Rightarrow> (Inl e, st3)
            | (Inr optimized_segments, st3) \<Rightarrow>
                (Inr (\<lparr>r_route_id = None, r_stops = None,
                      r_original_order = original_order,
                      r_optimized_order = optimized_order,
                      r_original_distance = py_round original_distance 2,
                      r_optimized_distance = py_round optimized_distance 2,
                      r_distance_saved = py_round distance_saved 2,
                      r_improvement_pct = py_round improvement_pct 1,
                      r_algorithm_used = algorithm_used,
                      r_processing_time = py_round processing_time 3,
                      r_stops_count = length stops,
                      r_original_segments = Some original_segments,
                      r_optimized_segments = Some optimized_segments\<rparr>, located_stops), st3))))))))"

definition optimize_route ::
  "world \<Rightarrow> stop list \<Rightarrow> string \<Rightarrow> optimizer \<Rightarrow> (error + route_result) \<times> optimizer" where
  "optimize_route w stops algorithm st =
     (case optimize_route_stops w stops algorithm st of
        (Inl e, st1) \<Rightarrow> (Inl e, st1)
      | (Inr (route_result, located_stops), st1) \<Rightarrow> (Inr route_result, st1))"

subsection \<open>optimize_multiple_routes\<close>

record summary =
  s_total_routes :: nat
  s_optimized_routes :: nat
  s_total_stops :: nat
  s_total_distance_saved :: real
  s_average_improvement_pct :: real
  s_processing_time :: real
  s_algorithm_used :: string

text \<open>
  The loop over the groups that \<open>groupby\<close> yields, each with the stops built from its
  rows (every route identifier once). The call of \<open>optimize_route\<close> stands in no
  \<open>try\<close> block: its exception leaves the loop and the function. The stops kept with
  a result are the stops of the call as \<open>optimize_route\<close> leaves them.
\<close>

fun optimize_groups ::
  "world \<Rightarrow> (string \<times> stop list) list \<Rightarrow> string \<Rightarrow> (string \<times> route_result) list \<Rightarrow> real \<Rightarrow> nat
     \<Rightarrow> optimizer \<Rightarrow> (error + (string \<times> route_result) list \<times> real \<times> nat) \<times> optimizer" where
  "optimize_groups w [] algorithm results total_distance_saved total_stops st =
     (Inr (results, total_distance_saved, total_stops), st)"
| "optimize_groups w ((route_id, stops) # routes) algorithm results total_distance_saved
       total_stops st =
     (if 1 < length stops then
        (case optimize_route_stops w stops algorithm st of
           (Inl e, st1) \<Rightarrow> (Inl e, st1)
         | (Inr (route_result, located_stops), st1) \<Rightarrow>
             optimize_groups w routes algorithm
               (results @ [(route_id,
                  route_result\<lparr>r_route_id := Some route_id, r_stops := Some located_stops\<rparr>)])
               (total_distance_saved + r_distance_saved route_result)
               (total_stops + r_stops_count route_result) st1)
      else
        optimize_groups w routes algorithm
          (results @ [(route_id,
             \<lparr>r_route_id = Some route_id, r_stops = Some stops,
              r_original_order = [0], r_optimized_order = [0],
              r_original_distance = 0, r_optimized_distance = 0, r_distance_saved = 0,
              r_improvement_pct = 0, r_algorithm_used = ''No optimization needed'',
              r_processing_time = 0, r_stops_count = 1,
              r_original_segments = None, r_optimized_segments = None\<rparr>)])
          total_distance_saved total_stops st)"

definition optimize_multiple_routes ::
  "world \<Rightarrow> (string \<times> stop list) list \<Rightarrow> string \<Rightarrow> optimizer
     \<Rightarrow> (error + summary \<times> (string \<times> route_result) list) \<times> optimizer" where
  "optimize_multiple_routes w routes algorithm st =
     (let start_time = clock st in
      case optimize_groups w routes algorithm [] 0 0 st of
        (Inl e, st1) \<Rightarrow> (Inl e, st1)
      | (Inr (results, total_distance_saved, total_stops), st1) \<Rightarrow>
          (let processing_time = clock st1 - start_time;
               optimized_routes = filter (\<lambda>r. 1 < r_stops_count r) (map snd results);
               avg_improvement =
                 (if optimized_routes \<noteq> []
                  then sum_list (map r_improvement_pct optimized_routes)
                         / real (length optimized_routes)
                  else 0)
           in (Inr (\<lparr>s_total_routes = length results,
                     s_optimized_routes = length optimized_routes,
                     s_total_stops = total_stops,
                     s_total_distance_saved = py_round total_distance_saved 2,
                     s_average_improvement_pct = py_round avg_improvement 1,
                     s_processing_time = py_round processing_time 2,
                     s_algorithm_used = algorithm\<rparr>, results), st1)))"

section \<open>Concrete surroundings\<close>

text \<open>
  A world in which the geocoder finds nothing and the routing provider finds no route,
  and one in which the provider answers every request with a route of 2500 metres and
  300 seconds. In these and in the worlds below the floats of the haversine term are
  exact unless said otherwise, and lower case is needed for the letters of ASCII only.
  A fresh optimizer with a routing client, empty databases and the clock at
  1700000010 seconds.
\<close>

definition world_without_routes :: world where
  "world_without_routes =
     \<lparr>geocode = (\<lambda>address. NoMatch), directions = (\<lambda>t from_coords to_coords. NoFeatures),
      json_loads = (\<lambda>text. JsonError), geocoding_db_ok = True, routing_db_ok = True,
      unicode_lower = map ascii_lower, unicode_decimal = (\<lambda>c. None),
      haversine_rounding = (\<lambda>lat1 lon1 lat2 lon2. 0)\<rparr>"

definition world_with_routes :: world where
  "world_with_routes =
     \<lparr>geocode = (\<lambda>address. NoMatch),
      directions = (\<lambda>t from_coords to_coords. Directions 2500 300 None),
      json_loads = (\<lambda>text. JsonError), geocoding_db_ok = True, routing_db_ok = True,
      unicode_lower = map ascii_lower, unicode_decimal = (\<lambda>c. None),
      haversine_rounding = (\<lambda>lat1 lon1 lat2 lon2. 0)\<rparr>"

definition fresh_optimizer :: optimizer where
  "fresh_optimizer = new_optimizer True Map.empty Map.empty 1700000010"

text \<open>
  Thirty-eight requests for the same pair of stops, one right after the other, in the
  world where the provider finds no route (so nothing is ever cached).
\<close>

definition burst_of_calls :: "(real \<times> coord \<times> coord) list" where
  "burst_of_calls = replicate 38 (0, (48.1351, 11.582), (48.12, 11.58))"

text \<open>
  Four stops on a line: the geocoder puts the streets A, B, C and D at the latitudes
  0, 2, -1 and -3 (longitude 0), and the routing provider answers every request with
  a route as long as the difference of the latitudes, in kilometres, with a geometry
  that \<open>json.loads\<close> reads.
\<close>

definition line_world :: world where
  "line_world =
     \<lparr>geocode = (\<lambda>address.
         if address = codepoints ''A, Germany'' then Located 0 0
         else if address = codepoints ''B, Germany'' then Located 2 0
         else if address = codepoints ''C, Germany'' then Located (- 1) 0
         else if address = codepoints ''D, Germany'' then Located (- 3) 0
         else NoMatch),
      directions = (\<lambda>t from_coords to_coords.
         Directions (1000 * \<bar>fst from_coords - fst to_coords\<bar>) 60 (Some ''{}'')),
      json_loads = (\<lambda>text. JsonValue), geocoding_db_ok = True, routing_db_ok = True,
      unicode_lower = map ascii_lower, unicode_decimal = (\<lambda>c. None),
      haversine_rounding = (\<lambda>lat1 lon1 lat2 lon2. 0)\<rparr>"

definition stop_in :: "string \<Rightarrow> stop" where
  "stop_in street =
     \<lparr>stop_postal_code = [], stop_city = [], stop_street = codepoints street,
      stop_customer = codepoints street, stop_original_index = 0, stop_coordinates = None\<rparr>"

definition line_stops :: "stop list" where
  "line_stops = [stop_in ''A'', stop_in ''B'', stop_in ''C'', stop_in ''D'']"

text \<open>
  Two stops, and a routing provider that reports a route of minus 1000 metres for every
  request.
\<close>

definition world_with_negative_route :: world where
  "world_with_negative_route =
     \<lparr>geocode = (\<lambda>address.
         if address = codepoints ''A, Germany'' then Located 0 0
         else if address = codepoints ''B, Germany'' then Located 2 0
         else NoMatch),
      directions = (\<lambda>t from_coords to_coords. Directions (- 1000) 60 None),
      json_loads = (\<lambda>text. JsonError), geocoding_db_ok = True, routing_db_ok = True,
      unicode_lower = map ascii_lower, unicode_decimal = (\<lambda>c. None),
      haversine_rounding = (\<lambda>lat1 lon1 lat2 lon2. 0)\<rparr>"

text \<open>
  The world of the line with two more addresses, P at latitude 8 and longitude 0, and
  Q at latitude -8 and longitude 180, on the opposite side of the globe. The routing
  provider finds a route between two points of the same longitude and raises an error
  for any other pair. For the pair from P to Q the term \<open>a\<close> of the haversine formula
  is 1, and the float computed for it is 1.0000000000000002, the next float above 1:
  the rounding is \<open>2 ^ -52\<close>.
\<close>

definition far_world :: world where
  "far_world =
     \<lparr>geocode = (\<lambda>address.
         if address = codepoints ''A, Germany'' then Located 0 0
         else if address = codepoints ''B, Germany'' then Located 2 0
         else if address = codepoints ''C, Germany'' then Located (- 1) 0
         else if address = codepoints ''D, Germany'' then Located (- 3) 0
         else if address = codepoints ''P, Germany'' then Located 8 0
         else if address = codepoints ''Q, Germany'' then Located (- 8) 180
         else NoMatch),
      directions = (\<lambda>t from_coords to_coords.
         if snd from_coords = snd to_coords
         then Directions (1000 * \<bar>fst from_coords - fst to_coords\<bar>) 60 (Some ''{}'')
         else DirectionsError),
      json_loads = (\<lambda>text. JsonValue), geocoding_db_ok = True, routing_db_ok = True,
      unicode_lower = map ascii_lower, unicode_decimal = (\<lambda>c. None),
      haversine_rounding = (\<lambda>lat1 lon1 lat2 lon2.
         if lat1 = 8 \<and> lon1 = 0 \<and> lat2 = - 8 \<and> lon2 = 180 then 1 / 2 ^ 52 else 0)\<rparr>"

definition far_stops :: "stop list" where
  "far_stops = [stop_in ''P'', stop_in ''Q'']"

text \<open>
  A world in which the geocoder raises an error on every request and the routing
  provider as well; the digits of the Arabic script, U+0660 to U+0669, are the only
  decimal digits beyond ASCII that it knows.
\<close>

definition offline_world :: world where
  "offline_world =
     \<lparr>geocode = (\<lambda>address. GeocoderError),
      directions = (\<lambda>t from_coords to_coords. DirectionsError),
      json_loads = (\<lambda>text. JsonError), geocoding_db_ok = True, routing_db_ok = True,
      unicode_lower = map ascii_lower,
      unicode_decimal = (\<lambda>c. if 1632 \<le> c \<and> c \<le> 1641 then Some (c - 1632) else None),
      haversine_rounding = (\<lambda>lat1 lon1 lat2 lon2. 0)\<rparr>"

section \<open>Predicates of the statements\<close>


text \<open>The matrix has \<open>n\<close> rows of length \<open>n\<close>.\<close>

definition square_matrix :: "nat \<Rightarrow> 'd list list \<Rightarrow> bool" where
  "square_matrix n distance_matrix \<longleftrightarrow>
     length distance_matrix = n \<and> (\<forall>row\<in>set distance_matrix. length row = n)"

text \<open>The dictionary \<open>distances\<close> has a value for every ordered pair \<open>i \<noteq> j\<close> below \<open>n\<close>.\<close>

definition full_dict :: "nat \<Rightarrow> ((nat \<times> nat) \<rightharpoonup> 'd) \<Rightarrow> bool" where
  "full_dict n distances \<longleftrightarrow> (\<forall>i<n. \<forall>j<n. i \<noteq> j \<longrightarrow> distances (i, j) \<noteq> None)"

text \<open>
  The step from position \<open>k\<close> to position \<open>k + 1\<close> of a route is greedy: among the
  indices not yet visited, the next stop has the least distance from the current one,
  and among those at that distance it is the lowest index.
\<close>

definition greedy_step :: "('d::linorder) list list \<Rightarrow> int set \<Rightarrow> int list \<Rightarrow> nat \<Rightarrow> bool" where
  "greedy_step distance_matrix indices route k \<longleftrightarrow>
     (\<forall>x \<in> indices - set (take (k + 1) route).
        distance_matrix ! nat (route ! k) ! nat (route ! (k + 1))
          \<le> distance_matrix ! nat (route ! k) ! nat x \<and>
        (distance_matrix ! nat (route ! k) ! nat x
           = distance_matrix ! nat (route ! k) ! nat (route ! (k + 1))
           \<longrightarrow> route ! (k + 1) \<le> x))"

section \<open>Concrete inputs\<close>

text \<open>
  Four stops on a line, at the positions 0, 2, -1 and -3: the matrix of their pairwise
  distances.
\<close>

definition line_matrix :: "int list list" where
  "line_matrix = [[0, 2, 1, 3], [2, 0, 3, 5], [1, 3, 0, 2], [3, 5, 2, 0]]"

definition stop_at :: "nat \<Rightarrow> real \<Rightarrow> stop_with_coords" where
  "stop_at k x = \<lparr>sc_stop_number = k, sc_customer = ''c'', sc_street = ''s'',
     sc_postal_code = ''80331'', sc_city = ''m'', sc_lat = x, sc_lng = 0\<rparr>"

text \<open>A distance function for stops that differ in latitude only.\<close>

definition line_distance :: "real \<Rightarrow> real \<Rightarrow> real \<Rightarrow> real \<Rightarrow> error + real" where
  "line_distance lat1 lng1 lat2 lng2 = Inr (abs (lat2 - lat1))"

text \<open>Consecutive times of a list are at least 1.6 seconds apart.\<close>

fun spaced :: "real list \<Rightarrow> bool" where
  "spaced (x # y # ys) \<longleftrightarrow> x + 1.6 \<le> y \<and> spaced (y # ys)"
| "spaced [x] \<longleftrightarrow> True"
| "spaced [] \<longleftrightarrow> True"

text \<open>
  What the rate limiter keeps true: the calls recorded are spaced, none is later than
  \<open>last_api_call\<close>, which is not later than the clock, and the counter of the minute
  lies between 0 and 35.
\<close>

definition limiter_invariant :: "optimizer \<Rightarrow> bool" where
  "limiter_invariant st \<longleftrightarrow>
     spaced (api_log st) \<and> (\<forall>x\<in>set (api_log st). x \<le> last_api_call st) \<and>
     last_api_call st \<le> clock st \<and> 0 \<le> api_calls_this_minute st \<and> api_calls_this_minute st \<le> 35"


text \<open>
  The routing provider reports no negative distance, and the routing cache holds no
  negative distance.
\<close>

definition nonneg_routes :: "world \<Rightarrow> bool" where
  "nonneg_routes w \<longleftrightarrow>
     (\<forall>t a b metres seconds geometry. directions w t a b = Directions metres seconds geometry \<longrightarrow> 0 \<le> metres)"

definition nonneg_cache :: "optimizer \<Rightarrow> bool" where
  "nonneg_cache st \<longleftrightarrow> (\<forall>k row. routing_cache st k = Some row \<longrightarrow> 0 \<le> re_distance_km row)"

text \<open>
  What the persistent geocoding cache holds for an address: the coordinates of the row
  under the hash of the address, when the address has a hash and the database can be
  read.
\<close>

definition cached_coordinates :: "world \<Rightarrow> optimizer \<Rightarrow> unicode \<Rightarrow> coord option" where
  "cached_coordinates w st address =
     (if geocoding_db_ok w then
        (case hash_address w address of
           None \<Rightarrow> None
         | Some address_hash \<Rightarrow>
             map_option (\<lambda>row. (ge_latitude row, ge_longitude row))
               (geocoding_cache st address_hash))
      else None)"

text \<open>
  Every attempt that \<open>geocode_address\<close> makes outside the program fails: the geocoder
  raises an error on the full address; or it finds nothing for the full address, and
  then either there is no second attempt (the postal code or the city is empty), or the
  address of the second attempt is not cached and the geocoder finds nothing for it or
  raises an error.
\<close>

definition is_located :: "geocode_reply \<Rightarrow> bool" where
  "is_located reply \<longleftrightarrow> (case reply of Located lat lng \<Rightarrow> True | NoMatch \<Rightarrow> False | GeocoderError \<Rightarrow> False)"

definition attempts_fail :: "world \<Rightarrow> optimizer \<Rightarrow> unicode \<Rightarrow> unicode \<Rightarrow> unicode \<Rightarrow> bool" where
  "attempts_fail w st street postal_code city \<longleftrightarrow>
     geocode w (full_address_of w street postal_code city) = GeocoderError \<or>
     geocode w (full_address_of w street postal_code city) = NoMatch \<and>
       (postal_code = [] \<or> city = [] \<or>
        cached_coordinates w st (fallback_address_of postal_code city) = None \<and>
        \<not> is_located (geocode w (fallback_address_of postal_code city)))"

text \<open>
  The great-circle distance in the words of the specification: the haversine formula
  with an Earth radius of 6371 km. \<open>haversine_term\<close> is the haversine of the central
  angle between two points given in degrees, and \<open>great_circle_km\<close> the distance that
  belongs to a haversine \<open>h\<close>.
\<close>

definition haversine_term :: "real \<Rightarrow> real \<Rightarrow> real \<Rightarrow> real \<Rightarrow> real" where
  "haversine_term lat1 lon1 lat2 lon2 =
     (sin ((lat2 - lat1) * pi / 360))\<^sup>2
       + cos (lat1 * pi / 180) * cos (lat2 * pi / 180) * (sin ((lon2 - lon1) * pi / 360))\<^sup>2"

definition great_circle_km :: "real \<Rightarrow> real" where
  "great_circle_km h = 6371 * (2 * arcsin (sqrt h))"

text \<open>
  The routing provider is not asked, or does not answer with a route, when
  \<open>calculate_distance\<close> is called for a pair in the state \<open>st\<close>: there is no routing
  client, or the limit of the minute is reached, or the answer at the time of the call
  (after the sleep of the rate limiter) is an error or has no features.
\<close>

definition time_of_call :: "optimizer \<Rightarrow> real" where
  "time_of_call st = clock (count_api_call (sleep_for_spacing (reset_minute_counter st)))"

definition routing_fails :: "world \<Rightarrow> optimizer \<Rightarrow> coord \<Rightarrow> coord \<Rightarrow> bool" where
  "routing_fails w st from_coords to_coords \<longleftrightarrow>
     \<not> ors_client st \<or> 35 \<le> api_calls_this_minute (reset_minute_counter st) \<or>
     directions w (time_of_call st) from_coords to_coords = NoFeatures \<or>
     directions w (time_of_call st) from_coords to_coords = DirectionsError"

section \<open>Lemmas about the search\<close>

lemma mset_reverse_segment: "i \<le> j \<Longrightarrow> mset (reverse_segment route i j) = mset route"
proof -
  assume ij: "i \<le> j"
  have "take i (take j route) @ drop i (take j route) = take j route"
    by (rule append_take_drop_id)
  with ij have "take i route @ drop i (take j route) = take j route"
    by (simp add: min_def)
  then have "mset (take i route) + mset (drop i (take j route)) = mset (take j route)"
    by (metis mset_append)
  moreover have "mset (take j route) + mset (drop j route) = mset route"
    by (metis mset_append append_take_drop_id)
  ultimately show ?thesis
    unfolding reverse_segment_def by (simp add: ac_simps)
qed

lemma length_reverse_segment: "i \<le> j \<Longrightarrow> length (reverse_segment route i j) = length route"
  by (metis mset_reverse_segment size_mset)

lemma two_opt_scan_j_accepts:
  "two_opt_scan_j i js route dm best = Inr (Some (r, d)) \<Longrightarrow> \<forall>j\<in>set js. i \<le> j \<Longrightarrow>
     mset r = mset route \<and> calculate_route_distance r dm = Inr d \<and> d < best"
  by (induction js) (auto simp: mset_reverse_segment Let_def split: if_splits sum.splits)

lemma two_opt_scan_i_accepts:
  "two_opt_scan_i is route dm best = Inr (Some (r, d)) \<Longrightarrow>
     mset r = mset route \<and> calculate_route_distance r dm = Inr d \<and> d < best"
proof (induction "is")
  case Nil
  then show ?case by simp
next
  case (Cons i "is")
  show ?case
  proof (cases "two_opt_scan_j i [i + 1..<length route] route dm best")
    case (Inl e)
    with Cons.prems show ?thesis by simp
  next
    case (Inr found)
    show ?thesis
    proof (cases found)
      case None
      with Inr Cons show ?thesis by simp
    next
      case (Some acc)
      with Inr Cons.prems have "two_opt_scan_j i [i + 1..<length route] route dm best = Inr (Some (r, d))"
        by simp
      then show ?thesis by (rule two_opt_scan_j_accepts) simp
    qed
  qed
qed

lemma two_opt_scan_accepts:
  "two_opt_scan route dm best = Inr (Some (r, d)) \<Longrightarrow>
     mset r = mset route \<and> calculate_route_distance r dm = Inr d \<and> d < best"
  unfolding two_opt_scan_def by (rule two_opt_scan_i_accepts)

lemma two_opt_loop_inv:
  "two_opt_loop mi it route best_route bd imp dm = Inr (r, imp', it') \<Longrightarrow>
     best_route = route \<Longrightarrow> calculate_route_distance route dm = Inr bd \<Longrightarrow>
     mset r = mset route \<and> it \<le> it' \<and> (it < mi \<longrightarrow> it' \<le> mi) \<and> (\<not> it < mi \<longrightarrow> it' = it) \<and>
     (\<exists>bd'. calculate_route_distance r dm = Inr bd' \<and> bd' \<le> bd \<and>
            (it' < mi \<longrightarrow> two_opt_scan r dm bd' = Inr None) \<and>
            (it < it' \<longrightarrow> bd' < bd)) \<and>
     (imp' \<longleftrightarrow> imp \<or> it < it')"
proof (induction mi it route best_route bd imp dm rule: two_opt_loop.induct)
  case (1 mi it route best_route bd imp dm)
  show ?case
  proof (cases "it < mi")
    case False
    with "1.prems" show ?thesis by auto
  next
    case True
    show ?thesis
    proof (cases "two_opt_scan route dm bd")
      case (Inl e)
      with True "1.prems" show ?thesis by simp
    next
      case (Inr found)
      show ?thesis
      proof (cases found)
        case None
        with Inr True "1.prems" show ?thesis by auto
      next
        case (Some acc)
        obtain nr nd where acc: "acc = (nr, nd)" by (cases acc)
        from Inr Some acc have sc: "two_opt_scan route dm bd = Inr (Some (nr, nd))" by simp
        from two_opt_scan_accepts[OF sc]
        have m: "mset nr = mset route" and c: "calculate_route_distance nr dm = Inr nd" and lt: "nd < bd"
          by auto
        from "1.prems" True sc have "two_opt_loop mi (it + 1) nr nr nd True dm = Inr (r, imp', it')"
          by simp
        from "1.IH"[OF True sc refl refl this refl c] m lt True show ?thesis by auto
      qed
    qed
  qed
qed







lemma fill_distances_dom:
  "fill_distances hav stops pairs m = Inr d \<Longrightarrow>
     dom d = dom m \<union> {p \<in> set pairs. fst p \<noteq> snd p}"
proof (induction hav stops pairs m rule: fill_distances.induct)
  case (1 hav stops m)
  then show ?case by simp
next
  case (2 hav stops i j pairs m)
  show ?case
  proof (cases "i = j")
    case True
    with 2 show ?thesis by auto
  next
    case False
    with "2.prems" obtain v where
      v: "hav (sc_lat (stops ! i)) (sc_lng (stops ! i)) (sc_lat (stops ! j)) (sc_lng (stops ! j)) = Inr v"
      and rest: "fill_distances hav stops pairs (m((i, j) \<mapsto> v)) = Inr d"
      by (auto split: sum.splits)
    from "2.IH"(1)[OF False v rest]
    have "dom d = insert (i, j) (dom m) \<union> {p \<in> set pairs. fst p \<noteq> snd p}"
      by (simp only: dom_fun_upd option.simps if_False)
    with False show ?thesis by auto
  qed
qed

lemma fill_distances_error:
  "fill_distances hav stops pairs m = Inl e \<Longrightarrow> \<exists>a b c d. hav a b c d = Inl e"
  by (induction hav stops pairs m rule: fill_distances.induct) (auto split: if_splits sum.splits)


lemma set_index_pairs: "set (index_pairs n) = {(i, j). i < n \<and> j < n}"
  unfolding index_pairs_def by auto

lemma fill_distances_full:
  "fill_distances hav stops (index_pairs n) Map.empty = Inr d \<Longrightarrow> full_dict n d"
  unfolding full_dict_def
  by (drule fill_distances_dom) (auto simp: set_index_pairs dom_def set_eq_iff)

lemma perm_upt_props:
  assumes "mset r = mset [0..<n]"
  shows "length r = n" and "distinct r" and "set r = {0..<n}"
proof -
  show "length r = n" using assms by (metis size_mset length_upt diff_zero)
  show "distinct r" using assms by (metis distinct_upt mset_eq_imp_distinct_iff)
  show "set r = {0..<n}" using assms by (metis set_mset_mset set_upt)
qed

lemma embedded_edge_ok:
  assumes p: "mset r = mset [0..<n]" and n: "2 \<le> n" and f: "full_dict n distances" and i: "i < n"
  shows "\<exists>d. distances (r ! i, r ! ((i + 1) mod length r)) = Some d"
proof -
  note pr = perm_upt_props[OF p]
  have k: "(i + 1) mod n < n" using n by simp
  have ne: "i \<noteq> (i + 1) mod n"
  proof (cases "i + 1 < n")
    case True then show ?thesis by simp
  next
    case False
    with i have "i + 1 = n" by simp
    with n show ?thesis by simp
  qed
  have "r ! i \<noteq> r ! ((i + 1) mod n)"
    using pr i k ne by (simp add: nth_eq_iff_index_eq)
  moreover have "r ! i < n" "r ! ((i + 1) mod n) < n"
    using pr i k by (metis atLeastLessThan_iff nth_mem)+
  ultimately show ?thesis using f pr unfolding full_dict_def by auto
qed

lemma embedded_distance_loop_ok:
  "\<forall>i\<in>set is. \<exists>d. distances (r ! i, r ! ((i + 1) mod length r)) = Some d \<Longrightarrow>
     \<exists>d. embedded_distance_loop is t distances r = Inr d"
  by (induction "is" arbitrary: t) (auto simp: Let_def)

lemma calculate_route_distance_embedded_ok:
  assumes "mset r = mset [0..<n]" and "2 \<le> n" and "full_dict n distances"
  shows "\<exists>d. calculate_route_distance_embedded distances r = Inr d"
  unfolding calculate_route_distance_embedded_def
  using embedded_edge_ok[OF assms] perm_upt_props(1)[OF assms(1)]
  by (intro embedded_distance_loop_ok) auto

lemma embedded_pass_j_inv:
  "mset r = mset [0..<n] \<Longrightarrow> 2 \<le> n \<Longrightarrow> full_dict n distances \<Longrightarrow> \<forall>j\<in>set js. i \<le> j + 1 \<Longrightarrow>
     \<exists>r' d' imp'. embedded_pass_j i js distances (r, d, imp) = Inr (r', d', imp') \<and>
        mset r' = mset [0..<n] \<and> (imp' \<or> (r' = r \<and> d' = d \<and> \<not> imp))"
proof (induction js arbitrary: r d imp)
  case Nil
  then show ?case by simp
next
  case (Cons j js)
  let ?nr = "reverse_segment r i (j + 1)"
  from Cons.prems have ij: "i \<le> j + 1" by simp
  have m: "mset ?nr = mset [0..<n]"
    using mset_reverse_segment[OF ij, of r] Cons.prems(1) by simp
  from calculate_route_distance_embedded_ok[OF m Cons.prems(2,3)] obtain nd
    where nd: "calculate_route_distance_embedded distances ?nr = Inr nd" by blast
  show ?case
  proof (cases "nd < d")
    case True
    from Cons.IH[OF m Cons.prems(2,3), of nd True] Cons.prems(4)
    obtain r' d' imp' where "embedded_pass_j i js distances (?nr, nd, True) = Inr (r', d', imp')"
      "mset r' = mset [0..<n]" "imp'" by auto
    with nd True show ?thesis by (auto simp: Let_def)
  next
    case False
    from Cons.IH[OF Cons.prems(1,2,3), of d imp] Cons.prems(4)
    obtain r' d' imp' where "embedded_pass_j i js distances (r, d, imp) = Inr (r', d', imp')"
      "mset r' = mset [0..<n]" "imp' \<or> (r' = r \<and> d' = d \<and> \<not> imp)" by auto
    with nd False show ?thesis by (auto simp: Let_def)
  qed
qed

lemma embedded_pass_i_inv:
  "mset r = mset [0..<n] \<Longrightarrow> 2 \<le> n \<Longrightarrow> full_dict n distances \<Longrightarrow>
     \<exists>r' d' imp'. embedded_pass_i is m distances (r, d, imp) = Inr (r', d', imp') \<and>
        mset r' = mset [0..<n] \<and> (imp' \<or> (r' = r \<and> d' = d \<and> \<not> imp))"
proof (induction "is" arbitrary: r d imp)
  case Nil
  then show ?case by simp
next
  case (Cons i "is")
  have "\<forall>j\<in>set [i + 1..<m]. i \<le> j + 1" by simp
  from embedded_pass_j_inv[OF Cons.prems this, of d imp]
  obtain r1 d1 imp1 where s1: "embedded_pass_j i [i + 1..<m] distances (r, d, imp) = Inr (r1, d1, imp1)"
    "mset r1 = mset [0..<n]" "imp1 \<or> (r1 = r \<and> d1 = d \<and> \<not> imp)" by blast
  from Cons.IH[OF s1(2) Cons.prems(2,3), of d1 imp1]
  obtain r' d' imp' where "embedded_pass_i is m distances (r1, d1, imp1) = Inr (r', d', imp')"
    "mset r' = mset [0..<n]" "imp' \<or> (r' = r1 \<and> d' = d1 \<and> \<not> imp1)" by blast
  with s1 show ?case by auto
qed

lemma embedded_loop_inv:
  "mset r = mset [0..<n] \<Longrightarrow> 2 \<le> n \<Longrightarrow> full_dict n distances \<Longrightarrow>
     \<exists>r' d' it'. embedded_loop n distances imp it r d = Inr (r', d', it') \<and>
        mset r' = mset [0..<n] \<and> it \<le> it' \<and> (imp \<and> it < 50 \<longrightarrow> it < it' \<and> it' \<le> 50) \<and>
        (it' < 50 \<longrightarrow> (\<not> imp \<and> r' = r \<and> d' = d \<and> it' = it) \<or>
           embedded_pass_i [1..<n - 1] n distances (r', d', False) = Inr (r', d', False))"
proof (induction n distances imp it r d rule: embedded_loop.induct)
  case (1 n distances imp it r d)
  show ?case
  proof (cases "imp \<and> it < 50")
    case False
    with "1.prems" show ?thesis by auto
  next
    case True
    from embedded_pass_i_inv[OF "1.prems", of "[1..<n - 1]" n d False]
    obtain r1 d1 imp1 where p: "embedded_pass_i [1..<n - 1] n distances (r, d, False) = Inr (r1, d1, imp1)"
      "mset r1 = mset [0..<n]" "imp1 \<or> (r1 = r \<and> d1 = d)" by auto
    from True have c: "imp \<and> it < 50" .
    from "1.IH"[OF refl c p(1) refl refl p(2) "1.prems"(2,3)]
    obtain r' d' it' where l: "embedded_loop n distances imp1 (it + 1) r1 d1 = Inr (r', d', it')"
      "mset r' = mset [0..<n]" "it + 1 \<le> it'" "imp1 \<and> it + 1 < 50 \<longrightarrow> it + 1 < it' \<and> it' \<le> 50"
      "it' < 50 \<longrightarrow> (\<not> imp1 \<and> r' = r1 \<and> d' = d1 \<and> it' = it + 1) \<or>
           embedded_pass_i [1..<n - 1] n distances (r', d', False) = Inr (r', d', False)"
      by blast
    have le: "it' \<le> 50"
    proof (cases "imp1 \<and> it + 1 < 50")
      case True
      with l(4) show ?thesis by simp
    next
      case False
      then have "embedded_loop n distances imp1 (it + 1) r1 d1 = Inr (r1, d1, it + 1)" by auto
      with l(1) True show ?thesis by simp
    qed
    have stable: "it' < 50 \<longrightarrow>
           embedded_pass_i [1..<n - 1] n distances (r', d', False) = Inr (r', d', False)"
      using l(5) p by auto
    have "embedded_loop n distances imp it r d = Inr (r', d', it')"
      using True p(1) l(1) by simp
    with l(2,3) le stable True show ?thesis by auto
  qed
qed

lemma select_stops_perm:
  "set r \<subseteq> {0..<length stops} \<Longrightarrow> select_stops stops r = Inr (map (\<lambda>i. stops ! i) r)"
  by (induction r) auto

lemma optimize_route_2opt_perm:
  assumes "optimize_route_2opt hav stops = Inr (optimized_stops, saved, final_distance)"
  shows "mset optimized_stops = mset stops"
proof (cases "length stops < 3")
  case True
  with assms show ?thesis by (simp add: optimize_route_2opt_def)
next
  case False
  define n where "n = length stops"
  from False have n: "2 \<le> n" "\<not> n < 3" unfolding n_def by auto
  from assms n obtain distances where
    fd: "fill_distances hav stops (index_pairs n) Map.empty = Inr distances"
    unfolding optimize_route_2opt_def n_def[symmetric] Let_def
    by (auto split: sum.splits)
  from assms n fd obtain d0 where
    d0: "calculate_route_distance_embedded distances [0..<n] = Inr d0"
    unfolding optimize_route_2opt_def n_def[symmetric] Let_def
    by (auto split: sum.splits)
  show ?thesis
  proof (cases "d0 = 0")
    case True
    with assms n fd d0 show ?thesis
      unfolding optimize_route_2opt_def n_def[symmetric] Let_def by simp
  next
    case nz: False
    from embedded_loop_inv[OF refl n(1) fill_distances_full[OF fd], of True 0 d0]
    obtain r d its where l: "embedded_loop n distances True 0 [0..<n] d0 = Inr (r, d, its)"
      "mset r = mset [0..<n]" by blast
    have "set r \<subseteq> {0..<length stops}" using perm_upt_props(3)[OF l(2)] n_def by simp
    from select_stops_perm[OF this] have s: "select_stops stops r = Inr (map (\<lambda>i. stops ! i) r)" .
    from assms n fd d0 nz l(1) s have "optimized_stops = map (\<lambda>i. stops ! i) r"
      unfolding optimize_route_2opt_def n_def[symmetric] Let_def by simp
    then have "mset optimized_stops = image_mset (\<lambda>i. stops ! i) (mset r)" by simp
    also have "\<dots> = image_mset (\<lambda>i. stops ! i) (mset [0..<n])" using l(2) by simp
    also have "\<dots> = mset (map (\<lambda>i. stops ! i) [0..<length stops])" unfolding n_def by simp
    also have "\<dots> = mset stops" by (simp only: map_nth)
    finally show ?thesis .
  qed
qed

lemma two_opt_perm:
  assumes "two_opt route dm mi = Inr (best_route, improved)"
  shows "mset best_route = mset route"
proof (cases "length route \<le> 3")
  case True
  with assms show ?thesis by (simp add: two_opt_def)
next
  case False
  with assms obtain bd where bd: "calculate_route_distance route dm = Inr bd"
    by (auto simp: two_opt_def split: sum.splits)
  with assms False obtain its where
    "two_opt_loop mi 0 route route bd False dm = Inr (best_route, improved, its)"
    by (auto simp: two_opt_def split: sum.splits)
  from two_opt_loop_inv[OF this refl bd] show ?thesis by simp
qed

lemma matrix_get_square:
  "square_matrix n dm \<Longrightarrow> a < n \<Longrightarrow> b < n \<Longrightarrow> matrix_get dm (int a) (int b) = Inr (dm ! a ! b)"
  unfolding square_matrix_def matrix_get_def py_index_def by (auto simp: Let_def)

lemma route_distance_loop_foldl:
  "square_matrix n dm \<Longrightarrow> \<forall>x\<in>set r. x < n \<Longrightarrow>
     route_distance_loop t (map int r) dm =
       Inr (foldl (+) t (map (\<lambda>(a, b). dm ! a ! b) (zip r (tl r))))"
proof (induction r arbitrary: t)
  case Nil
  then show ?case by simp
next
  case (Cons a r)
  show ?case
  proof (cases r)
    case Nil
    then show ?thesis by simp
  next
    case (Cons b rest)
    with Cons.prems have "matrix_get dm (int a) (int b) = Inr (dm ! a ! b)"
      by (intro matrix_get_square) auto
    with Cons Cons.IH[of "t + dm ! a ! b"] Cons.prems show ?thesis by simp
  qed
qed

lemma embedded_distance_loop_foldl:
  "\<forall>i\<in>set is. distances (r ! i, r ! ((i + 1) mod length r)) = Some (w i) \<Longrightarrow>
     embedded_distance_loop is t distances r = Inr (foldl (+) t (map w is))"
  by (induction "is" arbitrary: t) (auto simp: Let_def)

lemma zip_tl_eq: "zip r (tl r) = map (\<lambda>i. (r ! i, r ! (i + 1))) [0..<length r - 1]"
  by (rule nth_equalityI) (auto simp: nth_tl)

lemma closed_is_open_plus_wrap:
  assumes sq: "square_matrix n dm"
    and r: "\<forall>x\<in>set r. x < n" "distinct r" "2 \<le> length r"
    and ag: "\<forall>i<n. \<forall>j<n. i \<noteq> j \<longrightarrow> distances (i, j) = Some (dm ! i ! j)"
  shows "\<exists>t. calculate_route_distance (map int r) dm = Inr t \<and>
             calculate_route_distance_embedded distances r = Inr (t + dm ! last r ! hd r)"
proof -
  define m where "m = length r - 1"
  define w where "w i = dm ! (r ! i) ! (r ! ((i + 1) mod length r))" for i
  define t where "t = foldl (+) 0 (map (\<lambda>(a, b). dm ! a ! b) (zip r (tl r)))"
  from r(3) have len: "length r = m + 1" "1 \<le> m" unfolding m_def by auto
  have open_eq: "calculate_route_distance (map int r) dm = Inr t"
    unfolding calculate_route_distance_def t_def
    using route_distance_loop_foldl[OF sq r(1)] r(3) by simp
  have edges: "\<forall>i\<in>set [0..<length r]. distances (r ! i, r ! ((i + 1) mod length r)) = Some (w i)"
  proof
    fix i assume "i \<in> set [0..<length r]"
    then have i: "i < length r" by simp
    have k: "(i + 1) mod length r < length r" using i by (cases r) auto
    have "i \<noteq> (i + 1) mod length r"
    proof (cases "i + 1 < length r")
      case True then show ?thesis by simp
    next
      case False
      with i have "i + 1 = length r" by simp
      with r(3) show ?thesis by simp
    qed
    with r(2) i k have "r ! i \<noteq> r ! ((i + 1) mod length r)"
      by (simp add: nth_eq_iff_index_eq)
    moreover have "r ! i < n" "r ! ((i + 1) mod length r) < n"
      using r(1) i k by (metis nth_mem)+
    ultimately show "distances (r ! i, r ! ((i + 1) mod length r)) = Some (w i)"
      using ag unfolding w_def by simp
  qed
  have closed_eq: "calculate_route_distance_embedded distances r =
      Inr (foldl (+) 0 (map w [0..<length r]))"
    unfolding calculate_route_distance_embedded_def
    by (rule embedded_distance_loop_foldl[OF edges])
  have "map w [0..<m] = map (\<lambda>(a, b). dm ! a ! b) (zip r (tl r))"
    unfolding zip_tl_eq m_def[symmetric] using len by (auto simp: w_def)
  moreover have "w m = dm ! last r ! hd r"
    unfolding w_def using len by (cases r) (auto simp: last_conv_nth hd_conv_nth)
  ultimately have "foldl (+) 0 (map w [0..<length r]) = t + dm ! last r ! hd r"
    unfolding t_def len by simp
  with open_eq closed_eq show ?thesis by simp
qed

lemma py_min_loop_spec:
  "\<forall>x\<in>set ys. key x = Inr (f x) \<Longrightarrow>
   \<forall>x\<in>seen. f best \<le> f x \<and> (f x = f best \<longrightarrow> best \<le> x) \<Longrightarrow>
   (best::'a::linorder) \<in> seen \<Longrightarrow> \<forall>x\<in>seen. \<forall>y\<in>set ys. x < y \<Longrightarrow> sorted_wrt (<) ys \<Longrightarrow>
   \<exists>m. py_min_loop key best (f best) ys = Inr m \<and> m \<in> seen \<union> set ys \<and>
       (\<forall>x\<in>seen \<union> set ys. f m \<le> f x \<and> (f x = f m \<longrightarrow> m \<le> x))"
proof (induction ys arbitrary: best seen)
  case Nil
  then show ?case by simp
next
  case (Cons y ys)
  from Cons.prems have ky: "key y = Inr (f y)" and keys: "\<forall>x\<in>set ys. key x = Inr (f x)"
    and srt: "sorted_wrt (<) ys" and ylt: "\<forall>z\<in>set ys. y < z"
    and above: "\<forall>x\<in>seen. \<forall>z\<in>set ys. x < z" and sy: "\<forall>x\<in>seen. x < y"
    by auto
  show ?case
  proof (cases "f y < f best")
    case True
    have 1: "\<forall>x\<in>insert y seen. f y \<le> f x \<and> (f x = f y \<longrightarrow> y \<le> x)"
      using True Cons.prems(2) by force
    have 2: "\<forall>x\<in>insert y seen. \<forall>z\<in>set ys. x < z" using ylt above by auto
    from Cons.IH[OF keys 1 _ 2 srt]
    obtain m where "py_min_loop key y (f y) ys = Inr m" "m \<in> insert y seen \<union> set ys"
      "\<forall>x\<in>insert y seen \<union> set ys. f m \<le> f x \<and> (f x = f m \<longrightarrow> m \<le> x)" by auto
    with ky True show ?thesis by auto
  next
    case False
    have 1: "\<forall>x\<in>insert y seen. f best \<le> f x \<and> (f x = f best \<longrightarrow> best \<le> x)"
      using False Cons.prems(2,3) sy by force
    have 2: "\<forall>x\<in>insert y seen. \<forall>z\<in>set ys. x < z" using ylt above by auto
    from Cons.IH[OF keys 1 _ 2 srt] Cons.prems(3)
    obtain m where "py_min_loop key best (f best) ys = Inr m" "m \<in> insert y seen \<union> set ys"
      "\<forall>x\<in>insert y seen \<union> set ys. f m \<le> f x \<and> (f x = f m \<longrightarrow> m \<le> x)" by auto
    with ky False show ?thesis by auto
  qed
qed

lemma py_min_key_spec:
  assumes "(xs::'a::linorder list) \<noteq> []" "\<forall>x\<in>set xs. key x = Inr (f x)" "sorted_wrt (<) xs"
  shows "\<exists>m. py_min_key key xs = Inr m \<and> m \<in> set xs \<and>
       (\<forall>x\<in>set xs. f m \<le> f x \<and> (f x = f m \<longrightarrow> m \<le> x))"
proof -
  from assms(1) obtain x rest where xs: "xs = x # rest" by (cases xs) auto
  have "\<exists>m. py_min_loop key x (f x) rest = Inr m \<and> m \<in> {x} \<union> set rest \<and>
       (\<forall>z\<in>{x} \<union> set rest. f m \<le> f z \<and> (f z = f m \<longrightarrow> m \<le> z))"
    using assms(2,3) unfolding xs by (intro py_min_loop_spec) auto
  with assms(2) show ?thesis unfolding xs by auto
qed

lemma nearest_neighbor_loop_spec:
  "square_matrix n dm \<Longrightarrow> sorted_wrt (<) unvisited \<Longrightarrow> set unvisited \<subseteq> {0..<int n} \<Longrightarrow>
   0 \<le> current \<Longrightarrow> current < int n \<Longrightarrow> route \<noteq> [] \<Longrightarrow> last route = current \<Longrightarrow>
   set route \<inter> set unvisited = {} \<Longrightarrow>
   \<exists>res. nearest_neighbor_loop dm unvisited route current = Inr res \<and>
      mset res = mset route + mset unvisited \<and> take (length route) res = route \<and>
      (\<forall>k. length route \<le> k + 1 \<and> k + 1 < length res \<longrightarrow>
         greedy_step dm (set route \<union> set unvisited) res k)"
proof (induction dm unvisited route current rule: nearest_neighbor_loop.induct)
  case (1 dm unvisited route current)
  show ?case
  proof (cases "unvisited = []")
    case True
    then show ?thesis by auto
  next
    case False
    let ?f = "\<lambda>x. dm ! nat current ! nat x"
    have keys: "\<forall>x\<in>set unvisited. matrix_get dm current x = Inr (?f x)"
    proof
      fix x assume "x \<in> set unvisited"
      with "1.prems"(3) have "0 \<le> x \<and> x < int n" by auto
      then have x: "0 \<le> x" "nat x < n" by linarith+
      from matrix_get_square[OF "1.prems"(1) _ x(2), of "nat current"] "1.prems"(4,5) x(1)
      show "matrix_get dm current x = Inr (?f x)" by simp
    qed
    from py_min_key_spec[OF False keys "1.prems"(2)]
    obtain nearest where nn: "py_min_key (\<lambda>x. matrix_get dm current x) unvisited = Inr nearest"
      "nearest \<in> set unvisited"
      "\<forall>x\<in>set unvisited. ?f nearest \<le> ?f x \<and> (?f x = ?f nearest \<longrightarrow> nearest \<le> x)"
      by blast
    let ?u = "remove1 nearest unvisited"
    have rm: "set_remove unvisited nearest = Inr ?u" using nn(2) by (simp add: set_remove_def)
    have dist: "distinct unvisited" "sorted unvisited"
      using "1.prems"(2) by (simp_all add: strict_sorted_iff)
    have su: "set ?u = set unvisited - {nearest}" using dist by simp
    have p2: "sorted_wrt (<) ?u" using dist by (simp add: strict_sorted_iff sorted_remove1)
    have p3: "set ?u \<subseteq> {0..<int n}" using su "1.prems"(3) by auto
    have p4: "0 \<le> nearest" "nearest < int n" using nn(2) "1.prems"(3) by auto
    have p8: "set (route @ [nearest]) \<inter> set ?u = {}" using su "1.prems"(8) by auto
    from "1.IH"[OF False nn(1) rm "1.prems"(1) p2 p3 p4 _ _ p8]
    obtain res where res: "nearest_neighbor_loop dm ?u (route @ [nearest]) nearest = Inr res"
      "mset res = mset (route @ [nearest]) + mset ?u"
      "take (length (route @ [nearest])) res = route @ [nearest]"
      "\<forall>k. length (route @ [nearest]) \<le> k + 1 \<and> k + 1 < length res \<longrightarrow>
         greedy_step dm (set (route @ [nearest]) \<union> set ?u) res k"
      by auto
    have run: "nearest_neighbor_loop dm unvisited route current = Inr res"
      using False nn(1) rm res(1) by simp
    have ms: "mset res = mset route + mset unvisited"
      using res(2) nn(2) by simp
    have len: "length route < length res"
      using res(3) by (metis length_append_singleton length_take min.cobounded1 not_less_eq_eq not_le_imp_less)
    have pre: "take (length route) res = route"
      using res(3) by (metis length_append_singleton butlast_snoc butlast_take diff_Suc_1 len Suc_leI)
    have U: "set (route @ [nearest]) \<union> set ?u = set route \<union> set unvisited"
      using su nn(2) by auto
    have at: "res ! length route = nearest"
      using res(3) by (metis length_append_singleton lessI nth_append_length nth_take)
    have prev: "res ! (length route - 1) = current"
      using pre "1.prems"(6,7)
      by (metis diff_less last_conv_nth length_greater_0_conv nth_take zero_less_one)
    have first: "greedy_step dm (set route \<union> set unvisited) res (length route - 1)"
    proof -
      have k: "length route - 1 + 1 = length route" using "1.prems"(6) by (cases route) auto
      have "(set route \<union> set unvisited) - set (take (length route) res) = set unvisited"
        using pre "1.prems"(8) by auto
      with nn(3) at prev k show ?thesis unfolding greedy_step_def by simp
    qed
    have "\<forall>k. length route \<le> k + 1 \<and> k + 1 < length res \<longrightarrow>
         greedy_step dm (set route \<union> set unvisited) res k"
    proof (intro allI impI)
      fix k assume k: "length route \<le> k + 1 \<and> k + 1 < length res"
      show "greedy_step dm (set route \<union> set unvisited) res k"
      proof (cases "length route = k + 1")
        case True
        with first show ?thesis by simp
      next
        case False
        with k have "length (route @ [nearest]) \<le> k + 1 \<and> k + 1 < length res" by simp
        with res(4) U show ?thesis by simp
      qed
    qed
    with run ms pre show ?thesis by blast
  qed
qed

lemma py_range_props: "sorted_wrt (<) (py_range n)" "set (py_range n) = {0..<int n}" "distinct (py_range n)"
proof -
  show "sorted_wrt (<) (py_range n)"
    unfolding py_range_def by (simp add: sorted_wrt_map)
  show "set (py_range n) = {0..<int n}"
  proof (intro set_eqI iffI)
    fix x assume "x \<in> set (py_range n)"
    then show "x \<in> {0..<int n}" unfolding py_range_def by auto
  next
    fix x assume "x \<in> {0..<int n}"
    then have "nat x < n" "x = int (nat x)" by auto
    then have "nat x \<in> set [0..<n]" "x = int (nat x)" by simp_all
    then show "x \<in> set (py_range n)" unfolding py_range_def set_map
      by (rule_tac image_eqI[where x = "nat x"]) simp_all
  qed
  show "distinct (py_range n)"
    unfolding py_range_def by (simp add: distinct_map inj_on_def)
qed



section \<open>Lemmas about the optimizer\<close>

lemma get_route_miss:
  "(routing_db_ok w \<longrightarrow> routing_cache st (hash_route a b) = None) \<Longrightarrow> get_route w a b st = (None, st)"
  by (auto simp: get_route_def)

lemma limiter_cache [simp]:
  "routing_cache (reset_minute_counter st) = routing_cache st"
  "routing_cache (sleep_for_spacing st) = routing_cache st"
  "routing_cache (count_api_call st) = routing_cache st"
  "ors_client (reset_minute_counter st) = ors_client st"
  "ors_client (sleep_for_spacing st) = ors_client st"
  "ors_client (count_api_call st) = ors_client st"
  by (simp_all add: reset_minute_counter_def sleep_for_spacing_def count_api_call_def Let_def)

lemma calculate_road_distance_failure:
  assumes miss: "routing_db_ok w \<longrightarrow> routing_cache st (hash_route a b) = None"
    and fail: "routing_fails w st a b"
  shows "calculate_road_distance w a b st = (None, snd (calculate_road_distance w a b st)) \<and>
         routing_cache (snd (calculate_road_distance w a b st)) = routing_cache st"
  unfolding calculate_road_distance_def get_route_miss[OF miss]
  using fail by (auto simp: Let_def routing_fails_def time_of_call_def)

lemma calculate_distance_failure:
  assumes miss: "routing_db_ok w \<longrightarrow> routing_cache st (hash_route (lat1, lon1) (lat2, lon2)) = None"
    and fail: "routing_fails w st (lat1, lon1) (lat2, lon2)"
  shows "fst (calculate_distance w lat1 lon1 lat2 lon2 st) = calculate_air_distance w lat1 lon1 lat2 lon2 \<and>
         routing_cache (snd (calculate_distance w lat1 lon1 lat2 lon2 st)) = routing_cache st"
proof (cases "ors_client st")
  case False
  then show ?thesis by (simp add: calculate_distance_def)
next
  case True
  from calculate_road_distance_failure[OF miss fail] obtain st1 where
    r: "calculate_road_distance w (lat1, lon1) (lat2, lon2) st = (None, st1)"
      "routing_cache st1 = routing_cache st"
    by metis
  with True show ?thesis by (simp add: calculate_distance_def)
qed

lemma calculate_road_distance_cache:
  "calculate_road_distance w a b st = (res, st') \<Longrightarrow> routing_cache st' \<noteq> routing_cache st \<Longrightarrow>
     (\<exists>row. routing_cache st (hash_route a b) = Some row \<and> res = Some (re_distance_km row) \<and>
        routing_cache st' = (routing_cache st)(hash_route a b \<mapsto> row\<lparr>re_last_used := clock st\<rparr>)) \<or>
     (\<exists>t metres seconds geometry. directions w t a b = Directions metres seconds geometry \<and>
        t \<in> set (api_log st') \<and> res = Some (metres / 1000) \<and>
        routing_cache st' = (routing_cache st)(hash_route a b \<mapsto>
           \<lparr>re_distance_km = metres / 1000, re_duration_minutes = seconds / 60,
            re_geometry = geometry, re_created_at = t, re_last_used = t\<rparr>))"
proof (cases "get_route w a b st")
  case (Pair hit st1)
  assume run: "calculate_road_distance w a b st = (res, st')"
    and ch: "routing_cache st' \<noteq> routing_cache st"
  show ?thesis
  proof (cases hit)
    case (Some row)
    with Pair run have "res = Some (re_distance_km row)" "st' = st1"
      by (simp_all add: calculate_road_distance_def)
    moreover from Pair Some have "routing_cache st (hash_route a b) = Some row"
      "routing_cache st1 = (routing_cache st)(hash_route a b \<mapsto> row\<lparr>re_last_used := clock st\<rparr>)"
      by (auto simp: get_route_def split: if_splits option.splits)
    ultimately show ?thesis by blast
  next
    case None
    with Pair have st1: "st1 = st" by (auto simp: get_route_def split: if_splits option.splits)
    let ?st3 = "count_api_call (sleep_for_spacing (reset_minute_counter st))"
    have log: "clock ?st3 \<in> set (api_log ?st3)" by (simp add: count_api_call_def)
    show ?thesis
    proof (cases "directions w (clock ?st3) a b")
      case (Directions metres seconds geometry)
      from run ch Pair None st1 Directions
      have "res = Some (metres / 1000)"
        "st' = store_route w a b (metres / 1000) (seconds / 60) geometry ?st3"
        by (auto simp: calculate_road_distance_def Let_def split: if_splits)
      moreover from this ch have "routing_cache st' = (routing_cache st)(hash_route a b \<mapsto>
           \<lparr>re_distance_km = metres / 1000, re_duration_minutes = seconds / 60,
            re_geometry = geometry, re_created_at = clock ?st3, re_last_used = clock ?st3\<rparr>)"
        by (auto simp: store_route_def split: if_splits)
      moreover have "api_log st' = api_log ?st3"
        using calculation(2) by (simp add: store_route_def)
      ultimately show ?thesis using Directions log by metis
    next
      case NoFeatures
      with run ch Pair None st1 show ?thesis
        by (auto simp: calculate_road_distance_def Let_def split: if_splits)
    next
      case DirectionsError
      with run ch Pair None st1 show ?thesis
        by (auto simp: calculate_road_distance_def Let_def split: if_splits)
    qed
  qed
qed

lemma get_coordinates_from_postal_returns:
  "\<exists>coords. get_coordinates_from_postal w postal_code city = Inr coords"
  unfolding get_coordinates_from_postal_def by (cases "postal_lookup w postal_code") auto

lemma get_coordinates_from_postal_unknown:
  "length (py_strip postal_code) < 2 \<or> postal_coordinates (take 2 (py_strip postal_code)) = None \<Longrightarrow>
     get_coordinates_from_postal w postal_code city = Inr default_coordinates"
  unfolding get_coordinates_from_postal_def postal_lookup_def by (auto simp: Let_def)

lemma get_coordinates_from_postal_known:
  assumes "2 \<le> length (py_strip postal_code)"
    and "postal_coordinates (take 2 (py_strip postal_code)) = Some base"
  shows "length (py_strip postal_code) < 5 \<Longrightarrow>
           get_coordinates_from_postal w postal_code city = Inr base"
    and "5 \<le> length (py_strip postal_code) \<Longrightarrow>
         py_int w (drop 2 (take 5 (py_strip postal_code))) = Inr digits \<Longrightarrow>
           get_coordinates_from_postal w postal_code city
             = Inr (fst base + (real_of_int digits / 10000 - 0.05),
                    snd base + (real_of_int digits / 10000 - 0.05))"
    and "5 \<le> length (py_strip postal_code) \<Longrightarrow>
         py_int w (drop 2 (take 5 (py_strip postal_code))) = Inl e \<Longrightarrow>
           get_coordinates_from_postal w postal_code city = Inr default_coordinates"
  using assms unfolding get_coordinates_from_postal_def postal_lookup_def
  by (simp_all add: Let_def)

lemma geocode_address_returns:
  "\<exists>coords. fst (geocode_address w street postal_code city st) = Inr coords"
proof -
  obtain c where c: "get_coordinates_from_postal w postal_code city = Inr c"
    using get_coordinates_from_postal_returns by blast
  show ?thesis
    unfolding geocode_address_def Let_def
    by (auto simp: c split: option.splits prod.splits sum.splits)
qed

lemma cached_coordinates_miss:
  "cached_coordinates w st address = None \<Longrightarrow> geocoding_get_coordinates w address st = (None, st)"
  by (auto simp: cached_coordinates_def geocoding_get_coordinates_def
      split: option.splits if_splits)

lemma geocode_attempts_fail:
  assumes "attempts_fail w st street postal_code city"
  shows "\<forall>coords. fst (geocode_attempts w (full_address_of w street postal_code city)
           postal_code city st) \<noteq> Inr (Some coords)"
proof -
  let ?full = "full_address_of w street postal_code city"
  let ?fallback = "fallback_address_of postal_code city"
  from assms consider
      (error) "geocode w ?full = GeocoderError"
    | (single) "geocode w ?full = NoMatch" "postal_code = [] \<or> city = []"
    | (second) "geocode w ?full = NoMatch" "postal_code \<noteq> []" "city \<noteq> []"
        "cached_coordinates w st ?fallback = None" "\<not> is_located (geocode w ?fallback)"
    unfolding attempts_fail_def by argo
  then show ?thesis
  proof cases
    case error
    then show ?thesis by (simp add: geocode_attempts_def)
  next
    case single
    then show ?thesis by (auto simp: geocode_attempts_def)
  next
    case second
    note m = cached_coordinates_miss[OF second(4)]
    from second(5) have "geocode w ?fallback = NoMatch \<or> geocode w ?fallback = GeocoderError"
      by (cases "geocode w ?fallback") (simp_all add: is_located_def)
    with second(1,2,3) m show ?thesis
      by (auto simp: geocode_attempts_def Let_def)
  qed
qed

lemma geocode_address_fallback:
  assumes s: "session_cache st (full_address_of w street postal_code city) = None"
    and p: "cached_coordinates w st (full_address_of w street postal_code city) = None"
    and g: "attempts_fail w st street postal_code city"
  shows "fst (geocode_address w street postal_code city st)
           = get_coordinates_from_postal w postal_code city"
proof -
  note m = cached_coordinates_miss[OF p]
  from geocode_attempts_fail[OF g]
  show ?thesis
    unfolding geocode_address_def Let_def s m
    by (auto split: prod.splits sum.splits option.splits)
qed

lemma unanswered_call:
  "snd (calculate_road_distance world_without_routes a b
      \<lparr>session_cache = sc, geocoding_cache = gc, routing_cache = Map.empty, ors_client = True,
       last_api_call = l, api_calls_this_minute = n, minute_start = m, clock = c, api_log = lg\<rparr>) =
   (if 35 \<le> (if \<lfloor>c / 60\<rfloor> \<noteq> m then 0 else n)
    then \<lparr>session_cache = sc, geocoding_cache = gc, routing_cache = Map.empty, ors_client = True,
          last_api_call = l, api_calls_this_minute = (if \<lfloor>c / 60\<rfloor> \<noteq> m then 0 else n),
          minute_start = \<lfloor>c / 60\<rfloor>, clock = c, api_log = lg\<rparr>
    else \<lparr>session_cache = sc, geocoding_cache = gc, routing_cache = Map.empty, ors_client = True,
          last_api_call = (if c - l < 1.6 then l + 1.6 else c),
          api_calls_this_minute = (if \<lfloor>c / 60\<rfloor> \<noteq> m then 0 else n) + 1,
          minute_start = \<lfloor>c / 60\<rfloor>,
          clock = (if c - l < 1.6 then l + 1.6 else c),
          api_log = lg @ [if c - l < 1.6 then l + 1.6 else c]\<rparr>)"
  by (simp add: calculate_road_distance_def get_route_def world_without_routes_def
      reset_minute_counter_def sleep_for_spacing_def count_api_call_def Let_def)

lemma burst_fills_a_window: "calls_in_window 1700000010
   (road_distance_calls world_without_routes burst_of_calls fresh_optimizer) = 38"
  by (simp add: burst_of_calls_def fresh_optimizer_def new_optimizer_def eval_nat_numeral
      unanswered_call calls_in_window_def)

lemma spaced_Cons: "spaced (x # xs) \<longleftrightarrow> (\<forall>y\<in>set xs. x + 1.6 \<le> y) \<and> spaced xs"
proof (induction xs arbitrary: x)
  case Nil
  then show ?case by simp
next
  case (Cons a xs)
  show ?case using Cons.IH[of a] by (auto simp: Cons.IH)
qed

lemma spaced_append: "spaced xs \<Longrightarrow> \<forall>x\<in>set xs. x + 1.6 \<le> c \<Longrightarrow> spaced (xs @ [c])"
  by (induction xs) (auto simp: spaced_Cons)

lemma spaced_filter: "spaced xs \<Longrightarrow> spaced (filter P xs)"
  by (induction xs) (auto simp: spaced_Cons)

lemma spaced_span: "spaced (x # xs) \<Longrightarrow> \<forall>y\<in>set (x # xs). y < u \<Longrightarrow>
   x + 1.6 * real (length xs) < u"
proof (induction xs arbitrary: x)
  case Nil
  then show ?case by simp
next
  case (Cons a xs)
  from Cons.prems have "spaced (a # xs)" "\<forall>y\<in>set (a # xs). y < u" "x + 1.6 \<le> a" by auto
  with Cons.IH[of a] have "a + 1.6 * real (length xs) < u" by blast
  with \<open>x + 1.6 \<le> a\<close> have "x + 1.6 + 1.6 * real (length xs) < u" by linarith
  then show ?case by (simp add: field_simps)
qed

lemma spaced_window: "spaced xs \<Longrightarrow> length (filter (\<lambda>x. t \<le> x \<and> x < t + 60) xs) \<le> 38"
proof -
  assume s: "spaced xs"
  let ?ys = "filter (\<lambda>x. t \<le> x \<and> x < t + 60) xs"
  show ?thesis
  proof (cases ?ys)
    case Nil
    then show ?thesis by simp
  next
    case (Cons y ys)
    have sp: "spaced (y # ys)" using spaced_filter[OF s, of "\<lambda>x. t \<le> x \<and> x < t + 60"] Cons by simp
    have "set (y # ys) = {x \<in> set xs. t \<le> x \<and> x < t + 60}"
      unfolding Cons[symmetric] by simp
    then have "\<forall>z\<in>set (y # ys). t \<le> z \<and> z < t + 60" by blast
    then have b: "\<forall>z\<in>set (y # ys). z < t + 60" and y: "t \<le> y" by auto
    from spaced_span[OF sp b] y have "1.6 * real (length ys) < 60" by simp
    then have "real (length ys) < 38" by simp
    then have "length ys < 38" by simp
    with Cons show ?thesis by simp
  qed
qed

lemma limiter_invariant_delay:
  "limiter_invariant st \<Longrightarrow> 0 \<le> delay \<Longrightarrow> limiter_invariant (st\<lparr>clock := clock st + delay\<rparr>)"
  by (auto simp: limiter_invariant_def)

lemma limiter_invariant_get_route:
  "limiter_invariant st \<Longrightarrow> limiter_invariant (snd (get_route w a b st))"
  by (auto simp: limiter_invariant_def get_route_def split: option.splits)

lemma limiter_invariant_reset:
  "limiter_invariant st \<Longrightarrow> limiter_invariant (reset_minute_counter st)"
  by (auto simp: limiter_invariant_def reset_minute_counter_def Let_def)

lemma limiter_invariant_call:
  assumes "limiter_invariant st" "\<not> 35 \<le> api_calls_this_minute st"
  shows "limiter_invariant (count_api_call (sleep_for_spacing st))"
proof -
  let ?c = "if clock st - last_api_call st < 1.6 then last_api_call st + 1.6 else clock st"
  have e: "count_api_call (sleep_for_spacing st) =
      st\<lparr>clock := ?c, last_api_call := ?c, api_calls_this_minute := api_calls_this_minute st + 1,
         api_log := api_log st @ [?c]\<rparr>"
    by (simp add: count_api_call_def sleep_for_spacing_def Let_def)
  have ge: "last_api_call st + 1.6 \<le> ?c" by auto
  have "\<forall>x\<in>set (api_log st). x + 1.6 \<le> ?c"
  proof
    fix x assume "x \<in> set (api_log st)"
    with assms(1) have "x \<le> last_api_call st" by (simp add: limiter_invariant_def)
    with ge show "x + 1.6 \<le> ?c" by linarith
  qed
  then have sp: "spaced (api_log st @ [?c])"
    using assms(1) spaced_append[of "api_log st" ?c] by (simp add: limiter_invariant_def)
  have le: "\<forall>x\<in>set (api_log st). x \<le> ?c"
  proof
    fix x assume "x \<in> set (api_log st)"
    with assms(1) have "x \<le> last_api_call st" by (simp add: limiter_invariant_def)
    with ge show "x \<le> ?c" by linarith
  qed
  show ?thesis unfolding e using sp le assms by (simp add: limiter_invariant_def)
qed

lemma limiter_invariant_store:
  "limiter_invariant st \<Longrightarrow> limiter_invariant (store_route w a b d u g st)"
  by (auto simp: limiter_invariant_def store_route_def)

lemma limiter_invariant_road:
  assumes "limiter_invariant st"
  shows "limiter_invariant (snd (calculate_road_distance w a b st))"
proof -
  obtain hit st1 where g: "get_route w a b st = (hit, st1)" by (cases "get_route w a b st")
  with limiter_invariant_get_route[OF assms, of w a b] have i1: "limiter_invariant st1" by simp
  note i2 = limiter_invariant_reset[OF i1]
  show ?thesis
  proof (cases "hit = None \<and> ors_client st1 \<and> \<not> 35 \<le> api_calls_this_minute (reset_minute_counter st1)")
    case False
    with g i1 i2 show ?thesis
      by (auto simp: calculate_road_distance_def Let_def split: option.splits)
  next
    case True
    note i3 = limiter_invariant_call[OF i2] 
    from True g i3 limiter_invariant_store show ?thesis
      by (auto simp: calculate_road_distance_def Let_def split: directions_reply.splits)
  qed
qed

lemma limiter_invariant_calls:
  "limiter_invariant st \<Longrightarrow> \<forall>c\<in>set calls. 0 \<le> fst c \<Longrightarrow>
     limiter_invariant (road_distance_calls w calls st)"
proof (induction calls arbitrary: st)
  case Nil
  then show ?case by simp
next
  case (Cons c calls)
  obtain delay a b where c: "c = (delay, a, b)" by (cases c)
  with Cons.prems have "0 \<le> delay" by simp
  from limiter_invariant_road[OF limiter_invariant_delay[OF Cons.prems(1) this]]
  have "limiter_invariant (snd (calculate_road_distance w a b (st\<lparr>clock := clock st + delay\<rparr>)))" .
  from Cons.IH[OF this] Cons.prems(2) show ?case unfolding c by simp
qed

lemma limiter_invariant_new: "0 \<le> now \<Longrightarrow> limiter_invariant (new_optimizer client g r now)"
  by (simp add: limiter_invariant_def new_optimizer_def)

lemma optimize_groups_append:
  "optimize_groups w (earlier @ later) algorithm results saved count0 st =
     (case optimize_groups w earlier algorithm results saved count0 st of
        (Inl e, st1) \<Rightarrow> (Inl e, st1)
      | (Inr (results1, saved1, count1), st1) \<Rightarrow>
          optimize_groups w later algorithm results1 saved1 count1 st1)"
proof (induction earlier arbitrary: results saved count0 st)
  case Nil
  then show ?case by simp
next
  case (Cons g earlier)
  obtain route_id stops where g: "g = (route_id, stops)" by (cases g)
  show ?case
  proof (cases "1 < length stops")
    case False
    then show ?thesis unfolding g by (simp add: Cons.IH)
  next
    case True
    obtain r st1 where o: "optimize_route_stops w stops algorithm st = (r, st1)"
      by (cases "optimize_route_stops w stops algorithm st")
    show ?thesis unfolding g using True o by (cases r) (auto simp: Cons.IH)
  qed
qed

lemma optimize_groups_ids:
  "optimize_groups w routes algorithm results saved count0 st = (Inr (results', saved', count'), st') \<Longrightarrow>
     map fst results' = map fst results @ map fst routes"
proof (induction routes arbitrary: results saved count0 st)
  case Nil
  then show ?case by simp
next
  case (Cons g routes)
  obtain route_id stops where g: "g = (route_id, stops)" by (cases g)
  show ?case
  proof (cases "1 < length stops")
    case False
    with Cons.prems have "optimize_groups w routes algorithm
          (results @ [(route_id,
             \<lparr>r_route_id = Some route_id, r_stops = Some stops,
              r_original_order = [0], r_optimized_order = [0],
              r_original_distance = 0, r_optimized_distance = 0, r_distance_saved = 0,
              r_improvement_pct = 0, r_algorithm_used = ''No optimization needed'',
              r_processing_time = 0, r_stops_count = 1,
              r_original_segments = None, r_optimized_segments = None\<rparr>)])
          saved count0 st = (Inr (results', saved', count'), st')"
      unfolding g by simp
    from Cons.IH[OF this] show ?thesis unfolding g by simp
  next
    case True
    obtain r st1 where o: "optimize_route_stops w stops algorithm st = (r, st1)"
      by (cases "optimize_route_stops w stops algorithm st")
    show ?thesis
    proof (cases r)
      case (Inl e)
      with Cons.prems True o show ?thesis unfolding g by simp
    next
      case (Inr both)
      obtain res located where both: "both = (res, located)" by (cases both)
      with Inr Cons.prems True o have "optimize_groups w routes algorithm
               (results @ [(route_id, res\<lparr>r_route_id := Some route_id, r_stops := Some located\<rparr>)])
               (saved + r_distance_saved res) (count0 + r_stops_count res) st1
           = (Inr (results', saved', count'), st')"
        unfolding g by simp
      from Cons.IH[OF this] show ?thesis unfolding g by simp
    qed
  qed
qed

lemma optimize_route_fails:
  "fst (optimize_route w stops algorithm st) = Inl e \<Longrightarrow>
     optimize_route_stops w stops algorithm st = (Inl e, snd (optimize_route w stops algorithm st))"
  by (cases "optimize_route_stops w stops algorithm st")
     (auto simp: optimize_route_def split: sum.splits)

lemma batch_aborts:
  assumes e: "optimize_groups w earlier algorithm [] 0 0 st = (Inr (results, saved, count0), st1)"
    and l: "1 < length stops" and f: "fst (optimize_route w stops algorithm st1) = Inl e"
  shows "optimize_multiple_routes w (earlier @ (route_id, stops) # later) algorithm st
           = (Inl e, snd (optimize_route w stops algorithm st1))"
proof -
  have "optimize_groups w ((route_id, stops) # later) algorithm results saved count0 st1
      = (Inl e, snd (optimize_route w stops algorithm st1))"
    using l by (simp add: optimize_route_fails[OF f])
  then show ?thesis
    unfolding optimize_multiple_routes_def Let_def optimize_groups_append e by simp
qed

lemma batch_returns:
  assumes "optimize_multiple_routes w routes algorithm st = (Inr (batch_summary, results), st1)"
  shows "\<exists>saved count0. optimize_groups w routes algorithm [] 0 0 st = (Inr (results, saved, count0), st1)"
proof -
  obtain r st2 where g: "optimize_groups w routes algorithm [] 0 0 st = (r, st2)"
    by (cases "optimize_groups w routes algorithm [] 0 0 st")
  show ?thesis
  proof (cases r)
    case (Inl e)
    with assms g show ?thesis by (simp add: optimize_multiple_routes_def)
  next
    case (Inr acc)
    obtain res saved count0 where acc: "acc = (res, saved, count0)" by (cases acc)
    from assms g Inr acc show ?thesis
      by (simp add: optimize_multiple_routes_def Let_def)
  qed
qed

lemma batch_ids:
  assumes "fst (optimize_multiple_routes w routes algorithm st) = Inr (summary, results)"
  shows "map fst results = map fst routes"
proof -
  obtain r st1 where g: "optimize_groups w routes algorithm [] 0 0 st = (r, st1)"
    by (cases "optimize_groups w routes algorithm [] 0 0 st")
  show ?thesis
  proof (cases r)
    case (Inl e)
    with assms g show ?thesis by (simp add: optimize_multiple_routes_def)
  next
    case (Inr acc)
    obtain res saved count0 where acc: "acc = (res, saved, count0)" by (cases acc)
    from assms g Inr acc have "results = res"
      by (simp add: optimize_multiple_routes_def Let_def)
    with optimize_groups_ids[OF g[unfolded Inr acc]] show ?thesis by simp
  qed
qed

lemmas evaluation_rules = create_distance_matrix_def get_coordinates_def geocode_address_def
  full_address_of_def fallback_address_of_def py_strip_def is_space_def py_lower_def
  ascii_lower_def codepoints_def encodable_def geocoding_get_coordinates_def
  geocode_attempts_def geocoding_store_coordinates_def hash_address_def
  calculate_distance_def calculate_road_distance_def get_route_def hash_route_def
  six_decimals_def round_half_even_def reset_minute_counter_def sleep_for_spacing_def
  count_api_call_def store_route_def Let_def fresh_optimizer_def new_optimizer_def stop_in_def
  upt_rec optimize_route_def optimize_route_stops_def apply_algorithm_def
  calculate_route_distance_def matrix_get_def py_index_def py_range_def get_route_segments_def
  py_round_def

lemma line_world_unknown_algorithm:
  "fst (optimize_route line_world line_stops ''fastest'' fresh_optimizer) = Inl ValueError"
  by (simp add: evaluation_rules line_world_def line_stops_def)

lemma round_half_even_mono: "x \<le> y \<Longrightarrow> round_half_even x \<le> round_half_even y"
proof -
  assume xy: "x \<le> y"
  have fx: "of_int \<lfloor>x\<rfloor> \<le> x" "x < of_int \<lfloor>x\<rfloor> + 1" by linarith+
  have fy: "of_int \<lfloor>y\<rfloor> \<le> y" "y < of_int \<lfloor>y\<rfloor> + 1" by linarith+
  have lo: "\<lfloor>x\<rfloor> \<le> round_half_even x" "round_half_even x \<le> \<lfloor>x\<rfloor> + 1"
    by (auto simp: round_half_even_def Let_def)
  have loy: "\<lfloor>y\<rfloor> \<le> round_half_even y"
    by (auto simp: round_half_even_def Let_def)
  show ?thesis
  proof (cases "\<lfloor>x\<rfloor> < \<lfloor>y\<rfloor>")
    case True
    with lo loy show ?thesis by linarith
  next
    case False
    with xy have eq: "\<lfloor>x\<rfloor> = \<lfloor>y\<rfloor>" using floor_mono[of x y] by linarith
    then show ?thesis using xy
      by (auto simp: round_half_even_def Let_def)
  qed
qed

lemma py_round_mono: "x \<le> y \<Longrightarrow> py_round x n \<le> py_round y n"
proof -
  assume "x \<le> y"
  then have "x * 10 ^ n \<le> y * 10 ^ n" by simp
  from round_half_even_mono[OF this] show ?thesis
    unfolding py_round_def by (simp add: divide_right_mono)
qed

lemma two_opt_not_longer:
  assumes t: "two_opt route dm mi = Inr (best_route, improved)"
    and d0: "calculate_route_distance route dm = Inr d0"
  shows "\<exists>d. calculate_route_distance best_route dm = Inr d \<and> d \<le> d0"
proof (cases "length route \<le> 3")
  case True
  with t d0 show ?thesis by (simp add: two_opt_def)
next
  case False
  with t d0 obtain its where
    "two_opt_loop mi 0 route route d0 False dm = Inr (best_route, improved, its)"
    by (auto simp: two_opt_def split: sum.splits)
  from two_opt_loop_inv[OF this refl d0] show ?thesis by blast
qed

lemma optimize_route_parts:
  assumes r: "fst (optimize_route w stops algorithm st) = Inr result" and n: "1 < length stops"
  shows "\<exists>dm located st1 original_distance optimized_order label optimized_distance.
           create_distance_matrix w stops st = (Inr (dm, located), st1) \<and>
           calculate_route_distance (py_range (length stops)) dm = Inr original_distance \<and>
           apply_algorithm algorithm (py_range (length stops)) dm = Inr (optimized_order, label) \<and>
           calculate_route_distance optimized_order dm = Inr optimized_distance \<and>
           r_original_distance result = py_round original_distance 2 \<and>
           r_optimized_distance result = py_round optimized_distance 2 \<and>
           r_optimized_order result = optimized_order"
proof -
  obtain c st1 where c: "create_distance_matrix w stops st = (c, st1)"
    by (cases "create_distance_matrix w stops st")
  from r n c obtain dm located where cr: "c = Inr (dm, located)"
    by (cases c) (auto simp: optimize_route_def optimize_route_stops_def Let_def)
  from r n c cr obtain od where od: "calculate_route_distance (py_range (length stops)) dm = Inr od"
    by (cases "calculate_route_distance (py_range (length stops)) dm :: error + real")
       (auto simp: optimize_route_def optimize_route_stops_def Let_def)
  from r n c cr od obtain oo label where
    al: "apply_algorithm algorithm (py_range (length stops)) dm = Inr (oo, label)"
    by (cases "apply_algorithm algorithm (py_range (length stops)) dm")
       (auto simp: optimize_route_def optimize_route_stops_def Let_def)
  from r n c cr od al obtain optd where optd: "calculate_route_distance oo dm = Inr optd"
    by (cases "calculate_route_distance oo dm :: error + real")
       (auto simp: optimize_route_def optimize_route_stops_def Let_def)
  obtain s1 st2 where s1: "get_route_segments w located (py_range (length stops)) st1 = (s1, st2)"
    by (cases "get_route_segments w located (py_range (length stops)) st1")
  from r n c cr od al optd s1 obtain seg1 where seg1: "s1 = Inr seg1"
    by (cases s1) (auto simp: optimize_route_def optimize_route_stops_def Let_def)
  obtain s2 st3 where s2: "get_route_segments w located oo st2 = (s2, st3)"
    by (cases "get_route_segments w located oo st2")
  from r n c cr od al optd s1 seg1 s2 obtain seg2 where seg2: "s2 = Inr seg2"
    by (cases s2) (auto simp: optimize_route_def optimize_route_stops_def Let_def)
  from r n c cr od al optd s1 seg1 s2 seg2
  have "r_original_distance result = py_round od 2 \<and> r_optimized_distance result = py_round optd 2 \<and>
        r_optimized_order result = oo"
    by (auto simp: optimize_route_def optimize_route_stops_def Let_def)
  with c cr od al optd show ?thesis by blast
qed

lemma line_nearest_neighbor:
  "nearest_neighbor [[0, 2, 1, 3], [2, 0, 3, 5], [1, 3, 0, 2], [3, 5, 2, 0 :: real]] 0 = Inr [0, 2, 3, 1]"
  by code_simp

lemma line_two_opt_after_nearest_neighbor:
  "two_opt [0, 2, 3, 1] [[0, 2, 1, 3], [2, 0, 3, 5], [1, 3, 0, 2], [3, 5, 2, 0 :: real]] 1000
     = Inr ([0, 2, 3, 1], False)"
  by code_simp

lemma line_two_opt_alone:
  "two_opt [0, 1, 2, 3] [[0, 2, 1, 3], [2, 0, 3, 5], [1, 3, 0, 2], [3, 5, 2, 0 :: real]] 1000
     = Inr ([0, 1, 2, 3], False)"
  by code_simp

lemmas line_rules = line_world_def line_stops_def line_nearest_neighbor
  line_two_opt_after_nearest_neighbor line_two_opt_alone

lemma line_world_both:
  "\<exists>result. fst (optimize_route line_world line_stops ''both'' fresh_optimizer) = Inr result \<and>
     r_original_distance result = 7 \<and> r_optimized_distance result = 8 \<and>
     r_optimized_order result = [0, 2, 3, 1]"
  by (simp add: evaluation_rules line_rules)

lemma line_world_two_opt:
  "\<exists>result. fst (optimize_route line_world line_stops ''2_opt'' fresh_optimizer) = Inr result \<and>
     r_original_distance result = 7 \<and> r_optimized_distance result = 7"
  by (simp add: evaluation_rules line_rules)

lemma two_opt_not_longer_start:
  assumes t: "two_opt route dm mi = Inr (best_route, improved)"
    and d: "calculate_route_distance best_route dm = Inr d"
  shows "\<exists>d0. calculate_route_distance route dm = Inr d0 \<and> d \<le> d0"
proof (cases "length route \<le> 3")
  case True
  with t d show ?thesis by (simp add: two_opt_def)
next
  case False
  with t obtain d0 where d0: "calculate_route_distance route dm = Inr d0"
    by (auto simp: two_opt_def split: sum.splits)
  from two_opt_not_longer[OF t d0] d d0 show ?thesis by auto
qed

lemma py_atan2_nonneg: "0 \<le> y \<Longrightarrow> 0 \<le> x \<Longrightarrow> 0 \<le> py_atan2 y x"
  by (auto simp: py_atan2_def)

lemma calculate_air_distance_nonneg:
  "calculate_air_distance w lat1 lon1 lat2 lon2 = Inr d \<Longrightarrow> 0 \<le> d"
  by (auto simp: calculate_air_distance_def Let_def py_atan2_nonneg split: if_splits)

lemma get_route_nonneg:
  "nonneg_cache st \<Longrightarrow> get_route w a b st = (hit, st') \<Longrightarrow>
     nonneg_cache st' \<and> (\<forall>row. hit = Some row \<longrightarrow> 0 \<le> re_distance_km row)"
  by (auto simp: nonneg_cache_def get_route_def simp del: split_paired_All
      split: if_splits option.splits)

lemma nonneg_cache_limiter [simp]:
  "nonneg_cache (reset_minute_counter st) = nonneg_cache st"
  "nonneg_cache (sleep_for_spacing st) = nonneg_cache st"
  "nonneg_cache (count_api_call st) = nonneg_cache st"
  by (simp_all add: nonneg_cache_def reset_minute_counter_def sleep_for_spacing_def
      count_api_call_def Let_def)

lemma store_route_nonneg:
  "nonneg_cache st \<Longrightarrow> 0 \<le> d \<Longrightarrow> nonneg_cache (store_route w a b d u g st)"
  by (auto simp: nonneg_cache_def store_route_def simp del: split_paired_All)

lemma calculate_road_distance_nonneg:
  assumes w: "nonneg_routes w" and c: "nonneg_cache st"
    and r: "calculate_road_distance w a b st = (res, st')"
  shows "nonneg_cache st' \<and> (\<forall>d. res = Some d \<longrightarrow> 0 \<le> d)"
proof -
  obtain hit st1 where g: "get_route w a b st = (hit, st1)" by (cases "get_route w a b st")
  note g1 = get_route_nonneg[OF c g]
  show ?thesis
  proof (cases hit)
    case (Some row)
    with r g g1 show ?thesis by (auto simp: calculate_road_distance_def)
  next
    case None
    let ?st3 = "count_api_call (sleep_for_spacing (reset_minute_counter st1))"
    have c3: "nonneg_cache ?st3" using g1 by simp
    show ?thesis
    proof (cases "directions w (clock ?st3) a b")
      case (Directions metres seconds geometry)
      with w have "0 \<le> metres" unfolding nonneg_routes_def by blast
      then have "0 \<le> metres / 1000" by simp
      from store_route_nonneg[OF c3 this, of w a b "seconds / 60" geometry] this r g None
        Directions g1
      show ?thesis
        by (auto simp: calculate_road_distance_def Let_def split: if_splits)
    next
      case NoFeatures
      with r g None g1 show ?thesis
        by (auto simp: calculate_road_distance_def Let_def split: if_splits)
    next
      case DirectionsError
      with r g None g1 show ?thesis
        by (auto simp: calculate_road_distance_def Let_def split: if_splits)
    qed
  qed
qed

lemma calculate_distance_nonneg:
  assumes w: "nonneg_routes w" and c: "nonneg_cache st"
    and r: "calculate_distance w lat1 lon1 lat2 lon2 st = (res, st')"
  shows "nonneg_cache st' \<and> (\<forall>d. res = Inr d \<longrightarrow> 0 \<le> d)"
proof (cases "ors_client st")
  case False
  with r c show ?thesis
    by (auto simp: calculate_distance_def dest: calculate_air_distance_nonneg)
next
  case True
  obtain road st1 where rd: "calculate_road_distance w (lat1, lon1) (lat2, lon2) st = (road, st1)"
    by (cases "calculate_road_distance w (lat1, lon1) (lat2, lon2) st")
  from calculate_road_distance_nonneg[OF w c rd] r True rd show ?thesis
    by (cases road) (auto simp: calculate_distance_def dest: calculate_air_distance_nonneg)
qed

lemma square_matrix_update:
  "square_matrix n m \<Longrightarrow> i < n \<Longrightarrow> square_matrix n (m[i := (m ! i)[j := d]])"
  unfolding square_matrix_def
  by (auto dest!: set_update_subset_insert[THEN subsetD])

lemma matrix_update_entry:
  "square_matrix n m \<Longrightarrow> i < n \<Longrightarrow> j < n \<Longrightarrow> a < n \<Longrightarrow> b < n \<Longrightarrow>
     (m[i := (m ! i)[j := d]]) ! a ! b = (if a = i \<and> b = j then d else m ! a ! b)"
  unfolding square_matrix_def by (auto simp: nth_list_update)

lemma distance_row_matrix:
  "distance_row w stops i js m st = (Inr m', st') \<Longrightarrow> square_matrix n m \<Longrightarrow> i < n \<Longrightarrow>
   \<forall>j\<in>set js. j < n \<Longrightarrow>
     square_matrix n m' \<and> (\<forall>a<n. m' ! a ! a = m ! a ! a) \<and>
     (nonneg_routes w \<and> nonneg_cache st \<and> (\<forall>a<n. \<forall>b<n. 0 \<le> m ! a ! b) \<longrightarrow>
        nonneg_cache st' \<and> (\<forall>a<n. \<forall>b<n. 0 \<le> m' ! a ! b))"
proof (induction js arbitrary: m st)
  case Nil
  then show ?case by simp
next
  case (Cons j js)
  from Cons.prems have j: "j < n" and js: "\<forall>j\<in>set js. j < n" by auto
  show ?case
  proof (cases "i = j")
    case True
    with Cons.prems have "distance_row w stops i js m st = (Inr m', st')" by simp
    from Cons.IH[OF this Cons.prems(2,3) js] show ?thesis .
  next
    case False
    from Cons.prems(1) False obtain ci cj where
      ci: "stop_coordinates (stops ! i) = Some ci" and cj: "stop_coordinates (stops ! j) = Some cj"
      by (auto split: option.splits)
    let ?st1 = "if ors_client st then snd (get_route w ci cj st) else st"
    obtain res st2 where cd: "calculate_distance w (fst ci) (snd ci) (fst cj) (snd cj) ?st1 = (res, st2)"
      by (cases "calculate_distance w (fst ci) (snd ci) (fst cj) (snd cj) ?st1")
    from Cons.prems(1) False ci cj cd obtain d where d: "res = Inr d"
      by (cases res) (auto simp: Let_def)
    let ?m1 = "m[i := (m ! i)[j := d]]"
    from Cons.prems(1) False ci cj cd d
    have rest: "distance_row w stops i js ?m1 st2 = (Inr m', st')" by (simp add: Let_def)
    note sq1 = square_matrix_update[OF Cons.prems(2,3), of j d]
    note ih = Cons.IH[OF rest sq1 Cons.prems(3) js]
    have diag: "\<forall>a<n. ?m1 ! a ! a = m ! a ! a"
      using matrix_update_entry[OF Cons.prems(2,3) j] False by auto
    have nn: "nonneg_routes w \<and> nonneg_cache st \<and> (\<forall>a<n. \<forall>b<n. 0 \<le> m ! a ! b) \<longrightarrow>
        nonneg_cache st2 \<and> (\<forall>a<n. \<forall>b<n. 0 \<le> ?m1 ! a ! b)"
    proof
      assume a: "nonneg_routes w \<and> nonneg_cache st \<and> (\<forall>a<n. \<forall>b<n. 0 \<le> m ! a ! b)"
      have "nonneg_cache ?st1"
        using a get_route_nonneg[of st w ci cj "fst (get_route w ci cj st)" "snd (get_route w ci cj st)"]
        by auto
      from calculate_distance_nonneg[OF _ this cd] a d have c2: "nonneg_cache st2" and d0: "0 \<le> d"
        by auto
      have "\<forall>a<n. \<forall>b<n. 0 \<le> ?m1 ! a ! b"
        using matrix_update_entry[OF Cons.prems(2,3) j] a d0 by auto
      with c2 show "nonneg_cache st2 \<and> (\<forall>a<n. \<forall>b<n. 0 \<le> ?m1 ! a ! b)" by simp
    qed
    from ih diag nn show ?thesis by auto
  qed
qed

lemma distance_rows_matrix:
  "distance_rows w stops is n m st = (Inr m', st') \<Longrightarrow> square_matrix n m \<Longrightarrow>
   \<forall>i\<in>set is. i < n \<Longrightarrow>
     square_matrix n m' \<and> (\<forall>a<n. m' ! a ! a = m ! a ! a) \<and>
     (nonneg_routes w \<and> nonneg_cache st \<and> (\<forall>a<n. \<forall>b<n. 0 \<le> m ! a ! b) \<longrightarrow>
        nonneg_cache st' \<and> (\<forall>a<n. \<forall>b<n. 0 \<le> m' ! a ! b))"
proof (induction "is" arbitrary: m st)
  case Nil
  then show ?case by simp
next
  case (Cons i "is")
  from Cons.prems have i: "i < n" and rest: "\<forall>i\<in>set is. i < n" by auto
  obtain r1 st1 where r: "distance_row w stops i [0..<n] m st = (r1, st1)"
    by (cases "distance_row w stops i [0..<n] m st")
  from Cons.prems(1) r obtain m1 where m1: "r1 = Inr m1" by (cases r1) auto
  from Cons.prems(1) r m1 have next_rows: "distance_rows w stops is n m1 st1 = (Inr m', st')" by simp
  have "\<forall>j\<in>set [0..<n]. j < n" by simp
  note row = distance_row_matrix[OF r[unfolded m1] Cons.prems(2) i this]
  from Cons.IH[OF next_rows row[THEN conjunct1] rest] row show ?case by auto
qed

lemma geocoding_get_routing:
  "routing_cache (snd (geocoding_get_coordinates w address st)) = routing_cache st"
  by (simp add: geocoding_get_coordinates_def split: option.splits)

lemma geocoding_store_routing:
  "routing_cache (geocoding_store_coordinates w address lat lng st) = routing_cache st"
  by (simp add: geocoding_store_coordinates_def split: option.splits)

lemma geocode_attempts_routing:
  "routing_cache (snd (geocode_attempts w full_address postal_code city st)) = routing_cache st"
proof -
  obtain hit st1 where g: "geocoding_get_coordinates w (fallback_address_of postal_code city) st
      = (hit, st1)"
    by (cases "geocoding_get_coordinates w (fallback_address_of postal_code city) st")
  with geocoding_get_routing[of w "fallback_address_of postal_code city" st]
  have r1: "routing_cache st1 = routing_cache st" by simp
  show ?thesis
    using g
    by (cases "geocode w full_address"; cases hit;
        cases "geocode w (fallback_address_of postal_code city)")
       (simp_all add: geocode_attempts_def Let_def geocoding_store_routing r1)
qed

lemma geocode_address_routing:
  "routing_cache (snd (geocode_address w street postal_code city st)) = routing_cache st"
proof -
  let ?full = "full_address_of w street postal_code city"
  obtain hit st1 where g: "geocoding_get_coordinates w ?full st = (hit, st1)"
    by (cases "geocoding_get_coordinates w ?full st")
  with geocoding_get_routing[of w ?full st] have r1: "routing_cache st1 = routing_cache st" by simp
  obtain res st2 where a: "geocode_attempts w ?full postal_code city st1 = (res, st2)"
    by (cases "geocode_attempts w ?full postal_code city st1")
  with geocode_attempts_routing[of w ?full postal_code city st1] r1
  have r2: "routing_cache st2 = routing_cache st" by simp
  show ?thesis
    by (cases "session_cache st ?full"; cases hit; cases res)
       (simp_all add: geocode_address_def Let_def g a r1 r2 split: option.splits)
qed

lemma geocode_stops_routing:
  "routing_cache (snd (geocode_stops w stops st)) = routing_cache st"
proof (induction stops arbitrary: st)
  case Nil
  then show ?case by simp
next
  case (Cons s stops)
  let ?full = "py_join (codepoints '', '') (filter (\<lambda>part. part \<noteq> [] \<and> py_strip part \<noteq> [])
      [stop_street s, stop_postal_code s, stop_city s]) @ codepoints '', Germany''"
  obtain hit st1 where g: "geocoding_get_coordinates w ?full st = (hit, st1)"
    by (cases "geocoding_get_coordinates w ?full st")
  with geocoding_get_routing[of w ?full st] have r1: "routing_cache st1 = routing_cache st" by simp
  obtain c st2 where c: "get_coordinates w s st1 = (c, st2)" by (cases "get_coordinates w s st1")
  with geocode_address_routing[of w "stop_street s" "stop_postal_code s" "stop_city s" st1] r1
  have r2: "routing_cache st2 = routing_cache st" by (simp add: get_coordinates_def)
  obtain rest st3 where rest: "geocode_stops w stops st2 = (rest, st3)"
    by (cases "geocode_stops w stops st2")
  with Cons.IH[of st2] r2 have r3: "routing_cache st3 = routing_cache st" by simp
  show ?case
    using g c rest r2 r3 by (cases c; cases rest) (simp_all add: Let_def)
qed

lemma create_distance_matrix_properties:
  assumes r: "fst (create_distance_matrix w stops st) = Inr (dm, located)"
  shows "square_matrix (length stops) dm \<and> (\<forall>i<length stops. dm ! i ! i = 0) \<and>
    (nonneg_routes w \<and> nonneg_cache st \<longrightarrow>
       (\<forall>i<length stops. \<forall>j<length stops. 0 \<le> dm ! i ! j))"
proof -
  define n where "n = length stops"
  let ?m0 = "replicate n (replicate n (0::real))"
  obtain g st1 where g: "geocode_stops w stops st = (g, st1)" by (cases "geocode_stops w stops st")
  from r g obtain loc where loc: "g = Inr loc"
    by (cases g) (auto simp: create_distance_matrix_def Let_def)
  obtain rows st2 where rows: "distance_rows w loc [0..<n] n ?m0 st1 = (rows, st2)"
    by (cases "distance_rows w loc [0..<n] n ?m0 st1")
  from r g loc rows have rows_eq: "rows = Inr dm"
    by (cases rows) (auto simp: create_distance_matrix_def Let_def n_def)
  have sq0: "square_matrix n ?m0" by (simp add: square_matrix_def)
  have "\<forall>i\<in>set [0..<n]. i < n" by simp
  note m = distance_rows_matrix[OF rows[unfolded rows_eq] sq0 this]
  have c1: "routing_cache st1 = routing_cache st"
    using geocode_stops_routing[of w stops st] g by simp
  have z: "\<forall>a<n. \<forall>b<n. ?m0 ! a ! b = 0" by simp
  from m z have diag: "\<forall>i<n. dm ! i ! i = 0" by simp
  have "nonneg_routes w \<and> nonneg_cache st \<longrightarrow> (\<forall>i<n. \<forall>j<n. 0 \<le> dm ! i ! j)"
  proof
    assume a: "nonneg_routes w \<and> nonneg_cache st"
    with c1 have "nonneg_cache st1" by (simp add: nonneg_cache_def)
    with a m z show "\<forall>i<n. \<forall>j<n. 0 \<le> dm ! i ! j" by simp
  qed
  with m diag show ?thesis unfolding n_def by blast
qed

lemma negative_route_matrix:
  "\<exists>located. fst (create_distance_matrix world_with_negative_route [stop_in ''A'', stop_in ''B'']
      fresh_optimizer) = Inr ([[0, - 1], [- 1, 0]], located)"
  by (simp add: evaluation_rules world_with_negative_route_def)

lemma line_world_matrix:
  "\<exists>located. fst (create_distance_matrix line_world line_stops fresh_optimizer)
     = Inr ([[0, 2, 1, 3], [2, 0, 3, 5], [1, 3, 0, 2], [3, 5, 2, 0]], located)"
  by (simp add: evaluation_rules line_rules)

lemma line_world_nonneg: "nonneg_routes line_world \<and> nonneg_cache fresh_optimizer"
  by (simp add: nonneg_routes_def nonneg_cache_def line_world_def fresh_optimizer_def
      new_optimizer_def)

lemmas address_rules = full_address_of_def fallback_address_of_def py_strip_def is_space_def
  py_lower_def ascii_lower_def codepoints_def encodable_def hash_address_def Let_def
  cached_coordinates_def attempts_fail_def is_located_def fresh_optimizer_def new_optimizer_def

text \<open>
  The fallback of \<open>calculate_distance\<close> against the formula of the specification. For
  a haversine \<open>h\<close> between 0 and 1 the arc tangent of the source is the arc sine of the
  formula.
\<close>

lemma py_atan2_arcsin:
  assumes "0 \<le> h" "h \<le> 1"
  shows "py_atan2 (sqrt h) (sqrt (1 - h)) = arcsin (sqrt h)"
proof (cases "h = 1")
  case True
  then show ?thesis by (simp add: py_atan2_def)
next
  case False
  with assms have lt: "h < 1" by simp
  let ?x = "sqrt h / sqrt (1 - h)"
  have pos: "0 < sqrt (1 - h)" using lt by simp
  have "1 + ?x\<^sup>2 = 1 / (1 - h)"
    using assms lt by (simp add: field_simps)
  then have "sqrt (1 + ?x\<^sup>2) = 1 / sqrt (1 - h)"
    by (simp add: real_sqrt_divide)
  then have "sin (arctan ?x) = sqrt h"
    using pos by (simp add: sin_arctan)
  then have "arcsin (sqrt h) = arcsin (sin (arctan ?x))" by simp
  also have "\<dots> = arctan ?x"
    using arctan_lbound[of ?x] arctan_ubound[of ?x] by (intro arcsin_sin) linarith+
  finally show ?thesis using pos by (simp add: py_atan2_def)
qed

lemma haversine_term_radians:
  "(sin ((radians lat2 - radians lat1) / 2))\<^sup>2
     + cos (radians lat1) * cos (radians lat2) * (sin ((radians lon2 - radians lon1) / 2))\<^sup>2
   = haversine_term lat1 lon1 lat2 lon2"
proof -
  have e: "(lat2 * pi / 180 - lat1 * pi / 180) / 2 = (lat2 - lat1) * pi / 360"
    "(lon2 * pi / 180 - lon1 * pi / 180) / 2 = (lon2 - lon1) * pi / 360"
    by (simp_all add: field_simps)
  show ?thesis by (simp only: haversine_term_def radians_def e)
qed

lemma calculate_air_distance_great_circle:
  "calculate_air_distance w lat1 lon1 lat2 lon2 =
     (if 0 \<le> haversine_term lat1 lon1 lat2 lon2 + haversine_rounding w lat1 lon1 lat2 lon2 \<and>
         haversine_term lat1 lon1 lat2 lon2 + haversine_rounding w lat1 lon1 lat2 lon2 \<le> 1
      then Inr (great_circle_km
                  (haversine_term lat1 lon1 lat2 lon2 + haversine_rounding w lat1 lon1 lat2 lon2))
      else Inl ValueError)"
  unfolding calculate_air_distance_def Let_def haversine_term_radians great_circle_km_def
  by (auto simp: py_atan2_arcsin)

lemma calculate_distance_without_route:
  assumes miss: "routing_db_ok w \<longrightarrow> routing_cache st (hash_route (lat1, lon1) (lat2, lon2)) = None"
    and fail: "routing_fails w st (lat1, lon1) (lat2, lon2)"
  shows "fst (calculate_distance w lat1 lon1 lat2 lon2 st) =
     (if 0 \<le> haversine_term lat1 lon1 lat2 lon2 + haversine_rounding w lat1 lon1 lat2 lon2 \<and>
         haversine_term lat1 lon1 lat2 lon2 + haversine_rounding w lat1 lon1 lat2 lon2 \<le> 1
      then Inr (great_circle_km
                  (haversine_term lat1 lon1 lat2 lon2 + haversine_rounding w lat1 lon1 lat2 lon2))
      else Inl ValueError)"
    and "routing_cache (snd (calculate_distance w lat1 lon1 lat2 lon2 st)) = routing_cache st"
  using calculate_distance_failure[OF miss fail]
  by (simp_all add: calculate_air_distance_great_circle)

lemma antipodes_haversine: "haversine_term 8 0 (- 8) 180 = 1"
proof -
  have "haversine_term 8 0 (- 8) 180 = (sin (2 * pi / 45))\<^sup>2 + (cos (2 * pi / 45))\<^sup>2"
    by (simp add: haversine_term_def power2_eq_square)
  then show ?thesis by simp
qed

lemma pair_nearest_neighbor: "nearest_neighbor [[0, 2], [2, 0 :: real]] 0 = Inr [0, 1]"
  by code_simp

lemma pair_two_opt: "two_opt [0, 1] [[0, 2], [2, 0 :: real]] 1000 = Inr ([0, 1], False)"
  by code_simp

lemma far_air_distance: "calculate_air_distance far_world 8 0 (- 8) 180 = Inl ValueError"
  unfolding calculate_air_distance_great_circle antipodes_haversine
  by (simp add: far_world_def)

lemma far_world_fields:
  "geocode far_world = (\<lambda>address.
         if address = codepoints ''A, Germany'' then Located 0 0
         else if address = codepoints ''B, Germany'' then Located 2 0
         else if address = codepoints ''C, Germany'' then Located (- 1) 0
         else if address = codepoints ''D, Germany'' then Located (- 3) 0
         else if address = codepoints ''P, Germany'' then Located 8 0
         else if address = codepoints ''Q, Germany'' then Located (- 8) 180
         else NoMatch)"
  "directions far_world = (\<lambda>t from_coords to_coords.
         if snd from_coords = snd to_coords
         then Directions (1000 * \<bar>fst from_coords - fst to_coords\<bar>) 60 (Some ''{}'')
         else DirectionsError)"
  "json_loads far_world = (\<lambda>text. JsonValue)"
  "geocoding_db_ok far_world" "routing_db_ok far_world"
  "unicode_lower far_world = map ascii_lower"
  by (simp_all add: far_world_def)

lemmas far_rules = far_world_fields line_stops_def far_stops_def line_nearest_neighbor
  line_two_opt_after_nearest_neighbor line_two_opt_alone pair_nearest_neighbor pair_two_opt
  far_air_distance

lemma far_route_fails:
  "fst (optimize_route far_world far_stops ''both'' fresh_optimizer) = Inl ValueError"
  by (simp add: evaluation_rules far_rules)

lemma far_batch_fails:
  "fst (optimize_multiple_routes far_world
     [(''R1'', line_stops), (''R2'', far_stops), (''R3'', [stop_in ''C'', stop_in ''D''])]
     ''both'' fresh_optimizer) = Inl ValueError"
  by (simp add: evaluation_rules far_rules optimize_multiple_routes_def)

lemma far_batch_returns:
  "\<not> isl (fst (optimize_multiple_routes far_world
     [(''R1'', line_stops), (''R3'', [stop_in ''C'', stop_in ''D''])]
     ''both'' fresh_optimizer))"
  by (simp add: evaluation_rules far_rules optimize_multiple_routes_def)


lemma far_batch_parts:
  "\<exists>s r st1. optimize_multiple_routes far_world [(''R1'', line_stops)] ''both'' fresh_optimizer
       = (Inr (s, r), st1) \<and>
     fst (optimize_route far_world far_stops ''both'' st1) = Inl ValueError"
  by (simp add: evaluation_rules far_rules optimize_multiple_routes_def)


section \<open>The claims about the search\<close>

text \<open>
  C4. The route distance of the primary engine is the cost of the open path: the edges
  between consecutive stops, and no edge from the last stop back to the first. The
  route distance of the embedded variant is the cost of the closed tour: over the same
  pairwise distances it is the open-path cost plus the edge from the last stop back to
  the first. On the route \<open>[0, 1]\<close> with distance 1 in both directions the primary
  engine returns 1 and the embedded variant returns 2.
\<close>

theorem route_distance_open_versus_closed:
  "(square_matrix n distance_matrix \<and> (\<forall>x\<in>set route_order. x < n) \<and> distinct route_order \<and>
      2 \<le> length route_order \<and>
      (\<forall>i<n. \<forall>j<n. i \<noteq> j \<longrightarrow> distances (i, j) = Some (distance_matrix ! i ! j)) \<longrightarrow>
      (\<exists>t. calculate_route_distance (map int route_order) distance_matrix = Inr t \<and>
           calculate_route_distance_embedded distances route_order =
             Inr (t + distance_matrix ! last route_order ! hd route_order))) \<and>
   calculate_route_distance [0, 1] [[0, 1], [1, 0 :: int]] = Inr 1 \<and>
   calculate_route_distance_embedded [(0, 1) \<mapsto> 1, (1, 0) \<mapsto> 1 :: int] [0, 1] = Inr 2"
proof (intro conjI impI)
  assume a: "square_matrix n distance_matrix \<and> (\<forall>x\<in>set route_order. x < n) \<and>
      distinct route_order \<and> 2 \<le> length route_order \<and>
      (\<forall>i<n. \<forall>j<n. i \<noteq> j \<longrightarrow> distances (i, j) = Some (distance_matrix ! i ! j))"
  then show "\<exists>t. calculate_route_distance (map int route_order) distance_matrix = Inr t \<and>
           calculate_route_distance_embedded distances route_order =
             Inr (t + distance_matrix ! last route_order ! hd route_order)"
    using closed_is_open_plus_wrap[of n distance_matrix route_order distances] by blast
next
  show "calculate_route_distance [0, 1] [[0, 1], [1, 0 :: int]] = Inr 1"
    by (simp add: calculate_route_distance_def matrix_get_def py_index_def)
next
  show "calculate_route_distance_embedded [(0, 1) \<mapsto> 1, (1, 0) \<mapsto> 1 :: int] [0, 1] = Inr 2"
    by (simp add: calculate_route_distance_embedded_def Let_def upt_rec)
qed

theorem route_distance_open_versus_closed_witness:
  "square_matrix 2 [[0, 1], [1, 0 :: int]] \<and> distinct [0, 1 :: nat] \<and>
   (\<exists>t. calculate_route_distance (map int [0, 1]) [[0, 1], [1, 0 :: int]] = Inr t \<and>
        calculate_route_distance_embedded [(0, 1) \<mapsto> 1, (1, 0) \<mapsto> 1 :: int] [0, 1] =
          Inr (t + [[0, 1], [1, 0 :: int]] ! last [0, 1 :: nat] ! hd [0, 1 :: nat]))"
proof -
  have sq: "square_matrix 2 [[0, 1], [1, 0 :: int]]" by (simp add: square_matrix_def)
  have ag: "\<forall>i<2. \<forall>j<2. i \<noteq> j \<longrightarrow>
      [(0, 1) \<mapsto> 1, (1, 0) \<mapsto> 1 :: int] (i, j) = Some ([[0, 1], [1, 0 :: int]] ! i ! j)"
    by (auto simp: less_Suc_eq numeral_2_eq_2)
  have h: "square_matrix 2 [[0, 1], [1, 0 :: int]] \<and> (\<forall>x\<in>set [0, 1 :: nat]. x < 2) \<and>
      distinct [0, 1 :: nat] \<and> 2 \<le> length [0, 1 :: nat] \<and>
      (\<forall>i<2. \<forall>j<2. i \<noteq> j \<longrightarrow>
        [(0, 1) \<mapsto> 1, (1, 0) \<mapsto> 1 :: int] (i, j) = Some ([[0, 1], [1, 0 :: int]] ! i ! j))"
    using sq ag by simp
  from route_distance_open_versus_closed
    [of 2 "[[0, 1], [1, 0 :: int]]" "[0, 1]" "[(0, 1) \<mapsto> 1, (1, 0) \<mapsto> 1 :: int]",
     THEN conjunct1, THEN mp, OF h]
  show ?thesis using sq by simp
qed

text \<open>
  C5. On an n by n distance matrix with n at least 1 and a start index in range,
  \<open>nearest_neighbor\<close> returns a route; the route is a permutation of the indices
  \<open>0..n-1\<close>, it begins at the start index, and every step goes to the index not yet
  visited that has the least distance from the current one, the lowest such index when
  several have that distance.
\<close>

theorem nearest_neighbor_greedy_permutation:
  assumes sq: "square_matrix n distance_matrix" and n: "1 \<le> n"
    and s: "0 \<le> start_index" "start_index < int n"
  shows "\<exists>route. nearest_neighbor distance_matrix start_index = Inr route \<and>
           mset route = mset (py_range n) \<and> hd route = start_index \<and>
           (\<forall>k. k + 1 < n \<longrightarrow> greedy_step distance_matrix (set (py_range n)) route k)"
proof (cases "n \<le> 1")
  case True
  with n have n1: "n = 1" by simp
  with s have "start_index = 0" by simp
  with n1 sq show ?thesis
    unfolding nearest_neighbor_def square_matrix_def py_range_def by (simp add: Let_def)
next
  case False
  let ?u = "remove1 start_index (py_range n)"
  have mem: "start_index \<in> set (py_range n)" using s py_range_props(2) by simp
  then have rm: "set_remove (py_range n) start_index = Inr ?u" by (simp add: set_remove_def)
  have su: "set ?u = {0..<int n} - {start_index}" using py_range_props(2,3)[of n] by simp
  have p2: "sorted_wrt (<) ?u"
    using py_range_props(1,3)[of n] by (simp add: strict_sorted_iff sorted_remove1)
  have p3: "set ?u \<subseteq> {0..<int n}" using su by auto
  have p8: "set [start_index] \<inter> set ?u = {}" using su by auto
  have "\<exists>res. nearest_neighbor_loop distance_matrix ?u [start_index] start_index = Inr res \<and>
      mset res = mset [start_index] + mset ?u \<and> take (length [start_index]) res = [start_index] \<and>
      (\<forall>k. length [start_index] \<le> k + 1 \<and> k + 1 < length res \<longrightarrow>
         greedy_step distance_matrix (set [start_index] \<union> set ?u) res k)"
    by (rule nearest_neighbor_loop_spec[OF sq p2 p3 s _ _ p8]) simp_all
  then obtain res where res:
    "nearest_neighbor_loop distance_matrix ?u [start_index] start_index = Inr res"
    "mset res = mset [start_index] + mset ?u"
    "take (length [start_index]) res = [start_index]"
    "\<forall>k. length [start_index] \<le> k + 1 \<and> k + 1 < length res \<longrightarrow>
         greedy_step distance_matrix (set [start_index] \<union> set ?u) res k"
    by blast
  have run: "nearest_neighbor distance_matrix start_index = Inr res"
    using False sq rm res(1) unfolding nearest_neighbor_def square_matrix_def by (simp add: Let_def)
  have ms: "mset res = mset (py_range n)" using res(2) mem by simp
  then have "size (mset res) = size (mset (py_range n))" by (rule arg_cong)
  then have len: "length res = n" by (simp add: py_range_def)
  have h: "hd res = start_index" using res(3) by (cases res) auto
  have U: "set [start_index] \<union> set ?u = set (py_range n)" 
    using mem by (simp add: su py_range_props(2) insert_absorb)
  have "\<forall>k. k + 1 < n \<longrightarrow> greedy_step distance_matrix (set (py_range n)) res k"
    using res(4) len U by simp
  with run ms h show ?thesis by blast
qed


theorem nearest_neighbor_greedy_permutation_witness:
  "square_matrix 4 line_matrix \<and> nearest_neighbor line_matrix 0 = Inr [0, 2, 3, 1] \<and>
   mset [0, 2, 3, 1] = mset (py_range 4) \<and> hd [0, 2, 3, 1 :: int] = 0 \<and>
   greedy_step line_matrix (set (py_range 4)) [0, 2, 3, 1] 0 \<and>
   greedy_step line_matrix (set (py_range 4)) [0, 2, 3, 1] 1 \<and>
   greedy_step line_matrix (set (py_range 4)) [0, 2, 3, 1] 2"
proof -
  have sq: "square_matrix 4 line_matrix" by (simp add: square_matrix_def line_matrix_def)
  have run: "nearest_neighbor line_matrix 0 = Inr [0, 2, 3, 1]" by code_simp
  from nearest_neighbor_greedy_permutation[OF sq, of 0]
  obtain route where r: "nearest_neighbor line_matrix 0 = Inr route"
    "mset route = mset (py_range 4)" "hd route = 0"
    "\<forall>k. k + 1 < 4 \<longrightarrow> greedy_step line_matrix (set (py_range 4)) route k"
    by auto
  from r(1) run have eq: "route = [0, 2, 3, 1]" by simp
  from r(4) have "greedy_step line_matrix (set (py_range 4)) route 0"
    "greedy_step line_matrix (set (py_range 4)) route 1"
    "greedy_step line_matrix (set (py_range 4)) route 2" by simp_all
  with sq run r(2,3) show ?thesis unfolding eq by simp
qed



text \<open>
  C10. The route that 2-opt returns has exactly the elements of its input, each as
  often as the input has it: for \<open>two_opt\<close> of the primary engine, and for the stops
  that \<open>optimize_route_2opt\<close> of the embedded variant returns.
\<close>

theorem two_opt_keeps_the_stops:
  "(two_opt route distance_matrix max_iterations = Inr (best_route, improved) \<longrightarrow>
      mset best_route = mset route) \<and>
   (optimize_route_2opt haversine_distance stops_with_coords
      = Inr (optimized_stops, distance_saved, current_distance) \<longrightarrow>
      mset optimized_stops = mset stops_with_coords)"
  using two_opt_perm optimize_route_2opt_perm by blast

theorem two_opt_keeps_the_stops_witness:
  "two_opt [0, 2, 1, 3] line_matrix 1000 = Inr ([0, 1, 2, 3], True) \<and>
   mset [0, 1, 2, 3 :: int] = mset [0, 2, 1, 3] \<and>
   optimize_route_2opt line_distance [stop_at 1 0, stop_at 2 2, stop_at 3 1, stop_at 4 3]
     = Inr ([stop_at 1 0, stop_at 3 1, stop_at 2 2, stop_at 4 3], 2, 6) \<and>
   mset [stop_at 1 0, stop_at 3 1, stop_at 2 2, stop_at 4 3]
     = mset [stop_at 1 0, stop_at 2 2, stop_at 3 1, stop_at 4 3]"
proof -
  have e1: "two_opt [0, 2, 1, 3] line_matrix 1000 = Inr ([0, 1, 2, 3], True)"
    by code_simp
  have e2: "optimize_route_2opt line_distance [stop_at 1 0, stop_at 2 2, stop_at 3 1, stop_at 4 3]
     = Inr ([stop_at 1 0, stop_at 3 1, stop_at 2 2, stop_at 4 3], 2, 6)"
    by code_simp
  note w = two_opt_keeps_the_stops
    [of "[0, 2, 1, 3]" line_matrix 1000 "[0, 1, 2, 3]" True line_distance
        "[stop_at 1 0, stop_at 2 2, stop_at 3 1, stop_at 4 3]"
        "[stop_at 1 0, stop_at 3 1, stop_at 2 2, stop_at 4 3]" 2 6]
  from w[THEN conjunct1, THEN mp, OF e1] w[THEN conjunct2, THEN mp, OF e2] e1 e2
  show ?thesis by blast
qed


section \<open>The claims about the optimizer\<close>

text \<open>
  C3. The claim as stated fails: the counter of the limiter is kept per minute of the
  clock, so a window of 60 seconds that reaches over the change of the minute can hold
  more than 35 calls. From the second 1700000010, thirty-eight requests in a row that
  the provider leaves unanswered give 38 calls within 60 seconds.
\<close>

theorem rate_limit_35_counterexample:
  "\<not> calls_in_window 1700000010
      (road_distance_calls world_without_routes burst_of_calls fresh_optimizer) \<le> 35"
  using burst_fills_a_window by simp

text \<open>
  C3, amended. From a new optimizer, for every world, every sequence of requests, every
  delay between them and every window of 60 seconds: consecutive calls of the provider
  are at least 1.6 seconds apart, the counter of the current minute never exceeds 35, and
  at most 38 calls fall within the window, which is below the 40 per minute of the
  provider.
\<close>

theorem rate_limiter_sliding_window:
  "0 \<le> now \<and> (\<forall>call\<in>set calls. 0 \<le> fst call) \<longrightarrow>
     spaced (api_log (road_distance_calls w calls
        (new_optimizer client geocoding_rows routing_rows now))) \<and>
     api_calls_this_minute (road_distance_calls w calls
        (new_optimizer client geocoding_rows routing_rows now)) \<le> 35 \<and>
     calls_in_window t (road_distance_calls w calls
        (new_optimizer client geocoding_rows routing_rows now)) \<le> 38"
proof
  assume a: "0 \<le> now \<and> (\<forall>call\<in>set calls. 0 \<le> fst call)"
  let ?st = "road_distance_calls w calls (new_optimizer client geocoding_rows routing_rows now)"
  from a have "limiter_invariant ?st"
    by (intro limiter_invariant_calls limiter_invariant_new) simp_all
  then have s: "spaced (api_log ?st)" and c: "api_calls_this_minute ?st \<le> 35"
    by (simp_all add: limiter_invariant_def)
  from spaced_window[OF s, of t] have "calls_in_window t ?st \<le> 38"
    by (simp add: calls_in_window_def)
  with s c show "spaced (api_log ?st) \<and> api_calls_this_minute ?st \<le> 35 \<and>
     calls_in_window t ?st \<le> 38" by simp
qed

theorem rate_limiter_sliding_window_witness:
  "spaced (api_log (road_distance_calls world_without_routes burst_of_calls fresh_optimizer)) \<and>
   api_calls_this_minute (road_distance_calls world_without_routes burst_of_calls fresh_optimizer)
     \<le> 35 \<and>
   calls_in_window 1700000010
     (road_distance_calls world_without_routes burst_of_calls fresh_optimizer) \<le> 38"
proof -
  have h: "(0::real) \<le> 1700000010 \<and> (\<forall>call\<in>set burst_of_calls. 0 \<le> fst call)"
    by (simp add: burst_of_calls_def)
  from rate_limiter_sliding_window
    [of 1700000010 burst_of_calls world_without_routes True Map.empty Map.empty 1700000010,
     THEN mp, OF h]
  show ?thesis unfolding fresh_optimizer_def .
qed

text \<open>
  C1. The claim as stated fails for the algorithm "both": 2-opt starts from the
  nearest-neighbour order, which can be longer than the order given, and keeps the first
  and the last stop of its input. For the four stops on a line the order given has
  distance 7 and "both" reports 8.
\<close>

theorem both_can_report_more_counterexample:
  "\<exists>result. fst (optimize_route line_world line_stops ''both'' fresh_optimizer) = Inr result \<and>
     r_original_distance result = 7 \<and> r_optimized_distance result = 8 \<and>
     \<not> r_optimized_distance result \<le> r_original_distance result"
proof -
  from line_world_both obtain result where
    "fst (optimize_route line_world line_stops ''both'' fresh_optimizer) = Inr result"
    "r_original_distance result = 7" "r_optimized_distance result = 8" by blast
  then show ?thesis by (intro exI[of _ result]) simp
qed

text \<open>
  C1, amended. Whenever \<open>optimize_route\<close> returns a result: with the algorithm "2_opt"
  the optimized distance reported is at most the original distance reported; with the
  algorithm "both" and at least two stops it is at most the rounded distance of the
  nearest-neighbour order over the distance matrix of the call.
\<close>

theorem two_opt_reports_no_longer_route:
  "fst (optimize_route w stops algorithm st) = Inr result \<longrightarrow>
     (algorithm = ''2_opt'' \<longrightarrow> r_optimized_distance result \<le> r_original_distance result) \<and>
     (algorithm = ''both'' \<and> 2 \<le> length stops \<longrightarrow>
        (\<exists>distance_matrix located_stops st1 nn_order nn_distance.
           create_distance_matrix w stops st = (Inr (distance_matrix, located_stops), st1) \<and>
           nearest_neighbor distance_matrix 0 = Inr nn_order \<and>
           calculate_route_distance nn_order distance_matrix = Inr nn_distance \<and>
           r_optimized_distance result \<le> py_round nn_distance 2))"
proof (intro impI conjI)
  assume r: "fst (optimize_route w stops algorithm st) = Inr result" and a: "algorithm = ''2_opt''"
  show "r_optimized_distance result \<le> r_original_distance result"
  proof (cases "1 < length stops")
    case False
    with r show ?thesis by (auto simp: optimize_route_def optimize_route_stops_def Let_def)
  next
    case True
    from optimize_route_parts[OF r True] obtain dm located st1 od oo label optd where p:
      "calculate_route_distance (py_range (length stops)) dm = Inr od"
      "apply_algorithm algorithm (py_range (length stops)) dm = Inr (oo, label)"
      "calculate_route_distance oo dm = Inr optd"
      "r_original_distance result = py_round od 2"
      "r_optimized_distance result = py_round optd 2"
      by blast
    from p(2) a obtain imp where "two_opt (py_range (length stops)) dm 1000 = Inr (oo, imp)"
      by (auto simp: apply_algorithm_def split: sum.splits)
    from two_opt_not_longer[OF this p(1)] p(3) have "optd \<le> od" by auto
    with p(4,5) show ?thesis by (simp add: py_round_mono)
  qed
next
  assume r: "fst (optimize_route w stops algorithm st) = Inr result"
    and a: "algorithm = ''both'' \<and> 2 \<le> length stops"
  then have n: "1 < length stops" by simp
  from optimize_route_parts[OF r n] obtain dm located st1 od oo label optd where p:
    "create_distance_matrix w stops st = (Inr (dm, located), st1)"
    "apply_algorithm algorithm (py_range (length stops)) dm = Inr (oo, label)"
    "calculate_route_distance oo dm = Inr optd"
    "r_optimized_distance result = py_round optd 2"
    by blast
  from p(2) a obtain nn_order imp where nn: "nearest_neighbor dm 0 = Inr nn_order"
    "two_opt nn_order dm 1000 = Inr (oo, imp)"
    by (auto simp: apply_algorithm_def split: sum.splits)
  from two_opt_not_longer_start[OF nn(2) p(3)] obtain nd where
    nd: "calculate_route_distance nn_order dm = Inr nd" "optd \<le> nd" by blast
  from nd(2) p(4) have "r_optimized_distance result \<le> py_round nd 2" by (simp add: py_round_mono)
  with p(1) nn(1) nd(1) show "\<exists>distance_matrix located_stops st1 nn_order nn_distance.
           create_distance_matrix w stops st = (Inr (distance_matrix, located_stops), st1) \<and>
           nearest_neighbor distance_matrix 0 = Inr nn_order \<and>
           calculate_route_distance nn_order distance_matrix = Inr nn_distance \<and>
           r_optimized_distance result \<le> py_round nn_distance 2" by blast
qed

theorem two_opt_reports_no_longer_route_witness:
  "(\<exists>result. fst (optimize_route line_world line_stops ''2_opt'' fresh_optimizer) = Inr result \<and>
      r_optimized_distance result \<le> r_original_distance result) \<and>
   (\<exists>result distance_matrix located_stops st1 nn_order nn_distance.
      fst (optimize_route line_world line_stops ''both'' fresh_optimizer) = Inr result \<and>
      create_distance_matrix line_world line_stops fresh_optimizer
        = (Inr (distance_matrix, located_stops), st1) \<and>
      nearest_neighbor distance_matrix 0 = Inr nn_order \<and>
      calculate_route_distance nn_order distance_matrix = Inr nn_distance \<and>
      r_optimized_distance result \<le> py_round nn_distance 2)"
proof -
  from line_world_two_opt obtain r2 where
    r2: "fst (optimize_route line_world line_stops ''2_opt'' fresh_optimizer) = Inr r2" by blast
  from line_world_both obtain rb where
    rb: "fst (optimize_route line_world line_stops ''both'' fresh_optimizer) = Inr rb" by blast
  have len: "''both'' = ''both'' \<and> 2 \<le> length line_stops" by (simp add: line_stops_def)
  from two_opt_reports_no_longer_route
    [of line_world line_stops "''2_opt''" fresh_optimizer r2, THEN mp, OF r2, THEN conjunct1,
     THEN mp, OF refl] r2
  have a: "\<exists>result. fst (optimize_route line_world line_stops ''2_opt'' fresh_optimizer) = Inr result \<and>
      r_optimized_distance result \<le> r_original_distance result" by blast
  from two_opt_reports_no_longer_route
    [of line_world line_stops "''both''" fresh_optimizer rb, THEN mp, OF rb, THEN conjunct2,
     THEN mp, OF len] rb
  have b: "\<exists>result distance_matrix located_stops st1 nn_order nn_distance.
      fst (optimize_route line_world line_stops ''both'' fresh_optimizer) = Inr result \<and>
      create_distance_matrix line_world line_stops fresh_optimizer
        = (Inr (distance_matrix, located_stops), st1) \<and>
      nearest_neighbor distance_matrix 0 = Inr nn_order \<and>
      calculate_route_distance nn_order distance_matrix = Inr nn_distance \<and>
      r_optimized_distance result \<le> py_round nn_distance 2" by blast
  from a b show ?thesis by blast
qed

text \<open>
  C9. The claim as stated fails for the entries: an entry is what the routing provider
  or the routing cache gives, and nothing checks its sign. With a provider that reports
  a route of minus 1000 metres, the matrix of two stops has the entry -1.
\<close>

theorem negative_entry_counterexample:
  "\<exists>distance_matrix located_stops.
     fst (create_distance_matrix world_with_negative_route [stop_in ''A'', stop_in ''B'']
            fresh_optimizer) = Inr (distance_matrix, located_stops) \<and>
     distance_matrix ! 0 ! 1 = - 1 \<and> \<not> 0 \<le> distance_matrix ! 0 ! 1"
proof -
  from negative_route_matrix obtain located where
    "fst (create_distance_matrix world_with_negative_route [stop_in ''A'', stop_in ''B'']
      fresh_optimizer) = Inr ([[0, - 1], [- 1, 0]], located)" by blast
  then show ?thesis
    by (intro exI[of _ "[[0, - 1], [- 1, 0]]"] exI[of _ located]) simp
qed

text \<open>
  C9, amended. Every distance matrix that \<open>create_distance_matrix\<close> returns has as
  many rows as there are stops, every row as long, and every diagonal entry exactly 0.
  When the routing provider reports no negative distance and the routing cache holds
  none, every entry is greater than or equal to 0.
\<close>

theorem distance_matrix_square_zero_diagonal:
  "fst (create_distance_matrix w stops st) = Inr (distance_matrix, located_stops) \<longrightarrow>
     square_matrix (length stops) distance_matrix \<and>
     (\<forall>i<length stops. distance_matrix ! i ! i = 0) \<and>
     (nonneg_routes w \<and> nonneg_cache st \<longrightarrow>
        (\<forall>i<length stops. \<forall>j<length stops. 0 \<le> distance_matrix ! i ! j))"
  using create_distance_matrix_properties[of w stops st distance_matrix located_stops] by blast

theorem distance_matrix_square_zero_diagonal_witness:
  "nonneg_routes line_world \<and> nonneg_cache fresh_optimizer \<and>
   (\<exists>located_stops.
      fst (create_distance_matrix line_world line_stops fresh_optimizer)
        = Inr ([[0, 2, 1, 3], [2, 0, 3, 5], [1, 3, 0, 2], [3, 5, 2, 0]], located_stops)) \<and>
   square_matrix 4 [[0, 2, 1, 3], [2, 0, 3, 5], [1, 3, 0, 2], [3, 5, 2, 0 :: real]] \<and>
   [[0, 2, 1, 3], [2, 0, 3, 5], [1, 3, 0, 2], [3, 5, 2, 0 :: real]] ! 2 ! 2 = 0 \<and>
   0 \<le> [[0, 2, 1, 3], [2, 0, 3, 5], [1, 3, 0, 2], [3, 5, 2, 0 :: real]] ! 1 ! 3"
proof -
  from line_world_matrix obtain located where
    m: "fst (create_distance_matrix line_world line_stops fresh_optimizer)
     = Inr ([[0, 2, 1, 3], [2, 0, 3, 5], [1, 3, 0, 2], [3, 5, 2, 0]], located)" by blast
  have n: "length line_stops = 4" by (simp add: line_stops_def)
  note t = distance_matrix_square_zero_diagonal[THEN mp, OF m, unfolded n]
  note entries = t[THEN conjunct2, THEN conjunct2, THEN mp, OF line_world_nonneg]
  have sq: "square_matrix 4 [[0, 2, 1, 3], [2, 0, 3, 5], [1, 3, 0, 2], [3, 5, 2, 0 :: real]]"
    by (rule t[THEN conjunct1])
  have dg: "[[0, 2, 1, 3], [2, 0, 3, 5], [1, 3, 0, 2], [3, 5, 2, 0 :: real]] ! 2 ! 2 = 0"
    using t[THEN conjunct2, THEN conjunct1, THEN spec, of 2] by simp
  have en: "0 \<le> [[0, 2, 1, 3], [2, 0, 3, 5], [1, 3, 0, 2], [3, 5, 2, 0 :: real]] ! 1 ! 3"
    using entries[THEN spec, of 1, THEN mp, THEN spec, of 3] by simp
  have ex: "\<exists>located_stops.
      fst (create_distance_matrix line_world line_stops fresh_optimizer)
        = Inr ([[0, 2, 1, 3], [2, 0, 3, 5], [1, 3, 0, 2], [3, 5, 2, 0]], located_stops)"
    by (rule exI[of _ located], rule m)
  show ?thesis
    using line_world_nonneg ex sq dg en by (intro conjI) simp_all
qed

text \<open>
  C7. \<open>geocode_address\<close> returns a pair of coordinates for every street, postal code
  and city, whatever the caches hold and whatever the geocoder answers: every exception
  is caught. When neither cache has the address and every attempt at the geocoder fails
  (it raises an error or finds nothing), the result comes from the postal table. For a
  stripped postal code of at least two characters whose first two are in the table, it
  is the entry of the table when the code has fewer than five characters; with five or
  more, the third to fifth character are read as a number that shifts the entry, and the
  result is the fixed default when \<open>int\<close> refuses them. For a postal code of fewer than
  two characters, or with a prefix that is not in the table, the result is the fixed
  default (48.1351, 11.5820).
\<close>

theorem geocode_address_always_returns:
  "(\<exists>coords. fst (geocode_address w street postal_code city st) = Inr coords) \<and>
   (session_cache st (full_address_of w street postal_code city) = None \<and>
    cached_coordinates w st (full_address_of w street postal_code city) = None \<and>
    attempts_fail w st street postal_code city \<longrightarrow>
      (length (py_strip postal_code) < 2 \<or>
       postal_coordinates (take 2 (py_strip postal_code)) = None \<longrightarrow>
         fst (geocode_address w street postal_code city st) = Inr (48.1351, 11.5820)) \<and>
      (\<forall>base. 2 \<le> length (py_strip postal_code) \<and>
          postal_coordinates (take 2 (py_strip postal_code)) = Some base \<longrightarrow>
         (length (py_strip postal_code) < 5 \<longrightarrow>
            fst (geocode_address w street postal_code city st) = Inr base) \<and>
         (5 \<le> length (py_strip postal_code) \<longrightarrow>
            (\<forall>digits. py_int w (drop 2 (take 5 (py_strip postal_code))) = Inr digits \<longrightarrow>
               fst (geocode_address w street postal_code city st)
                 = Inr (fst base + (real_of_int digits / 10000 - 0.05),
                        snd base + (real_of_int digits / 10000 - 0.05))) \<and>
            (\<forall>e. py_int w (drop 2 (take 5 (py_strip postal_code))) = Inl e \<longrightarrow>
               fst (geocode_address w street postal_code city st) = Inr (48.1351, 11.5820)))))"
proof (intro conjI impI allI)
  show "\<exists>coords. fst (geocode_address w street postal_code city st) = Inr coords"
    by (rule geocode_address_returns)
next
  assume h: "session_cache st (full_address_of w street postal_code city) = None \<and>
    cached_coordinates w st (full_address_of w street postal_code city) = None \<and>
    attempts_fail w st street postal_code city"
    and u: "length (py_strip postal_code) < 2 \<or>
       postal_coordinates (take 2 (py_strip postal_code)) = None"
  from h have "fst (geocode_address w street postal_code city st)
      = get_coordinates_from_postal w postal_code city"
    by (intro geocode_address_fallback) simp_all
  with get_coordinates_from_postal_unknown[OF u, of w city]
  show "fst (geocode_address w street postal_code city st) = Inr (48.1351, 11.5820)"
    by (simp add: default_coordinates_def)
next
  fix base
  assume h: "session_cache st (full_address_of w street postal_code city) = None \<and>
    cached_coordinates w st (full_address_of w street postal_code city) = None \<and>
    attempts_fail w st street postal_code city"
    and k: "2 \<le> length (py_strip postal_code) \<and>
          postal_coordinates (take 2 (py_strip postal_code)) = Some base"
    and s: "length (py_strip postal_code) < 5"
  from h have "fst (geocode_address w street postal_code city st)
      = get_coordinates_from_postal w postal_code city"
    by (intro geocode_address_fallback) simp_all
  with get_coordinates_from_postal_known(1)[OF k[THEN conjunct1] k[THEN conjunct2] s, of w city]
  show "fst (geocode_address w street postal_code city st) = Inr base" by simp
next
  fix base digits
  assume h: "session_cache st (full_address_of w street postal_code city) = None \<and>
    cached_coordinates w st (full_address_of w street postal_code city) = None \<and>
    attempts_fail w st street postal_code city"
    and k: "2 \<le> length (py_strip postal_code) \<and>
          postal_coordinates (take 2 (py_strip postal_code)) = Some base"
    and l: "5 \<le> length (py_strip postal_code)"
    and d: "py_int w (drop 2 (take 5 (py_strip postal_code))) = Inr digits"
  from h have "fst (geocode_address w street postal_code city st)
      = get_coordinates_from_postal w postal_code city"
    by (intro geocode_address_fallback) simp_all
  with get_coordinates_from_postal_known(2)[OF k[THEN conjunct1] k[THEN conjunct2] l d, of city]
  show "fst (geocode_address w street postal_code city st)
      = Inr (fst base + (real_of_int digits / 10000 - 0.05),
             snd base + (real_of_int digits / 10000 - 0.05))" by simp
next
  fix base e
  assume h: "session_cache st (full_address_of w street postal_code city) = None \<and>
    cached_coordinates w st (full_address_of w street postal_code city) = None \<and>
    attempts_fail w st street postal_code city"
    and k: "2 \<le> length (py_strip postal_code) \<and>
          postal_coordinates (take 2 (py_strip postal_code)) = Some base"
    and l: "5 \<le> length (py_strip postal_code)"
    and d: "py_int w (drop 2 (take 5 (py_strip postal_code))) = Inl e"
  from h have "fst (geocode_address w street postal_code city st)
      = get_coordinates_from_postal w postal_code city"
    by (intro geocode_address_fallback) simp_all
  with get_coordinates_from_postal_known(3)[OF k[THEN conjunct1] k[THEN conjunct2] l d, of city]
  show "fst (geocode_address w street postal_code city st) = Inr (48.1351, 11.5820)"
    by (simp add: default_coordinates_def)
qed

theorem geocode_address_always_returns_witness:
  "fst (geocode_address offline_world (codepoints ''Hauptstr. 1'') (codepoints ''30159'')
          (codepoints ''Hannover'') fresh_optimizer) = Inr (52.3418, 9.6979) \<and>
   fst (geocode_address offline_world (codepoints ''Hauptstr. 1'') (codepoints ''30'')
          (codepoints ''Hannover'') fresh_optimizer) = Inr (52.3759, 9.7320) \<and>
   fst (geocode_address offline_world (codepoints ''Hauptstr. 1'') (codepoints ''30abc'')
          (codepoints ''Hannover'') fresh_optimizer) = Inr (48.1351, 11.5820) \<and>
   fst (geocode_address world_without_routes (codepoints ''Hauptstr. 1'')
          (160 # codepoints ''99999'') (codepoints ''Nirgendwo'') fresh_optimizer)
     = Inr (48.1351, 11.5820)"
proof -
  have h1: "session_cache fresh_optimizer (full_address_of offline_world
        (codepoints ''Hauptstr. 1'') (codepoints ''30159'') (codepoints ''Hannover'')) = None \<and>
      cached_coordinates offline_world fresh_optimizer (full_address_of offline_world
        (codepoints ''Hauptstr. 1'') (codepoints ''30159'') (codepoints ''Hannover'')) = None \<and>
      attempts_fail offline_world fresh_optimizer
        (codepoints ''Hauptstr. 1'') (codepoints ''30159'') (codepoints ''Hannover'')"
    by (simp add: address_rules offline_world_def)
  have k1: "2 \<le> length (py_strip (codepoints ''30159'')) \<and>
      postal_coordinates (take 2 (py_strip (codepoints ''30159''))) = Some (52.3759, 9.7320)"
    by (simp add: address_rules postal_coordinates_def)
  have l1: "5 \<le> length (py_strip (codepoints ''30159''))" by (simp add: address_rules)
  have d1: "py_int offline_world (drop 2 (take 5 (py_strip (codepoints ''30159'')))) = Inr 159"
    by (simp add: address_rules py_int_def to_ascii_def is_c_space_def is_digit_def)
  from geocode_address_always_returns[THEN conjunct2, THEN mp, OF h1, THEN conjunct2,
      THEN spec, THEN mp, OF k1, THEN conjunct2, THEN mp, OF l1, THEN conjunct1,
      THEN spec, THEN mp, OF d1]
  have a: "fst (geocode_address offline_world (codepoints ''Hauptstr. 1'') (codepoints ''30159'')
          (codepoints ''Hannover'') fresh_optimizer) = Inr (52.3418, 9.6979)" by simp
  have h2: "session_cache fresh_optimizer (full_address_of offline_world
        (codepoints ''Hauptstr. 1'') (codepoints ''30'') (codepoints ''Hannover'')) = None \<and>
      cached_coordinates offline_world fresh_optimizer (full_address_of offline_world
        (codepoints ''Hauptstr. 1'') (codepoints ''30'') (codepoints ''Hannover'')) = None \<and>
      attempts_fail offline_world fresh_optimizer
        (codepoints ''Hauptstr. 1'') (codepoints ''30'') (codepoints ''Hannover'')"
    by (simp add: address_rules offline_world_def)
  have k2: "2 \<le> length (py_strip (codepoints ''30'')) \<and>
      postal_coordinates (take 2 (py_strip (codepoints ''30''))) = Some (52.3759, 9.7320)"
    by (simp add: address_rules postal_coordinates_def)
  have l2: "length (py_strip (codepoints ''30'')) < 5" by (simp add: address_rules)
  from geocode_address_always_returns[THEN conjunct2, THEN mp, OF h2, THEN conjunct2,
      THEN spec, THEN mp, OF k2, THEN conjunct1, THEN mp, OF l2]
  have b: "fst (geocode_address offline_world (codepoints ''Hauptstr. 1'') (codepoints ''30'')
          (codepoints ''Hannover'') fresh_optimizer) = Inr (52.3759, 9.7320)" .
  have h3: "session_cache fresh_optimizer (full_address_of offline_world
        (codepoints ''Hauptstr. 1'') (codepoints ''30abc'') (codepoints ''Hannover'')) = None \<and>
      cached_coordinates offline_world fresh_optimizer (full_address_of offline_world
        (codepoints ''Hauptstr. 1'') (codepoints ''30abc'') (codepoints ''Hannover'')) = None \<and>
      attempts_fail offline_world fresh_optimizer
        (codepoints ''Hauptstr. 1'') (codepoints ''30abc'') (codepoints ''Hannover'')"
    by (simp add: address_rules offline_world_def)
  have k3: "2 \<le> length (py_strip (codepoints ''30abc'')) \<and>
      postal_coordinates (take 2 (py_strip (codepoints ''30abc''))) = Some (52.3759, 9.7320)"
    by (simp add: address_rules postal_coordinates_def)
  have l3: "5 \<le> length (py_strip (codepoints ''30abc''))" by (simp add: address_rules)
  have d3: "py_int offline_world (drop 2 (take 5 (py_strip (codepoints ''30abc'')))) = Inl ValueError"
    by (simp add: address_rules py_int_def to_ascii_def is_c_space_def is_digit_def)
  from geocode_address_always_returns[THEN conjunct2, THEN mp, OF h3, THEN conjunct2,
      THEN spec, THEN mp, OF k3, THEN conjunct2, THEN mp, OF l3, THEN conjunct2,
      THEN spec, THEN mp, OF d3]
  have c: "fst (geocode_address offline_world (codepoints ''Hauptstr. 1'') (codepoints ''30abc'')
          (codepoints ''Hannover'') fresh_optimizer) = Inr (48.1351, 11.5820)" .
  have h4: "session_cache fresh_optimizer (full_address_of world_without_routes
        (codepoints ''Hauptstr. 1'') (160 # codepoints ''99999'') (codepoints ''Nirgendwo'')) = None \<and>
      cached_coordinates world_without_routes fresh_optimizer (full_address_of world_without_routes
        (codepoints ''Hauptstr. 1'') (160 # codepoints ''99999'') (codepoints ''Nirgendwo'')) = None \<and>
      attempts_fail world_without_routes fresh_optimizer
        (codepoints ''Hauptstr. 1'') (160 # codepoints ''99999'') (codepoints ''Nirgendwo'')"
    by (simp add: address_rules world_without_routes_def)
  have u4: "length (py_strip (160 # codepoints ''99999'')) < 2 \<or>
       postal_coordinates (take 2 (py_strip (160 # codepoints ''99999''))) = None"
    by (simp add: address_rules postal_coordinates_def)
  from geocode_address_always_returns[THEN conjunct2, THEN mp, OF h4, THEN conjunct1,
      THEN mp, OF u4]
  have d: "fst (geocode_address world_without_routes (codepoints ''Hauptstr. 1'')
          (160 # codepoints ''99999'') (codepoints ''Nirgendwo'') fresh_optimizer)
     = Inr (48.1351, 11.5820)" .
  from a b c d show ?thesis by (intro conjI)
qed

text \<open>
  C8. The code sets out to do what the claim says and misses it for points on opposite
  sides of the globe. From latitude 8, longitude 0 to latitude -8, longitude 180 the
  routing provider raises an error, the fallback computes 1.0000000000000002 for the
  term \<open>a\<close> of the haversine formula, and the square root of \<open>1 - a\<close> raises
  ValueError, which \<open>calculate_distance\<close> does not catch. The routing cache is left
  as it was; the great-circle distance of the pair, which the claim promises, is
  6371 times pi kilometres.
\<close>

theorem fallback_raises_between_antipodes:
  "fst (calculate_distance far_world 8 0 (- 8) 180 fresh_optimizer) = Inl ValueError \<and>
   routing_cache (snd (calculate_distance far_world 8 0 (- 8) 180 fresh_optimizer)) = Map.empty \<and>
   great_circle_km (haversine_term 8 0 (- 8) 180) = 6371 * pi"
proof -
  have miss: "routing_db_ok far_world \<longrightarrow>
      routing_cache fresh_optimizer (hash_route (8, 0) (- 8, 180)) = None"
    by (simp add: fresh_optimizer_def new_optimizer_def)
  have fail: "routing_fails far_world fresh_optimizer (8, 0) (- 8, 180)"
    by (simp add: routing_fails_def far_world_def)
  have r: "haversine_rounding far_world 8 0 (- 8) 180 = 1 / 2 ^ 52"
    by (simp add: far_world_def)
  from calculate_distance_without_route(1)[OF miss fail]
  have a: "fst (calculate_distance far_world 8 0 (- 8) 180 fresh_optimizer) = Inl ValueError"
    by (simp add: antipodes_haversine r)
  from calculate_distance_without_route(2)[OF miss fail]
  have b: "routing_cache (snd (calculate_distance far_world 8 0 (- 8) 180 fresh_optimizer))
      = Map.empty"
    by (simp add: fresh_optimizer_def new_optimizer_def)
  have c: "great_circle_km (haversine_term 8 0 (- 8) 180) = 6371 * pi"
    by (simp add: antipodes_haversine great_circle_km_def)
  from a b c show ?thesis by (intro conjI)
qed

text \<open>
  C2. The claim as stated fails: \<open>optimize_multiple_routes\<close> has no handler around
  \<open>optimize_route\<close>. In a batch of three routes, the first with the four stops of the
  line, the second from P to Q on the opposite side of the globe, the third from C to D,
  the second route raises ValueError (no road is found and the haversine fallback
  fails), and the batch ends with that ValueError and returns no results, though the
  batch of the first and the third route alone returns.
\<close>

theorem batch_isolation_counterexample:
  "fst (optimize_multiple_routes far_world
     [(''R1'', line_stops), (''R2'', far_stops), (''R3'', [stop_in ''C'', stop_in ''D''])]
     ''both'' fresh_optimizer) = Inl ValueError \<and>
   \<not> isl (fst (optimize_multiple_routes far_world
     [(''R1'', line_stops), (''R3'', [stop_in ''C'', stop_in ''D''])]
     ''both'' fresh_optimizer))"
  using far_batch_fails far_batch_returns by (rule conjI)

text \<open>
  C2, amended. When the route groups before a group are optimized and
  \<open>optimize_route\<close> raises an exception on that group (of more than one stop),
  \<open>optimize_multiple_routes\<close> raises that exception: it returns no results, whatever
  groups follow, and the optimizer is left as the failed call left it. When
  \<open>optimize_multiple_routes\<close> returns, its results have one entry for every group, in
  the order of the groups.
\<close>

theorem batch_stops_at_first_failure:
  "(optimize_multiple_routes w earlier algorithm st = (Inr (earlier_summary, earlier_results), st1) \<and>
    1 < length stops \<and> fst (optimize_route w stops algorithm st1) = Inl e \<longrightarrow>
      optimize_multiple_routes w (earlier @ (route_id, stops) # later) algorithm st
        = (Inl e, snd (optimize_route w stops algorithm st1))) \<and>
   (fst (optimize_multiple_routes w routes algorithm st) = Inr (batch_summary, batch_results) \<longrightarrow>
      map fst batch_results = map fst routes)"
proof (intro conjI impI)
  assume a: "optimize_multiple_routes w earlier algorithm st
      = (Inr (earlier_summary, earlier_results), st1) \<and>
    1 < length stops \<and> fst (optimize_route w stops algorithm st1) = Inl e"
  from batch_returns[OF a[THEN conjunct1]] obtain saved count0 where
    "optimize_groups w earlier algorithm [] 0 0 st = (Inr (earlier_results, saved, count0), st1)"
    by blast
  from batch_aborts[OF this a[THEN conjunct2, THEN conjunct1] a[THEN conjunct2, THEN conjunct2]]
  show "optimize_multiple_routes w (earlier @ (route_id, stops) # later) algorithm st
        = (Inl e, snd (optimize_route w stops algorithm st1))" .
next
  assume "fst (optimize_multiple_routes w routes algorithm st) = Inr (batch_summary, batch_results)"
  then show "map fst batch_results = map fst routes" by (rule batch_ids)
qed

theorem batch_stops_at_first_failure_witness:
  "fst (optimize_multiple_routes far_world
      ([(''R1'', line_stops)] @ (''R2'', far_stops) # [(''R3'', [stop_in ''C'', stop_in ''D''])])
      ''both'' fresh_optimizer) = Inl ValueError \<and>
   \<not> isl (fst (optimize_multiple_routes far_world
      [(''R1'', line_stops), (''R3'', [stop_in ''C'', stop_in ''D''])] ''both'' fresh_optimizer)) \<and>
   map fst (snd (projr (fst (optimize_multiple_routes far_world
      [(''R1'', line_stops), (''R3'', [stop_in ''C'', stop_in ''D''])] ''both'' fresh_optimizer))))
     = [''R1'', ''R3'']"
proof -
  from far_batch_parts obtain s r st1 where
    p: "optimize_multiple_routes far_world [(''R1'', line_stops)] ''both'' fresh_optimizer
       = (Inr (s, r), st1)"
    and f: "fst (optimize_route far_world far_stops ''both'' st1) = Inl ValueError"
    by blast
  have l: "1 < length far_stops" by (simp add: far_stops_def)
  have h: "optimize_multiple_routes far_world [(''R1'', line_stops)] ''both'' fresh_optimizer
       = (Inr (s, r), st1) \<and> 1 < length far_stops \<and>
     fst (optimize_route far_world far_stops ''both'' st1) = Inl ValueError"
    using p l f by (intro conjI)
  from batch_stops_at_first_failure[THEN conjunct1, THEN mp, OF h,
      of "''R2''" "[(''R3'', [stop_in ''C'', stop_in ''D''])]"]
  have a: "fst (optimize_multiple_routes far_world
      ([(''R1'', line_stops)] @ (''R2'', far_stops) # [(''R3'', [stop_in ''C'', stop_in ''D''])])
      ''both'' fresh_optimizer) = Inl ValueError" by simp
  have b: "\<not> isl (fst (optimize_multiple_routes far_world
      [(''R1'', line_stops), (''R3'', [stop_in ''C'', stop_in ''D''])] ''both'' fresh_optimizer))"
    by (rule far_batch_returns)
  then obtain bs br where c: "fst (optimize_multiple_routes far_world
      [(''R1'', line_stops), (''R3'', [stop_in ''C'', stop_in ''D''])] ''both'' fresh_optimizer)
      = Inr (bs, br)"
    by (cases "fst (optimize_multiple_routes far_world
      [(''R1'', line_stops), (''R3'', [stop_in ''C'', stop_in ''D''])] ''both'' fresh_optimizer)") auto
  from batch_stops_at_first_failure[THEN conjunct2, THEN mp, OF c]
  have "map fst br = [''R1'', ''R3'']" by simp
  with c have d: "map fst (snd (projr (fst (optimize_multiple_routes far_world
      [(''R1'', line_stops), (''R3'', [stop_in ''C'', stop_in ''D''])] ''both'' fresh_optimizer))))
     = [''R1'', ''R3'']" by simp
  from a b d show ?thesis by (intro conjI)
qed

end
